(* ===== verification/Prelude.thy ===== *)
theory Prelude
  imports Main "HOL-Library.Word"
begin

text \<open>
  Shared vocabulary of the development: the fixed-width integer types of the C sources, the
  little-endian byte representation of a word, slices of byte strings, and the arithmetic of
  time stamps. The collections declared here carry the proofs of the components: \<open>byte_simps\<close>
  evaluates byte-string conversions on concrete data, \<open>layout_simps\<close> evaluates the layout of C
  types, \<open>helper_defs\<close> unfolds the BPF helper functions and \<open>probe_defs\<close> the probe handlers.
\<close>

unbundle bit_operations_syntax

named_theorems byte_simps
named_theorems layout_simps
named_theorems helper_defs
named_theorems probe_defs

type_synonym u8 = "8 word"
type_synonym u16 = "16 word"
type_synonym u32 = "32 word"
type_synonym u64 = "64 word"
type_synonym s32 = "32 word"  \<comment> \<open>read with \<^term>\<open>sint\<close>\<close>
type_synonym s64 = "64 word"  \<comment> \<open>read with \<^term>\<open>sint\<close>\<close>
type_synonym bytes = "u8 list"

section \<open>Little-endian byte strings\<close>

definition le_word :: "bytes \<Rightarrow> 'a::len word" where
  "le_word bs = word_rcat (rev bs)"

definition word_le :: "'a::len word \<Rightarrow> bytes" where
  "word_le w = map (\<lambda>i. ucast (drop_bit (8 * i) w)) [0..<LENGTH('a) div 8]"

lemma bit_le_word:
  "bit (le_word bs :: 'a::len word) n \<longleftrightarrow>
     n < LENGTH('a) \<and> n div 8 < length bs \<and> bit (bs ! (n div 8)) (n mod 8)"
proof -
  have "bit (horner_sum uint (2 ^ LENGTH(8)) bs) n \<longleftrightarrow>
      n div LENGTH(8) < length bs \<and> bit (bs ! (n div LENGTH(8))) (n mod LENGTH(8))"
    by (rule bit_horner_sum_uint_exp_iff)
  then show ?thesis
    by (simp add: le_word_def word_rcat_def bit_word_of_int_iff)
qed

lemma length_word_le [simp]: "length (word_le (w :: 'a::len word)) = LENGTH('a) div 8"
  by (simp add: word_le_def)

lemma nth_word_le:
  "i < LENGTH('a) div 8 \<Longrightarrow> word_le (w :: 'a::len word) ! i = ucast (drop_bit (8 * i) w)"
  by (simp add: word_le_def)

lemma le_word_word_le:
  assumes "8 dvd LENGTH('a::len)"
  shows "le_word (word_le (w :: 'a word)) = w"
proof (rule bit_word_eqI)
  fix n assume n: "n < LENGTH('a)"
  have "n div 8 < LENGTH('a) div 8"
    using assms n by (auto elim!: dvdE)
  then show "bit (le_word (word_le w) :: 'a word) n = bit w n"
    using n by (simp add: bit_le_word nth_word_le bit_ucast_iff bit_drop_bit_eq)
qed

lemma word_le_le_word:
  assumes "8 * length bs = LENGTH('a::len)"
  shows "word_le (le_word bs :: 'a word) = bs"
proof (rule nth_equalityI)
  show "length (word_le (le_word bs :: 'a word)) = length bs"
    using assms by auto
  fix i assume "i < length (word_le (le_word bs :: 'a word))"
  then have i: "i < length bs" using assms by auto
  show "word_le (le_word bs :: 'a word) ! i = bs ! i"
  proof (rule bit_word_eqI)
    fix n assume "n < LENGTH(8)"
    then have n: "n < 8" by simp
    then have "8 * i + n < LENGTH('a)" using i assms by linarith
    then show "bit (word_le (le_word bs :: 'a word) ! i) n = bit (bs ! i) n"
      using i n assms by (auto simp: nth_word_le bit_ucast_iff bit_drop_bit_eq bit_le_word)
  qed
qed

lemmas le_word_word_le_widths [simp] =
  le_word_word_le [where 'a = 8, simplified]
  le_word_word_le [where 'a = 16, simplified]
  le_word_word_le [where 'a = 32, simplified]
  le_word_word_le [where 'a = 64, simplified]

lemma le_word_eval [byte_simps]:
  "le_word bs = word_of_int (horner_sum uint 256 bs)"
  by (simp add: le_word_def word_rcat_def)

text \<open>The network (big-endian) representation is the reverse of the little-endian one.\<close>

definition be_word :: "bytes \<Rightarrow> 'a::len word" where
  "be_word bs = le_word (rev bs)"

definition word_be :: "'a::len word \<Rightarrow> bytes" where
  "word_be w = rev (word_le w)"

lemma length_word_be [simp]: "length (word_be (w :: 'a::len word)) = LENGTH('a) div 8"
  by (simp add: word_be_def)

lemma be_word_word_be:
  "8 dvd LENGTH('a::len) \<Longrightarrow> be_word (word_be (w :: 'a word)) = w"
  by (simp add: be_word_def word_be_def le_word_word_le)

section \<open>Slices and overlays of byte strings\<close>

definition slice :: "nat \<Rightarrow> nat \<Rightarrow> bytes \<Rightarrow> bytes" where
  "slice off n bs = take n (drop off bs)"

text \<open>Writing the bytes \<open>src\<close> over the front of the object \<open>dst\<close>.\<close>

definition overlay :: "bytes \<Rightarrow> bytes \<Rightarrow> bytes" where
  "overlay src dst = src @ drop (length src) dst"

lemma length_slice [simp]: "off + n \<le> length bs \<Longrightarrow> length (slice off n bs) = n"
  by (simp add: slice_def)

lemma slice_append_left:
  "off + n \<le> length xs \<Longrightarrow> slice off n (xs @ ys) = slice off n xs"
  by (simp add: slice_def)

lemma slice_append_right:
  "length xs \<le> off \<Longrightarrow> slice off n (xs @ ys) = slice (off - length xs) n ys"
  by (simp add: slice_def)

lemma slice_self [simp]: "slice 0 (length bs) bs = bs"
  by (simp add: slice_def)

lemma length_overlay [simp]:
  "length src \<le> length dst \<Longrightarrow> length (overlay src dst) = length dst"
  by (simp add: overlay_def)

lemma slice_overlay: "slice 0 (length src) (overlay src dst) = src"
  by (simp add: overlay_def slice_def)

section \<open>Time stamps\<close>

text \<open>
  The probes subtract two readings of the monotonic clock as unsigned 64-bit numbers. When the
  clock has not gone backwards the difference is the elapsed time.
\<close>

lemma elapsed_unat:
  "(t0 :: 'a::len word) \<le> t1 \<Longrightarrow> unat (t1 - t0) = unat t1 - unat t0"
  by (rule unat_sub)

lemma elapsed_zero: "(t1 :: 'a::len word) - 0 = t1"
  by simp

section \<open>Association lists\<close>

text \<open>Updating and deleting a key of an association list that stands for a hash table.\<close>

primrec al_update :: "'k \<Rightarrow> 'v \<Rightarrow> ('k \<times> 'v) list \<Rightarrow> ('k \<times> 'v) list" where
  "al_update k v [] = [(k, v)]"
| "al_update k v (p # ps) = (if fst p = k then (k, v) # ps else p # al_update k v ps)"

definition al_delete :: "'k \<Rightarrow> ('k \<times> 'v) list \<Rightarrow> ('k \<times> 'v) list" where
  "al_delete k ps = filter (\<lambda>p. fst p \<noteq> k) ps"

lemma map_of_al_update [simp]: "map_of (al_update k v ps) = (map_of ps)(k \<mapsto> v)"
  by (induction ps) auto

lemma map_of_al_delete [simp]: "map_of (al_delete k ps) = (map_of ps)(k := None)"
  by (induction ps) (auto simp: al_delete_def)

lemma set_keys_al_update [simp]:
  "fst ` set (al_update k v ps) = insert k (fst ` set ps)"
  by (induction ps) auto

lemma distinct_al_update [simp]:
  "distinct (map fst ps) \<Longrightarrow> distinct (map fst (al_update k v ps))"
proof (induction ps)
  case (Cons p ps)
  have "fst p \<notin> fst ` set (al_update k v ps)" if "fst p \<noteq> k"
    using that Cons.prems by (simp only: set_keys_al_update) simp
  with Cons show ?case by auto
qed simp

lemma distinct_al_delete [simp]:
  "distinct (map fst ps) \<Longrightarrow> distinct (map fst (al_delete k ps))"
  unfolding al_delete_def by (rule distinct_map_filter)

lemma length_al_update:
  "length (al_update k v ps) = (if map_of ps k = None then Suc (length ps) else length ps)"
  by (induction ps) (auto simp: map_of_eq_None_iff image_iff)

lemma length_al_delete_le: "length (al_delete k ps) \<le> length ps"
  by (simp add: al_delete_def)

end
