(* ===== verification/CLayout.thy ===== *)
theory CLayout
  imports Prelude
begin

text \<open>
  The memory layout of C types on the 64-bit little-endian targets the probes are built for:
  sizes, alignments, the position of struct and union members (bit-fields included) and the
  resolution of member paths through anonymous members. The kernel types of
  \<^verbatim>\<open>vmlinux.h\<close> and the event types of the probes are values of \<open>ctype\<close>.
\<close>

section \<open>Types\<close>

text \<open>
  A bit-field records the size in bytes of its declared type and its width in bits; an unnamed
  member or bit-field has the empty name. The flag of a struct or union tells whether it is
  declared \<^verbatim>\<open>__attribute__((packed))\<close>.
\<close>

datatype ctype =
    CInt nat
  | CPtr
  | CArr ctype nat
  | CStruct bool "cfield list"
  | CUnion bool "cfield list"
and cfield =
    Member string ctype
  | Bits string nat nat

definition align_up :: "nat \<Rightarrow> nat \<Rightarrow> nat" where
  "align_up a n = (n + a - 1) div a * a"

fun alignof :: "ctype \<Rightarrow> nat" and falign :: "cfield \<Rightarrow> nat" and max_align :: "cfield list \<Rightarrow> nat" where
  "alignof (CInt n) = n"
| "alignof CPtr = 8"
| "alignof (CArr t n) = alignof t"
| "alignof (CStruct packed fs) = (if packed then 1 else max_align fs)"
| "alignof (CUnion packed fs) = (if packed then 1 else max_align fs)"
| "falign (Member name t) = alignof t"
| "falign (Bits name s w) = (if name = '''' then 1 else s)"
| "max_align [] = 1"
| "max_align (f # fs) = max (falign f) (max_align fs)"

text \<open>
  Positions are counted in bits from the start of the struct. A member starts at the next byte
  aligned for its type; a bit-field starts right after the previous member unless it would cross
  a boundary of its declared type, and a zero-width bit-field moves to the next such boundary.
\<close>

fun fstart :: "bool \<Rightarrow> nat \<Rightarrow> cfield \<Rightarrow> nat" where
  "fstart packed pos (Member name t) =
     8 * align_up (if packed then 1 else alignof t) ((pos + 7) div 8)"
| "fstart packed pos (Bits name s w) =
     (if w = 0 then align_up (8 * s) pos
      else if \<not> packed \<and> 8 * s < pos mod (8 * s) + w then align_up (8 * s) pos
      else pos)"

fun sizeof :: "ctype \<Rightarrow> nat" and fbits :: "cfield \<Rightarrow> nat"
  and struct_end :: "bool \<Rightarrow> nat \<Rightarrow> cfield list \<Rightarrow> nat" and union_end :: "cfield list \<Rightarrow> nat" where
  "sizeof (CInt n) = n"
| "sizeof CPtr = 8"
| "sizeof (CArr t n) = n * sizeof t"
| "sizeof (CStruct packed fs) =
     align_up (alignof (CStruct packed fs)) ((struct_end packed 0 fs + 7) div 8)"
| "sizeof (CUnion packed fs) = align_up (alignof (CUnion packed fs)) ((union_end fs + 7) div 8)"
| "fbits (Member name t) = 8 * sizeof t"
| "fbits (Bits name s w) = w"
| "struct_end packed pos [] = pos"
| "struct_end packed pos (f # fs) = struct_end packed (fstart packed pos f + fbits f) fs"
| "union_end [] = 0"
| "union_end (f # fs) = max (fbits f) (union_end fs)"

text \<open>
  The bit position and the declaration of a named member. Members of an unnamed struct or union
  are found as members of the enclosing type, as C11 defines it.
\<close>

fun member :: "ctype \<Rightarrow> string \<Rightarrow> (nat \<times> cfield) option"
  and member_in :: "bool \<Rightarrow> nat \<Rightarrow> cfield list \<Rightarrow> string \<Rightarrow> (nat \<times> cfield) option"
  and member_of :: "cfield \<Rightarrow> string \<Rightarrow> (nat \<times> cfield) option"
  and member_un :: "cfield list \<Rightarrow> string \<Rightarrow> (nat \<times> cfield) option" where
  "member (CStruct packed fs) x = member_in packed 0 fs x"
| "member (CUnion packed fs) x = member_un fs x"
| "member (CInt n) x = None"
| "member CPtr x = None"
| "member (CArr t n) x = None"
| "member_of (Member name t) x =
     (if name = '''' then member t x else if name = x then Some (0, Member name t) else None)"
| "member_of (Bits name s w) x = (if name \<noteq> '''' \<and> name = x then Some (0, Bits name s w) else None)"
| "member_in packed pos [] x = None"
| "member_in packed pos (f # fs) x =
     (case member_of f x of
        Some (off, g) \<Rightarrow> Some (fstart packed pos f + off, g)
      | None \<Rightarrow> member_in packed (fstart packed pos f + fbits f) fs x)"
| "member_un [] x = None"
| "member_un (f # fs) x =
     (case member_of f x of
        Some (off, g) \<Rightarrow> Some (off, g)
      | None \<Rightarrow> member_un fs x)"

fun member_path :: "ctype \<Rightarrow> string list \<Rightarrow> (nat \<times> cfield) option" where
  "member_path t [] = Some (0, Member '''' t)"
| "member_path t (x # xs) =
     (case member t x of
        Some (off, Member name u) \<Rightarrow>
          (case member_path u xs of
             Some (off', g) \<Rightarrow> Some (off + off', if xs = [] then Member name u else g)
           | None \<Rightarrow> None)
      | Some (off, Bits name s w) \<Rightarrow> (if xs = [] then Some (off, Bits name s w) else None)
      | None \<Rightarrow> None)"

definition offsetof :: "ctype \<Rightarrow> string list \<Rightarrow> nat" where
  "offsetof t path = (case member_path t path of Some (off, f) \<Rightarrow> off div 8 | None \<Rightarrow> 0)"

definition has_member :: "ctype \<Rightarrow> string list \<Rightarrow> bool" where
  "has_member t path \<longleftrightarrow> member_path t path \<noteq> None"

text \<open>Well-formed types: scalar sizes are powers of two and bit-fields fit their declared type.\<close>

fun wf_ctype :: "ctype \<Rightarrow> bool" and wf_field :: "cfield \<Rightarrow> bool" and wf_fields :: "cfield list \<Rightarrow> bool" where
  "wf_ctype (CInt n) \<longleftrightarrow> n \<in> {1, 2, 4, 8, 16}"
| "wf_ctype CPtr \<longleftrightarrow> True"
| "wf_ctype (CArr t n) \<longleftrightarrow> wf_ctype t"
| "wf_ctype (CStruct packed fs) \<longleftrightarrow> wf_fields fs"
| "wf_ctype (CUnion packed fs) \<longleftrightarrow> wf_fields fs"
| "wf_field (Member name t) \<longleftrightarrow> wf_ctype t"
| "wf_field (Bits name s w) \<longleftrightarrow> s \<in> {1, 2, 4, 8} \<and> w \<le> 8 * s"
| "wf_fields [] \<longleftrightarrow> True"
| "wf_fields (f # fs) \<longleftrightarrow> wf_field f \<and> wf_fields fs"

section \<open>Alignment\<close>

lemma align_up_split: "0 < a \<Longrightarrow> \<exists>r < a. align_up a n + r = n + a - 1"
  unfolding align_up_def
  by (metis div_mult_mod_eq mod_less_divisor)

lemma align_up_ge: "0 < a \<Longrightarrow> n \<le> align_up a n"
  using align_up_split [of a n] by auto

lemma align_up_lt: "0 < a \<Longrightarrow> align_up a n < n + a"
  using align_up_split [of a n] by auto

lemma align_up_dvd [simp]: "a dvd align_up a n"
  by (simp add: align_up_def)

lemma align_up_id:
  assumes "0 < a" and "a dvd n"
  shows "align_up a n = n"
proof -
  have "align_up a n - n < a" using align_up_lt [OF assms(1), of n] assms(1) by linarith
  moreover have "a dvd align_up a n - n" using assms(2) by (simp add: dvd_diff_nat)
  ultimately have "align_up a n - n = 0" using nat_dvd_not_less by blast
  then show ?thesis using align_up_ge [OF assms(1), of n] by simp
qed

text \<open>Every alignment is a power of two, so a smaller alignment divides a larger one.\<close>

definition pow2 :: "nat \<Rightarrow> bool" where
  "pow2 n \<longleftrightarrow> (\<exists>k. n = 2 ^ k)"

lemma pow2_max_dvd: "pow2 a \<Longrightarrow> pow2 b \<Longrightarrow> a dvd max a b \<and> b dvd max a b \<and> pow2 (max a b)"
  unfolding pow2_def by (metis dvd_refl le_imp_power_dvd linorder_le_cases max_def
      power_increasing_iff one_less_numeral_iff semiring_norm(76))

lemma pow2_numerals: "n \<in> {1, 2, 4, 8, 16} \<Longrightarrow> pow2 n"
  unfolding pow2_def
  by (auto intro: exI [of _ 0] exI [of _ 1] exI [of _ 2] exI [of _ 3] exI [of _ 4])

lemma pow2_pos: "pow2 n \<Longrightarrow> 0 < n"
  by (auto simp: pow2_def)

lemma pow2_align:
  "wf_ctype t \<Longrightarrow> pow2 (alignof t)"
  "wf_field f \<Longrightarrow> pow2 (falign f)"
  "wf_fields fs \<Longrightarrow> pow2 (max_align fs)"
proof (induction t and f and fs rule: alignof_falign_max_align.induct)
  case (1 n) then show ?case by (intro pow2_numerals) simp
next
  case 2 show ?case by (simp add: pow2_numerals)
next
  case (7 name s w) then show ?case by (auto intro!: pow2_numerals)
next
  case 8 show ?case by (simp add: pow2_numerals)
next
  case (9 f fs) then show ?case by (simp add: pow2_max_dvd)
qed (simp_all add: pow2_numerals)

lemmas align_pos = pow2_align [THEN pow2_pos]

lemma falign_dvd_max_align:
  "wf_fields fs \<Longrightarrow> f \<in> set fs \<Longrightarrow> falign f dvd max_align fs"
proof (induction fs)
  case (Cons g gs)
  then have "pow2 (falign g)" "pow2 (max_align gs)" by (simp_all add: pow2_align)
  from pow2_max_dvd [OF this] Cons show ?case by (auto intro: dvd_trans)
qed simp

lemma alignof_dvd_sizeof: "wf_ctype t \<Longrightarrow> alignof t dvd sizeof t"
  by (induction t rule: ctype.induct [where ?P2.0 = "\<lambda>_. True"]) (simp_all add: dvd_mult)

section \<open>Members lie inside their type and do not overlap\<close>

lemma wf_fields_iff: "wf_fields fs \<longleftrightarrow> (\<forall>f \<in> set fs. wf_field f)"
  by (induction fs) auto

lemma fstart_ge: "wf_field f \<Longrightarrow> pos \<le> fstart packed pos f"
proof (cases f)
  case (Member name t)
  assume "wf_field f"
  then have "0 < alignof t" using Member by (simp add: align_pos)
  then have "(pos + 7) div 8 \<le> align_up (if packed then 1 else alignof t) ((pos + 7) div 8)"
    by (auto intro: align_up_ge)
  then show ?thesis using Member by simp
next
  case (Bits name s w)
  assume "wf_field f"
  then have "0 < 8 * s" using Bits by auto
  then show ?thesis using Bits by (auto intro: align_up_ge)
qed

lemma struct_end_ge: "wf_fields fs \<Longrightarrow> pos \<le> struct_end packed pos fs"
proof (induction fs arbitrary: pos)
  case (Cons f fs)
  then have "pos \<le> fstart packed pos f" by (simp add: fstart_ge)
  also have "\<dots> \<le> fstart packed pos f + fbits f" by simp
  also have "\<dots> \<le> struct_end packed (fstart packed pos f + fbits f) fs"
    using Cons by simp
  finally show ?case by simp
qed simp

lemma bits_le_bytes: "0 < a \<Longrightarrow> n \<le> 8 * align_up a ((n + 7) div 8)"
proof -
  assume "0 < a"
  then have "(n + 7) div 8 \<le> align_up a ((n + 7) div 8)" by (rule align_up_ge)
  then show ?thesis by linarith
qed

text \<open>The span of a member (from its first bit to its last) is inside the enclosing object.\<close>

lemma member_inside:
  "wf_ctype t \<Longrightarrow> member t x = Some (off, g) \<Longrightarrow> off + fbits g \<le> 8 * sizeof t"
  "wf_fields fs \<Longrightarrow> member_in packed pos fs x = Some (off, g) \<Longrightarrow>
     pos \<le> off \<and> off + fbits g \<le> struct_end packed pos fs"
  "wf_field f \<Longrightarrow> member_of f x = Some (off, g) \<Longrightarrow> off + fbits g \<le> fbits f"
  "wf_fields fs \<Longrightarrow> member_un fs x = Some (off, g) \<Longrightarrow> off + fbits g \<le> union_end fs"
proof (induction t x and packed pos fs x and f x and fs x arbitrary: off g and off g and off g and off g
    rule: member_member_in_member_of_member_un.induct)
  case (1 packed fs x)
  then have "off + fbits g \<le> struct_end packed 0 fs" by simp
  also have "\<dots> \<le> 8 * sizeof (CStruct packed fs)"
    using 1 by (simp add: bits_le_bytes align_pos)
  finally show ?case .
next
  case (2 packed fs x)
  then have "off + fbits g \<le> union_end fs" by simp
  also have "\<dots> \<le> 8 * sizeof (CUnion packed fs)"
    using 2 by (simp add: bits_le_bytes align_pos)
  finally show ?case .
next
  case (9 packed pos f fs x)
  have start: "pos \<le> fstart packed pos f" using 9 by (simp add: fstart_ge)
  show ?case
  proof (cases "member_of f x")
    case None
    then show ?thesis using 9 start by fastforce
  next
    case (Some r)
    then obtain o' g' where r: "member_of f x = Some (o', g')" by (cases r) simp
    then have "o' + fbits g' \<le> fbits f" using 9 by auto
    moreover have "fstart packed pos f + fbits f \<le> struct_end packed pos (f # fs)"
      using 9 by (simp add: struct_end_ge)
    ultimately show ?thesis using 9 r start by auto
  qed
next
  case (11 f fs x)
  then show ?case by (fastforce split: option.splits)
qed (auto split: if_splits)

text \<open>Two different members of a struct occupy disjoint bit ranges, in declaration order.\<close>

fun positions :: "bool \<Rightarrow> nat \<Rightarrow> cfield list \<Rightarrow> (nat \<times> nat) list" where
  "positions packed pos [] = []"
| "positions packed pos (f # fs) =
     (fstart packed pos f, fstart packed pos f + fbits f)
       # positions packed (fstart packed pos f + fbits f) fs"

lemma positions_ge:
  "wf_fields fs \<Longrightarrow> (a, b) \<in> set (positions packed pos fs) \<Longrightarrow> pos \<le> a \<and> a \<le> b"
proof (induction fs arbitrary: pos)
  case (Cons f fs)
  have "pos \<le> fstart packed pos f" using Cons by (simp add: fstart_ge)
  then show ?case using Cons by fastforce
qed simp

lemma positions_disjoint:
  "wf_fields fs \<Longrightarrow> sorted_wrt (\<lambda>p q. snd p \<le> fst q) (positions packed pos fs)"
proof (induction fs arbitrary: pos)
  case (Cons f fs)
  then show ?case using positions_ge by fastforce
qed simp

section \<open>Evaluation\<close>

text \<open>
  On a concrete type the layout functions are evaluated by rewriting from the outside in: the
  congruence rules keep the simplifier from normalising the member list of a struct again at
  every member.
\<close>

lemma align_up_eval [layout_simps]:
  "align_up 1 n = n"
  "align_up (Suc 0) n = n"
  "align_up (numeral k) 0 = 0"
  "align_up (numeral k) (numeral m) =
     (let r = numeral m mod numeral k in if r = 0 then numeral m else numeral m + (numeral k - r))"
  "align_up (numeral k) 1 = (let r = 1 mod numeral k in if r = 0 then 1 else 1 + (numeral k - r))"
proof -
  have aux: "align_up a n = (let r = n mod a in if r = 0 then n else n + (a - r))" if "0 < a" for a n
  proof (cases "n mod a = 0")
    case True
    then show ?thesis using that by (simp add: align_up_id dvd_eq_mod_eq_0)
  next
    case False
    define q where "q = n div a"
    define r where "r = n mod a"
    have n: "n = q * a + r" "r < a" "0 < r"
      using that False by (simp_all add: q_def r_def)
    have "n + a - 1 = (q + 1) * a + (r - 1)" using n by simp
    moreover have "((q + 1) * a + (r - 1)) div a = q + 1"
      using n by (subst div_mult_self3) auto
    ultimately have "align_up a n = (q + 1) * a" by (simp add: align_up_def)
    also have "\<dots> = n + (a - r)" using n by (simp add: algebra_simps)
    finally show ?thesis using False by (simp add: r_def Let_def)
  qed
  show "align_up 1 n = n" "align_up (Suc 0) n = n" "align_up (numeral k) 0 = 0" by (simp_all add: aux)
  show "align_up (numeral k) (numeral m) =
     (let r = numeral m mod numeral k in if r = 0 then numeral m else numeral m + (numeral k - r))"
    and "align_up (numeral k) 1 =
     (let r = 1 mod numeral k in if r = 0 then 1 else 1 + (numeral k - r))"
    by (rule aux, simp)+
qed

lemma max_one_numeral [layout_simps]:
  "max (numeral n) (Suc 0) = (numeral n :: nat)" "max (Suc 0) (numeral n) = (numeral n :: nat)"
  by (simp_all add: max_def Suc_leI not_le le_Suc_eq)

lemma align_up_two [layout_simps]: "align_up (Suc (Suc 0)) n = align_up 2 n"
  by (simp add: numeral_2_eq_2)

lemma layout_congs:
  "pos = pos' \<Longrightarrow> struct_end p pos fs = struct_end p pos' fs"
  "union_end fs = union_end fs"
  "max_align fs = max_align fs"
  "pos = pos' \<Longrightarrow> member_in p pos fs x = member_in p pos' fs x"
  "member_un fs x = member_un fs x"
  "alignof t = alignof t"
  "sizeof t = sizeof t"
  "fbits f = fbits f"
  "falign f = falign f"
  "pos = pos' \<Longrightarrow> fstart p pos f = fstart p pos' f"
  "member_of f x = member_of f x"
  "member t x = member t x"
  "member_path t xs = member_path t xs"
  by simp_all

end
