(* ===== verification/VmlinuxAmd64.thy ===== *)
theory VmlinuxAmd64
  imports CLayout
begin

text \<open>
  The kernel types the probes read, transcribed from
  \<^verbatim>\<open>src/bpf/headers/amd64/vmlinux.h\<close> member by member: integers by their size, pointers
  to objects and functions as \<open>CPtr\<close>, enumerations as four-byte integers, and types used by value
  by their own definition. \<^verbatim>\<open>struct net\<close> and \<^verbatim>\<open>struct net_device\<close> are
  transcribed up to the last member a probe reads (\<open>ns\<close> and \<open>nd_net\<close>).
\<close>

section \<open>Types\<close>

definition amd64_rb_node :: ctype where
  "amd64_rb_node = CStruct False [
     Member ''__rb_parent_color'' (CInt 8),
     Member ''rb_right'' CPtr,
     Member ''rb_left'' CPtr]"

lemmas amd64_rb_node_member [layout_simps] = fun_cong [OF arg_cong [OF amd64_rb_node_def, of member]]

lemma amd64_rb_node_layout [layout_simps]:
  "sizeof amd64_rb_node = 24" "alignof amd64_rb_node = 8"
  unfolding amd64_rb_node_def by (simp_all add: layout_simps cong: layout_congs)

definition amd64_list_head :: ctype where
  "amd64_list_head = CStruct False [
     Member ''next'' CPtr,
     Member ''prev'' CPtr]"

lemmas amd64_list_head_member [layout_simps] = fun_cong [OF arg_cong [OF amd64_list_head_def, of member]]

lemma amd64_list_head_layout [layout_simps]:
  "sizeof amd64_list_head = 16" "alignof amd64_list_head = 8"
  unfolding amd64_list_head_def by (simp_all add: layout_simps cong: layout_congs)

definition amd64_atomic_t :: ctype where
  "amd64_atomic_t = CStruct False [
     Member ''counter'' (CInt 4)]"

lemmas amd64_atomic_t_member [layout_simps] = fun_cong [OF arg_cong [OF amd64_atomic_t_def, of member]]

lemma amd64_atomic_t_layout [layout_simps]:
  "sizeof amd64_atomic_t = 4" "alignof amd64_atomic_t = 4"
  unfolding amd64_atomic_t_def by (simp_all add: layout_simps cong: layout_congs)

definition amd64_refcount_struct :: ctype where
  "amd64_refcount_struct = CStruct False [
     Member ''refs'' amd64_atomic_t]"

lemmas amd64_refcount_struct_member [layout_simps] = fun_cong [OF arg_cong [OF amd64_refcount_struct_def, of member]]

lemma amd64_refcount_struct_layout [layout_simps]:
  "sizeof amd64_refcount_struct = 4" "alignof amd64_refcount_struct = 4"
  unfolding amd64_refcount_struct_def by (simp_all add: layout_simps cong: layout_congs)

definition amd64_sk_buff :: ctype where
  "amd64_sk_buff = CStruct False [
     Member '''' (CUnion False [
       Member '''' (CStruct False [
         Member ''next'' CPtr,
         Member ''prev'' CPtr,
         Member '''' (CUnion False [
           Member ''dev'' CPtr,
           Member ''dev_scratch'' (CInt 8)])]),
       Member ''rbnode'' amd64_rb_node,
       Member ''list'' amd64_list_head]),
     Member '''' (CUnion False [
       Member ''sk'' CPtr,
       Member ''ip_defrag_offset'' (CInt 4)]),
     Member '''' (CUnion False [
       Member ''tstamp'' (CInt 8),
       Member ''skb_mstamp_ns'' (CInt 8)]),
     Member ''cb'' (CArr (CInt 1) 48),
     Member '''' (CUnion False [
       Member '''' (CStruct False [
         Member ''_skb_refdst'' (CInt 8),
         Member ''destructor'' CPtr]),
       Member ''tcp_tsorted_anchor'' amd64_list_head]),
     Member ''_nfct'' (CInt 8),
     Member ''len'' (CInt 4),
     Member ''data_len'' (CInt 4),
     Member ''mac_len'' (CInt 2),
     Member ''hdr_len'' (CInt 2),
     Member ''queue_mapping'' (CInt 2),
     Member ''__cloned_offset'' (CArr (CInt 1) 0),
     Bits ''cloned'' 1 1,
     Bits ''nohdr'' 1 1,
     Bits ''fclone'' 1 2,
     Bits ''peeked'' 1 1,
     Bits ''head_frag'' 1 1,
     Bits ''pfmemalloc'' 1 1,
     Member ''active_extensions'' (CInt 1),
     Member ''headers_start'' (CArr (CInt 4) 0),
     Member ''__pkt_type_offset'' (CArr (CInt 1) 0),
     Bits ''pkt_type'' 1 3,
     Bits ''ignore_df'' 1 1,
     Bits ''nf_trace'' 1 1,
     Bits ''ip_summed'' 1 2,
     Bits ''ooo_okay'' 1 1,
     Bits ''l4_hash'' 1 1,
     Bits ''sw_hash'' 1 1,
     Bits ''wifi_acked_valid'' 1 1,
     Bits ''wifi_acked'' 1 1,
     Bits ''no_fcs'' 1 1,
     Bits ''encapsulation'' 1 1,
     Bits ''encap_hdr_csum'' 1 1,
     Bits ''csum_valid'' 1 1,
     Member ''__pkt_vlan_present_offset'' (CArr (CInt 1) 0),
     Bits ''vlan_present'' 1 1,
     Bits ''csum_complete_sw'' 1 1,
     Bits ''csum_level'' 1 2,
     Bits ''csum_not_inet'' 1 1,
     Bits ''dst_pending_confirm'' 1 1,
     Bits ''ndisc_nodetype'' 1 2,
     Bits ''ipvs_property'' 1 1,
     Bits ''inner_protocol_type'' 1 1,
     Bits ''remcsum_offload'' 1 1,
     Bits ''tc_skip_classify'' 1 1,
     Bits ''tc_at_ingress'' 1 1,
     Bits ''tc_redirected'' 1 1,
     Bits ''tc_from_ingress'' 1 1,
     Member ''tc_index'' (CInt 2),
     Member '''' (CUnion False [
       Member ''csum'' (CInt 4),
       Member '''' (CStruct False [
         Member ''csum_start'' (CInt 2),
         Member ''csum_offset'' (CInt 2)])]),
     Member ''priority'' (CInt 4),
     Member ''skb_iif'' (CInt 4),
     Member ''hash'' (CInt 4),
     Member ''vlan_proto'' (CInt 2),
     Member ''vlan_tci'' (CInt 2),
     Member '''' (CUnion False [
       Member ''napi_id'' (CInt 4),
       Member ''sender_cpu'' (CInt 4)]),
     Member ''secmark'' (CInt 4),
     Member '''' (CUnion False [
       Member ''mark'' (CInt 4),
       Member ''reserved_tailroom'' (CInt 4)]),
     Member '''' (CUnion False [
       Member ''inner_protocol'' (CInt 2),
       Member ''inner_ipproto'' (CInt 1)]),
     Member ''inner_transport_header'' (CInt 2),
     Member ''inner_network_header'' (CInt 2),
     Member ''inner_mac_header'' (CInt 2),
     Member ''protocol'' (CInt 2),
     Member ''transport_header'' (CInt 2),
     Member ''network_header'' (CInt 2),
     Member ''mac_header'' (CInt 2),
     Member ''headers_end'' (CArr (CInt 4) 0),
     Member ''tail'' (CInt 4),
     Member ''end'' (CInt 4),
     Member ''head'' CPtr,
     Member ''data'' CPtr,
     Member ''truesize'' (CInt 4),
     Member ''users'' amd64_refcount_struct,
     Member ''extensions'' CPtr]"

lemmas amd64_sk_buff_member [layout_simps] = fun_cong [OF arg_cong [OF amd64_sk_buff_def, of member]]

lemma amd64_sk_buff_layout [layout_simps]:
  "sizeof amd64_sk_buff = 224" "alignof amd64_sk_buff = 8"
  unfolding amd64_sk_buff_def by (simp_all add: layout_simps cong: layout_congs)

definition amd64_hlist_node :: ctype where
  "amd64_hlist_node = CStruct False [
     Member ''next'' CPtr,
     Member ''pprev'' CPtr]"

lemmas amd64_hlist_node_member [layout_simps] = fun_cong [OF arg_cong [OF amd64_hlist_node_def, of member]]

lemma amd64_hlist_node_layout [layout_simps]:
  "sizeof amd64_hlist_node = 16" "alignof amd64_hlist_node = 8"
  unfolding amd64_hlist_node_def by (simp_all add: layout_simps cong: layout_congs)

definition amd64_possible_net_t :: ctype where
  "amd64_possible_net_t = CStruct False [
     Member ''net'' CPtr]"

lemmas amd64_possible_net_t_member [layout_simps] = fun_cong [OF arg_cong [OF amd64_possible_net_t_def, of member]]

lemma amd64_possible_net_t_layout [layout_simps]:
  "sizeof amd64_possible_net_t = 8" "alignof amd64_possible_net_t = 8"
  unfolding amd64_possible_net_t_def by (simp_all add: layout_simps cong: layout_congs)

definition amd64_in6_addr :: ctype where
  "amd64_in6_addr = CStruct False [
     Member ''in6_u'' (CUnion False [
       Member ''u6_addr8'' (CArr (CInt 1) 16),
       Member ''u6_addr16'' (CArr (CInt 2) 8),
       Member ''u6_addr32'' (CArr (CInt 4) 4)])]"

lemmas amd64_in6_addr_member [layout_simps] = fun_cong [OF arg_cong [OF amd64_in6_addr_def, of member]]

lemma amd64_in6_addr_layout [layout_simps]:
  "sizeof amd64_in6_addr = 16" "alignof amd64_in6_addr = 4"
  unfolding amd64_in6_addr_def by (simp_all add: layout_simps cong: layout_congs)

definition amd64_atomic64_t :: ctype where
  "amd64_atomic64_t = CStruct False [
     Member ''counter'' (CInt 8)]"

lemmas amd64_atomic64_t_member [layout_simps] = fun_cong [OF arg_cong [OF amd64_atomic64_t_def, of member]]

lemma amd64_atomic64_t_layout [layout_simps]:
  "sizeof amd64_atomic64_t = 8" "alignof amd64_atomic64_t = 8"
  unfolding amd64_atomic64_t_def by (simp_all add: layout_simps cong: layout_congs)

definition amd64_hlist_nulls_node :: ctype where
  "amd64_hlist_nulls_node = CStruct False [
     Member ''next'' CPtr,
     Member ''pprev'' CPtr]"

lemmas amd64_hlist_nulls_node_member [layout_simps] = fun_cong [OF arg_cong [OF amd64_hlist_nulls_node_def, of member]]

lemma amd64_hlist_nulls_node_layout [layout_simps]:
  "sizeof amd64_hlist_nulls_node = 16" "alignof amd64_hlist_nulls_node = 8"
  unfolding amd64_hlist_nulls_node_def by (simp_all add: layout_simps cong: layout_congs)

definition amd64_sock_common :: ctype where
  "amd64_sock_common = CStruct False [
     Member '''' (CUnion False [
       Member ''skc_addrpair'' (CInt 8),
       Member '''' (CStruct False [
         Member ''skc_daddr'' (CInt 4),
         Member ''skc_rcv_saddr'' (CInt 4)])]),
     Member '''' (CUnion False [
       Member ''skc_hash'' (CInt 4),
       Member ''skc_u16hashes'' (CArr (CInt 2) 2)]),
     Member '''' (CUnion False [
       Member ''skc_portpair'' (CInt 4),
       Member '''' (CStruct False [
         Member ''skc_dport'' (CInt 2),
         Member ''skc_num'' (CInt 2)])]),
     Member ''skc_family'' (CInt 2),
     Member ''skc_state'' (CInt 1),
     Bits ''skc_reuse'' 1 4,
     Bits ''skc_reuseport'' 1 1,
     Bits ''skc_ipv6only'' 1 1,
     Bits ''skc_net_refcnt'' 1 1,
     Member ''skc_bound_dev_if'' (CInt 4),
     Member '''' (CUnion False [
       Member ''skc_bind_node'' amd64_hlist_node,
       Member ''skc_portaddr_node'' amd64_hlist_node]),
     Member ''skc_prot'' CPtr,
     Member ''skc_net'' amd64_possible_net_t,
     Member ''skc_v6_daddr'' amd64_in6_addr,
     Member ''skc_v6_rcv_saddr'' amd64_in6_addr,
     Member ''skc_cookie'' amd64_atomic64_t,
     Member '''' (CUnion False [
       Member ''skc_flags'' (CInt 8),
       Member ''skc_listener'' CPtr,
       Member ''skc_tw_dr'' CPtr]),
     Member ''skc_dontcopy_begin'' (CArr (CInt 4) 0),
     Member '''' (CUnion False [
       Member ''skc_node'' amd64_hlist_node,
       Member ''skc_nulls_node'' amd64_hlist_nulls_node]),
     Member ''skc_tx_queue_mapping'' (CInt 2),
     Member ''skc_rx_queue_mapping'' (CInt 2),
     Member '''' (CUnion False [
       Member ''skc_incoming_cpu'' (CInt 4),
       Member ''skc_rcv_wnd'' (CInt 4),
       Member ''skc_tw_rcv_nxt'' (CInt 4)]),
     Member ''skc_refcnt'' amd64_refcount_struct,
     Member ''skc_dontcopy_end'' (CArr (CInt 4) 0),
     Member '''' (CUnion False [
       Member ''skc_rxhash'' (CInt 4),
       Member ''skc_window_clamp'' (CInt 4),
       Member ''skc_tw_snd_nxt'' (CInt 4)])]"

lemmas amd64_sock_common_member [layout_simps] = fun_cong [OF arg_cong [OF amd64_sock_common_def, of member]]

lemma amd64_sock_common_layout [layout_simps]:
  "sizeof amd64_sock_common = 136" "alignof amd64_sock_common = 8"
  unfolding amd64_sock_common_def by (simp_all add: layout_simps cong: layout_congs)

definition amd64_qspinlock :: ctype where
  "amd64_qspinlock = CStruct False [
     Member '''' (CUnion False [
       Member ''val'' amd64_atomic_t,
       Member '''' (CStruct False [
         Member ''locked'' (CInt 1),
         Member ''pending'' (CInt 1)]),
       Member '''' (CStruct False [
         Member ''locked_pending'' (CInt 2),
         Member ''tail'' (CInt 2)])])]"

lemmas amd64_qspinlock_member [layout_simps] = fun_cong [OF arg_cong [OF amd64_qspinlock_def, of member]]

lemma amd64_qspinlock_layout [layout_simps]:
  "sizeof amd64_qspinlock = 4" "alignof amd64_qspinlock = 4"
  unfolding amd64_qspinlock_def by (simp_all add: layout_simps cong: layout_congs)

definition amd64_raw_spinlock :: ctype where
  "amd64_raw_spinlock = CStruct False [
     Member ''raw_lock'' amd64_qspinlock]"

lemmas amd64_raw_spinlock_member [layout_simps] = fun_cong [OF arg_cong [OF amd64_raw_spinlock_def, of member]]

lemma amd64_raw_spinlock_layout [layout_simps]:
  "sizeof amd64_raw_spinlock = 4" "alignof amd64_raw_spinlock = 4"
  unfolding amd64_raw_spinlock_def by (simp_all add: layout_simps cong: layout_congs)

definition amd64_spinlock :: ctype where
  "amd64_spinlock = CStruct False [
     Member '''' (CUnion False [
       Member ''rlock'' amd64_raw_spinlock])]"

lemmas amd64_spinlock_member [layout_simps] = fun_cong [OF arg_cong [OF amd64_spinlock_def, of member]]

lemma amd64_spinlock_layout [layout_simps]:
  "sizeof amd64_spinlock = 4" "alignof amd64_spinlock = 4"
  unfolding amd64_spinlock_def by (simp_all add: layout_simps cong: layout_congs)

definition amd64_wait_queue_head :: ctype where
  "amd64_wait_queue_head = CStruct False [
     Member ''lock'' amd64_spinlock,
     Member ''head'' amd64_list_head]"

lemmas amd64_wait_queue_head_member [layout_simps] = fun_cong [OF arg_cong [OF amd64_wait_queue_head_def, of member]]

lemma amd64_wait_queue_head_layout [layout_simps]:
  "sizeof amd64_wait_queue_head = 24" "alignof amd64_wait_queue_head = 8"
  unfolding amd64_wait_queue_head_def by (simp_all add: layout_simps cong: layout_congs)

definition amd64_socket_lock_t :: ctype where
  "amd64_socket_lock_t = CStruct False [
     Member ''slock'' amd64_spinlock,
     Member ''owned'' (CInt 4),
     Member ''wq'' amd64_wait_queue_head]"

lemmas amd64_socket_lock_t_member [layout_simps] = fun_cong [OF arg_cong [OF amd64_socket_lock_t_def, of member]]

lemma amd64_socket_lock_t_layout [layout_simps]:
  "sizeof amd64_socket_lock_t = 32" "alignof amd64_socket_lock_t = 8"
  unfolding amd64_socket_lock_t_def by (simp_all add: layout_simps cong: layout_congs)

definition amd64_sk_buff_head :: ctype where
  "amd64_sk_buff_head = CStruct False [
     Member ''next'' CPtr,
     Member ''prev'' CPtr,
     Member ''qlen'' (CInt 4),
     Member ''lock'' amd64_spinlock]"

lemmas amd64_sk_buff_head_member [layout_simps] = fun_cong [OF arg_cong [OF amd64_sk_buff_head_def, of member]]

lemma amd64_sk_buff_head_layout [layout_simps]:
  "sizeof amd64_sk_buff_head = 24" "alignof amd64_sk_buff_head = 8"
  unfolding amd64_sk_buff_head_def by (simp_all add: layout_simps cong: layout_congs)

definition amd64_rb_root :: ctype where
  "amd64_rb_root = CStruct False [
     Member ''rb_node'' CPtr]"

lemmas amd64_rb_root_member [layout_simps] = fun_cong [OF arg_cong [OF amd64_rb_root_def, of member]]

lemma amd64_rb_root_layout [layout_simps]:
  "sizeof amd64_rb_root = 8" "alignof amd64_rb_root = 8"
  unfolding amd64_rb_root_def by (simp_all add: layout_simps cong: layout_congs)

definition amd64_timer_list :: ctype where
  "amd64_timer_list = CStruct False [
     Member ''entry'' amd64_hlist_node,
     Member ''expires'' (CInt 8),
     Member ''function'' CPtr,
     Member ''flags'' (CInt 4)]"

lemmas amd64_timer_list_member [layout_simps] = fun_cong [OF arg_cong [OF amd64_timer_list_def, of member]]

lemma amd64_timer_list_layout [layout_simps]:
  "sizeof amd64_timer_list = 40" "alignof amd64_timer_list = 8"
  unfolding amd64_timer_list_def by (simp_all add: layout_simps cong: layout_congs)

definition amd64_page_frag :: ctype where
  "amd64_page_frag = CStruct False [
     Member ''page'' CPtr,
     Member ''offset'' (CInt 4),
     Member ''size'' (CInt 4)]"

lemmas amd64_page_frag_member [layout_simps] = fun_cong [OF arg_cong [OF amd64_page_frag_def, of member]]

lemma amd64_page_frag_layout [layout_simps]:
  "sizeof amd64_page_frag = 16" "alignof amd64_page_frag = 8"
  unfolding amd64_page_frag_def by (simp_all add: layout_simps cong: layout_congs)

definition amd64_qrwlock :: ctype where
  "amd64_qrwlock = CStruct False [
     Member '''' (CUnion False [
       Member ''cnts'' amd64_atomic_t,
       Member '''' (CStruct False [
         Member ''wlocked'' (CInt 1),
         Member ''__lstate'' (CArr (CInt 1) 3)])]),
     Member ''wait_lock'' amd64_qspinlock]"

lemmas amd64_qrwlock_member [layout_simps] = fun_cong [OF arg_cong [OF amd64_qrwlock_def, of member]]

lemma amd64_qrwlock_layout [layout_simps]:
  "sizeof amd64_qrwlock = 8" "alignof amd64_qrwlock = 4"
  unfolding amd64_qrwlock_def by (simp_all add: layout_simps cong: layout_congs)

definition amd64_rwlock_t :: ctype where
  "amd64_rwlock_t = CStruct False [
     Member ''raw_lock'' amd64_qrwlock]"

lemmas amd64_rwlock_t_member [layout_simps] = fun_cong [OF arg_cong [OF amd64_rwlock_t_def, of member]]

lemma amd64_rwlock_t_layout [layout_simps]:
  "sizeof amd64_rwlock_t = 8" "alignof amd64_rwlock_t = 4"
  unfolding amd64_rwlock_t_def by (simp_all add: layout_simps cong: layout_congs)

definition amd64_kuid_t :: ctype where
  "amd64_kuid_t = CStruct False [
     Member ''val'' (CInt 4)]"

lemmas amd64_kuid_t_member [layout_simps] = fun_cong [OF arg_cong [OF amd64_kuid_t_def, of member]]

lemma amd64_kuid_t_layout [layout_simps]:
  "sizeof amd64_kuid_t = 4" "alignof amd64_kuid_t = 4"
  unfolding amd64_kuid_t_def by (simp_all add: layout_simps cong: layout_congs)

definition amd64_sock_cgroup_data :: ctype where
  "amd64_sock_cgroup_data = CStruct False [
     Member '''' (CUnion False [
       Member '''' (CStruct False [
         Member ''is_data'' (CInt 1),
         Member ''padding'' (CInt 1),
         Member ''prioidx'' (CInt 2),
         Member ''classid'' (CInt 4)]),
       Member ''val'' (CInt 8)])]"

lemmas amd64_sock_cgroup_data_member [layout_simps] = fun_cong [OF arg_cong [OF amd64_sock_cgroup_data_def, of member]]

lemma amd64_sock_cgroup_data_layout [layout_simps]:
  "sizeof amd64_sock_cgroup_data = 8" "alignof amd64_sock_cgroup_data = 8"
  unfolding amd64_sock_cgroup_data_def by (simp_all add: layout_simps cong: layout_congs)

definition amd64_callback_head :: ctype where
  "amd64_callback_head = CStruct False [
     Member ''next'' CPtr,
     Member ''func'' CPtr]"

lemmas amd64_callback_head_member [layout_simps] = fun_cong [OF arg_cong [OF amd64_callback_head_def, of member]]

lemma amd64_callback_head_layout [layout_simps]:
  "sizeof amd64_callback_head = 16" "alignof amd64_callback_head = 8"
  unfolding amd64_callback_head_def by (simp_all add: layout_simps cong: layout_congs)

definition amd64_sock :: ctype where
  "amd64_sock = CStruct False [
     Member ''__sk_common'' amd64_sock_common,
     Member ''sk_lock'' amd64_socket_lock_t,
     Member ''sk_drops'' amd64_atomic_t,
     Member ''sk_rcvlowat'' (CInt 4),
     Member ''sk_error_queue'' amd64_sk_buff_head,
     Member ''sk_rx_skb_cache'' CPtr,
     Member ''sk_receive_queue'' amd64_sk_buff_head,
     Member ''sk_backlog'' (CStruct False [
       Member ''rmem_alloc'' amd64_atomic_t,
       Member ''len'' (CInt 4),
       Member ''head'' CPtr,
       Member ''tail'' CPtr]),
     Member ''sk_forward_alloc'' (CInt 4),
     Member ''sk_ll_usec'' (CInt 4),
     Member ''sk_napi_id'' (CInt 4),
     Member ''sk_rcvbuf'' (CInt 4),
     Member ''sk_filter'' CPtr,
     Member '''' (CUnion False [
       Member ''sk_wq'' CPtr,
       Member ''sk_wq_raw'' CPtr]),
     Member ''sk_policy'' (CArr CPtr 2),
     Member ''sk_rx_dst'' CPtr,
     Member ''sk_dst_cache'' CPtr,
     Member ''sk_omem_alloc'' amd64_atomic_t,
     Member ''sk_sndbuf'' (CInt 4),
     Member ''sk_wmem_queued'' (CInt 4),
     Member ''sk_wmem_alloc'' amd64_refcount_struct,
     Member ''sk_tsq_flags'' (CInt 8),
     Member '''' (CUnion False [
       Member ''sk_send_head'' CPtr,
       Member ''tcp_rtx_queue'' amd64_rb_root]),
     Member ''sk_tx_skb_cache'' CPtr,
     Member ''sk_write_queue'' amd64_sk_buff_head,
     Member ''sk_peek_off'' (CInt 4),
     Member ''sk_write_pending'' (CInt 4),
     Member ''sk_dst_pending_confirm'' (CInt 4),
     Member ''sk_pacing_status'' (CInt 4),
     Member ''sk_sndtimeo'' (CInt 8),
     Member ''sk_timer'' amd64_timer_list,
     Member ''sk_priority'' (CInt 4),
     Member ''sk_mark'' (CInt 4),
     Member ''sk_pacing_rate'' (CInt 8),
     Member ''sk_max_pacing_rate'' (CInt 8),
     Member ''sk_frag'' amd64_page_frag,
     Member ''sk_route_caps'' (CInt 8),
     Member ''sk_route_nocaps'' (CInt 8),
     Member ''sk_route_forced_caps'' (CInt 8),
     Member ''sk_gso_type'' (CInt 4),
     Member ''sk_gso_max_size'' (CInt 4),
     Member ''sk_allocation'' (CInt 4),
     Member ''sk_txhash'' (CInt 4),
     Member ''__sk_flags_offset'' (CArr (CInt 4) 0),
     Bits ''sk_padding'' 4 1,
     Bits ''sk_kern_sock'' 4 1,
     Bits ''sk_no_check_tx'' 4 1,
     Bits ''sk_no_check_rx'' 4 1,
     Bits ''sk_userlocks'' 4 4,
     Bits ''sk_protocol'' 4 8,
     Bits ''sk_type'' 4 16,
     Member ''sk_gso_max_segs'' (CInt 2),
     Member ''sk_pacing_shift'' (CInt 1),
     Member ''sk_lingertime'' (CInt 8),
     Member ''sk_prot_creator'' CPtr,
     Member ''sk_callback_lock'' amd64_rwlock_t,
     Member ''sk_err'' (CInt 4),
     Member ''sk_err_soft'' (CInt 4),
     Member ''sk_ack_backlog'' (CInt 4),
     Member ''sk_max_ack_backlog'' (CInt 4),
     Member ''sk_uid'' amd64_kuid_t,
     Member ''sk_peer_pid'' CPtr,
     Member ''sk_peer_cred'' CPtr,
     Member ''sk_rcvtimeo'' (CInt 8),
     Member ''sk_stamp'' (CInt 8),
     Member ''sk_tsflags'' (CInt 2),
     Member ''sk_shutdown'' (CInt 1),
     Member ''sk_tskey'' (CInt 4),
     Member ''sk_zckey'' amd64_atomic_t,
     Member ''sk_clockid'' (CInt 1),
     Bits ''sk_txtime_deadline_mode'' 1 1,
     Bits ''sk_txtime_report_errors'' 1 1,
     Bits ''sk_txtime_unused'' 1 6,
     Member ''sk_socket'' CPtr,
     Member ''sk_user_data'' CPtr,
     Member ''sk_security'' CPtr,
     Member ''sk_cgrp_data'' amd64_sock_cgroup_data,
     Member ''sk_memcg'' CPtr,
     Member ''sk_state_change'' CPtr,
     Member ''sk_data_ready'' CPtr,
     Member ''sk_write_space'' CPtr,
     Member ''sk_error_report'' CPtr,
     Member ''sk_backlog_rcv'' CPtr,
     Member ''sk_destruct'' CPtr,
     Member ''sk_reuseport_cb'' CPtr,
     Member ''sk_bpf_storage'' CPtr,
     Member ''sk_rcu'' amd64_callback_head]"

lemmas amd64_sock_member [layout_simps] = fun_cong [OF arg_cong [OF amd64_sock_def, of member]]

lemma amd64_sock_layout [layout_simps]:
  "sizeof amd64_sock = 752" "alignof amd64_sock = 8"
  unfolding amd64_sock_def by (simp_all add: layout_simps cong: layout_congs)

definition amd64_llist_node :: ctype where
  "amd64_llist_node = CStruct False [
     Member ''next'' CPtr]"

lemmas amd64_llist_node_member [layout_simps] = fun_cong [OF arg_cong [OF amd64_llist_node_def, of member]]

lemma amd64_llist_node_layout [layout_simps]:
  "sizeof amd64_llist_node = 8" "alignof amd64_llist_node = 8"
  unfolding amd64_llist_node_def by (simp_all add: layout_simps cong: layout_congs)

definition amd64_xarray :: ctype where
  "amd64_xarray = CStruct False [
     Member ''xa_lock'' amd64_spinlock,
     Member ''xa_flags'' (CInt 4),
     Member ''xa_head'' CPtr]"

lemmas amd64_xarray_member [layout_simps] = fun_cong [OF arg_cong [OF amd64_xarray_def, of member]]

lemma amd64_xarray_layout [layout_simps]:
  "sizeof amd64_xarray = 16" "alignof amd64_xarray = 8"
  unfolding amd64_xarray_def by (simp_all add: layout_simps cong: layout_congs)

definition amd64_idr :: ctype where
  "amd64_idr = CStruct False [
     Member ''idr_rt'' amd64_xarray,
     Member ''idr_base'' (CInt 4),
     Member ''idr_next'' (CInt 4)]"

lemmas amd64_idr_member [layout_simps] = fun_cong [OF arg_cong [OF amd64_idr_def, of member]]

lemma amd64_idr_layout [layout_simps]:
  "sizeof amd64_idr = 24" "alignof amd64_idr = 8"
  unfolding amd64_idr_def by (simp_all add: layout_simps cong: layout_congs)

definition amd64_ns_common :: ctype where
  "amd64_ns_common = CStruct False [
     Member ''stashed'' amd64_atomic64_t,
     Member ''ops'' CPtr,
     Member ''inum'' (CInt 4)]"

lemmas amd64_ns_common_member [layout_simps] = fun_cong [OF arg_cong [OF amd64_ns_common_def, of member]]

lemma amd64_ns_common_layout [layout_simps]:
  "sizeof amd64_ns_common = 24" "alignof amd64_ns_common = 8"
  unfolding amd64_ns_common_def by (simp_all add: layout_simps cong: layout_congs)

definition amd64_net :: ctype where
  "amd64_net = CStruct False [
     Member ''passive'' amd64_refcount_struct,
     Member ''count'' amd64_refcount_struct,
     Member ''rules_mod_lock'' amd64_spinlock,
     Member ''dev_unreg_count'' (CInt 4),
     Member ''dev_base_seq'' (CInt 4),
     Member ''ifindex'' (CInt 4),
     Member ''nsid_lock'' amd64_spinlock,
     Member ''fnhe_genid'' amd64_atomic_t,
     Member ''list'' amd64_list_head,
     Member ''exit_list'' amd64_list_head,
     Member ''cleanup_list'' amd64_llist_node,
     Member ''key_domain'' CPtr,
     Member ''user_ns'' CPtr,
     Member ''ucounts'' CPtr,
     Member ''netns_ids'' amd64_idr,
     Member ''ns'' amd64_ns_common]"

lemmas amd64_net_member [layout_simps] = fun_cong [OF arg_cong [OF amd64_net_def, of member]]

definition amd64_net_device_stats :: ctype where
  "amd64_net_device_stats = CStruct False [
     Member ''rx_packets'' (CInt 8),
     Member ''tx_packets'' (CInt 8),
     Member ''rx_bytes'' (CInt 8),
     Member ''tx_bytes'' (CInt 8),
     Member ''rx_errors'' (CInt 8),
     Member ''tx_errors'' (CInt 8),
     Member ''rx_dropped'' (CInt 8),
     Member ''tx_dropped'' (CInt 8),
     Member ''multicast'' (CInt 8),
     Member ''collisions'' (CInt 8),
     Member ''rx_length_errors'' (CInt 8),
     Member ''rx_over_errors'' (CInt 8),
     Member ''rx_crc_errors'' (CInt 8),
     Member ''rx_frame_errors'' (CInt 8),
     Member ''rx_fifo_errors'' (CInt 8),
     Member ''rx_missed_errors'' (CInt 8),
     Member ''tx_aborted_errors'' (CInt 8),
     Member ''tx_carrier_errors'' (CInt 8),
     Member ''tx_fifo_errors'' (CInt 8),
     Member ''tx_heartbeat_errors'' (CInt 8),
     Member ''tx_window_errors'' (CInt 8),
     Member ''rx_compressed'' (CInt 8),
     Member ''tx_compressed'' (CInt 8)]"

lemmas amd64_net_device_stats_member [layout_simps] = fun_cong [OF arg_cong [OF amd64_net_device_stats_def, of member]]

lemma amd64_net_device_stats_layout [layout_simps]:
  "sizeof amd64_net_device_stats = 184" "alignof amd64_net_device_stats = 8"
  unfolding amd64_net_device_stats_def by (simp_all add: layout_simps cong: layout_congs)

definition amd64_netdev_hw_addr_list :: ctype where
  "amd64_netdev_hw_addr_list = CStruct False [
     Member ''list'' amd64_list_head,
     Member ''count'' (CInt 4)]"

lemmas amd64_netdev_hw_addr_list_member [layout_simps] = fun_cong [OF arg_cong [OF amd64_netdev_hw_addr_list_def, of member]]

lemma amd64_netdev_hw_addr_list_layout [layout_simps]:
  "sizeof amd64_netdev_hw_addr_list = 24" "alignof amd64_netdev_hw_addr_list = 8"
  unfolding amd64_netdev_hw_addr_list_def by (simp_all add: layout_simps cong: layout_congs)

definition amd64_hlist_head :: ctype where
  "amd64_hlist_head = CStruct False [
     Member ''first'' CPtr]"

lemmas amd64_hlist_head_member [layout_simps] = fun_cong [OF arg_cong [OF amd64_hlist_head_def, of member]]

lemma amd64_hlist_head_layout [layout_simps]:
  "sizeof amd64_hlist_head = 8" "alignof amd64_hlist_head = 8"
  unfolding amd64_hlist_head_def by (simp_all add: layout_simps cong: layout_congs)

definition amd64_net_device :: ctype where
  "amd64_net_device = CStruct False [
     Member ''name'' (CArr (CInt 1) 16),
     Member ''name_node'' CPtr,
     Member ''ifalias'' CPtr,
     Member ''mem_end'' (CInt 8),
     Member ''mem_start'' (CInt 8),
     Member ''base_addr'' (CInt 8),
     Member ''irq'' (CInt 4),
     Member ''state'' (CInt 8),
     Member ''dev_list'' amd64_list_head,
     Member ''napi_list'' amd64_list_head,
     Member ''unreg_list'' amd64_list_head,
     Member ''close_list'' amd64_list_head,
     Member ''ptype_all'' amd64_list_head,
     Member ''ptype_specific'' amd64_list_head,
     Member ''adj_list'' (CStruct False [
       Member ''upper'' amd64_list_head,
       Member ''lower'' amd64_list_head]),
     Member ''features'' (CInt 8),
     Member ''hw_features'' (CInt 8),
     Member ''wanted_features'' (CInt 8),
     Member ''vlan_features'' (CInt 8),
     Member ''hw_enc_features'' (CInt 8),
     Member ''mpls_features'' (CInt 8),
     Member ''gso_partial_features'' (CInt 8),
     Member ''ifindex'' (CInt 4),
     Member ''group'' (CInt 4),
     Member ''stats'' amd64_net_device_stats,
     Member ''rx_dropped'' amd64_atomic64_t,
     Member ''tx_dropped'' amd64_atomic64_t,
     Member ''rx_nohandler'' amd64_atomic64_t,
     Member ''carrier_up_count'' amd64_atomic_t,
     Member ''carrier_down_count'' amd64_atomic_t,
     Member ''netdev_ops'' CPtr,
     Member ''ethtool_ops'' CPtr,
     Member ''ndisc_ops'' CPtr,
     Member ''header_ops'' CPtr,
     Member ''flags'' (CInt 4),
     Member ''priv_flags'' (CInt 4),
     Member ''gflags'' (CInt 2),
     Member ''padded'' (CInt 2),
     Member ''operstate'' (CInt 1),
     Member ''link_mode'' (CInt 1),
     Member ''if_port'' (CInt 1),
     Member ''dma'' (CInt 1),
     Member ''mtu'' (CInt 4),
     Member ''min_mtu'' (CInt 4),
     Member ''max_mtu'' (CInt 4),
     Member ''type'' (CInt 2),
     Member ''hard_header_len'' (CInt 2),
     Member ''min_header_len'' (CInt 1),
     Member ''needed_headroom'' (CInt 2),
     Member ''needed_tailroom'' (CInt 2),
     Member ''perm_addr'' (CArr (CInt 1) 32),
     Member ''addr_assign_type'' (CInt 1),
     Member ''addr_len'' (CInt 1),
     Member ''upper_level'' (CInt 1),
     Member ''lower_level'' (CInt 1),
     Member ''neigh_priv_len'' (CInt 2),
     Member ''dev_id'' (CInt 2),
     Member ''dev_port'' (CInt 2),
     Member ''addr_list_lock'' amd64_spinlock,
     Member ''name_assign_type'' (CInt 1),
     Member ''uc_promisc'' (CInt 1),
     Member ''uc'' amd64_netdev_hw_addr_list,
     Member ''mc'' amd64_netdev_hw_addr_list,
     Member ''dev_addrs'' amd64_netdev_hw_addr_list,
     Member ''queues_kset'' CPtr,
     Member ''promiscuity'' (CInt 4),
     Member ''allmulti'' (CInt 4),
     Member ''ip_ptr'' CPtr,
     Member ''ip6_ptr'' CPtr,
     Member ''ieee80211_ptr'' CPtr,
     Member ''ieee802154_ptr'' CPtr,
     Member ''dev_addr'' CPtr,
     Member ''_rx'' CPtr,
     Member ''num_rx_queues'' (CInt 4),
     Member ''real_num_rx_queues'' (CInt 4),
     Member ''xdp_prog'' CPtr,
     Member ''gro_flush_timeout'' (CInt 8),
     Member ''rx_handler'' CPtr,
     Member ''rx_handler_data'' CPtr,
     Member ''miniq_ingress'' CPtr,
     Member ''ingress_queue'' CPtr,
     Member ''nf_hooks_ingress'' CPtr,
     Member ''broadcast'' (CArr (CInt 1) 32),
     Member ''rx_cpu_rmap'' CPtr,
     Member ''index_hlist'' amd64_hlist_node,
     Bits '''' 8 64,
     Bits '''' 8 64,
     Bits '''' 8 64,
     Bits '''' 8 64,
     Bits '''' 8 64,
     Member ''_tx'' CPtr,
     Member ''num_tx_queues'' (CInt 4),
     Member ''real_num_tx_queues'' (CInt 4),
     Member ''qdisc'' CPtr,
     Member ''qdisc_hash'' (CArr amd64_hlist_head 16),
     Member ''tx_queue_len'' (CInt 4),
     Member ''tx_global_lock'' amd64_spinlock,
     Member ''watchdog_timeo'' (CInt 4),
     Member ''xps_cpus_map'' CPtr,
     Member ''xps_rxqs_map'' CPtr,
     Member ''miniq_egress'' CPtr,
     Member ''watchdog_timer'' amd64_timer_list,
     Member ''pcpu_refcnt'' CPtr,
     Member ''todo_list'' amd64_list_head,
     Member ''link_watch_list'' amd64_list_head,
     Bits ''reg_state'' 4 8,
     Member ''dismantle'' (CInt 1),
     Bits ''rtnl_link_state'' 4 16,
     Member ''needs_free_netdev'' (CInt 1),
     Member ''priv_destructor'' CPtr,
     Member ''npinfo'' CPtr,
     Member ''nd_net'' amd64_possible_net_t]"

lemmas amd64_net_device_member [layout_simps] = fun_cong [OF arg_cong [OF amd64_net_device_def, of member]]

definition amd64_iphdr :: ctype where
  "amd64_iphdr = CStruct False [
     Bits ''ihl'' 1 4,
     Bits ''version'' 1 4,
     Member ''tos'' (CInt 1),
     Member ''tot_len'' (CInt 2),
     Member ''id'' (CInt 2),
     Member ''frag_off'' (CInt 2),
     Member ''ttl'' (CInt 1),
     Member ''protocol'' (CInt 1),
     Member ''check'' (CInt 2),
     Member ''saddr'' (CInt 4),
     Member ''daddr'' (CInt 4)]"

lemmas amd64_iphdr_member [layout_simps] = fun_cong [OF arg_cong [OF amd64_iphdr_def, of member]]

lemma amd64_iphdr_layout [layout_simps]:
  "sizeof amd64_iphdr = 20" "alignof amd64_iphdr = 4"
  unfolding amd64_iphdr_def by (simp_all add: layout_simps cong: layout_congs)

definition amd64_ipv6hdr :: ctype where
  "amd64_ipv6hdr = CStruct False [
     Bits ''priority'' 1 4,
     Bits ''version'' 1 4,
     Member ''flow_lbl'' (CArr (CInt 1) 3),
     Member ''payload_len'' (CInt 2),
     Member ''nexthdr'' (CInt 1),
     Member ''hop_limit'' (CInt 1),
     Member ''saddr'' amd64_in6_addr,
     Member ''daddr'' amd64_in6_addr]"

lemmas amd64_ipv6hdr_member [layout_simps] = fun_cong [OF arg_cong [OF amd64_ipv6hdr_def, of member]]

lemma amd64_ipv6hdr_layout [layout_simps]:
  "sizeof amd64_ipv6hdr = 40" "alignof amd64_ipv6hdr = 4"
  unfolding amd64_ipv6hdr_def by (simp_all add: layout_simps cong: layout_congs)

definition amd64_tcphdr :: ctype where
  "amd64_tcphdr = CStruct False [
     Member ''source'' (CInt 2),
     Member ''dest'' (CInt 2),
     Member ''seq'' (CInt 4),
     Member ''ack_seq'' (CInt 4),
     Bits ''res1'' 2 4,
     Bits ''doff'' 2 4,
     Bits ''fin'' 2 1,
     Bits ''syn'' 2 1,
     Bits ''rst'' 2 1,
     Bits ''psh'' 2 1,
     Bits ''ack'' 2 1,
     Bits ''urg'' 2 1,
     Bits ''ece'' 2 1,
     Bits ''cwr'' 2 1,
     Member ''window'' (CInt 2),
     Member ''check'' (CInt 2),
     Member ''urg_ptr'' (CInt 2)]"

lemmas amd64_tcphdr_member [layout_simps] = fun_cong [OF arg_cong [OF amd64_tcphdr_def, of member]]

lemma amd64_tcphdr_layout [layout_simps]:
  "sizeof amd64_tcphdr = 20" "alignof amd64_tcphdr = 4"
  unfolding amd64_tcphdr_def by (simp_all add: layout_simps cong: layout_congs)

definition amd64_udphdr :: ctype where
  "amd64_udphdr = CStruct False [
     Member ''source'' (CInt 2),
     Member ''dest'' (CInt 2),
     Member ''len'' (CInt 2),
     Member ''check'' (CInt 2)]"

lemmas amd64_udphdr_member [layout_simps] = fun_cong [OF arg_cong [OF amd64_udphdr_def, of member]]

lemma amd64_udphdr_layout [layout_simps]:
  "sizeof amd64_udphdr = 8" "alignof amd64_udphdr = 2"
  unfolding amd64_udphdr_def by (simp_all add: layout_simps cong: layout_congs)

definition amd64_ethhdr :: ctype where
  "amd64_ethhdr = CStruct False [
     Member ''h_dest'' (CArr (CInt 1) 6),
     Member ''h_source'' (CArr (CInt 1) 6),
     Member ''h_proto'' (CInt 2)]"

lemmas amd64_ethhdr_member [layout_simps] = fun_cong [OF arg_cong [OF amd64_ethhdr_def, of member]]

lemma amd64_ethhdr_layout [layout_simps]:
  "sizeof amd64_ethhdr = 14" "alignof amd64_ethhdr = 2"
  unfolding amd64_ethhdr_def by (simp_all add: layout_simps cong: layout_congs)

definition amd64_tc_sk_buff :: ctype where
  "amd64_tc_sk_buff = CStruct False [
     Member ''len'' (CInt 4),
     Member ''pkt_type'' (CInt 4),
     Member ''mark'' (CInt 4),
     Member ''queue_mapping'' (CInt 4),
     Member ''protocol'' (CInt 4),
     Member ''vlan_present'' (CInt 4),
     Member ''vlan_tci'' (CInt 4),
     Member ''vlan_proto'' (CInt 4),
     Member ''priority'' (CInt 4),
     Member ''ingress_ifindex'' (CInt 4),
     Member ''ifindex'' (CInt 4),
     Member ''tc_index'' (CInt 4),
     Member ''cb'' (CArr (CInt 4) 5),
     Member ''hash'' (CInt 4),
     Member ''tc_classid'' (CInt 4),
     Member ''data'' (CInt 4),
     Member ''data_end'' (CInt 4),
     Member ''napi_id'' (CInt 4),
     Member ''family'' (CInt 4),
     Member ''remote_ip4'' (CInt 4),
     Member ''local_ip4'' (CInt 4),
     Member ''remote_ip6'' (CArr (CInt 4) 4),
     Member ''local_ip6'' (CArr (CInt 4) 4),
     Member ''remote_port'' (CInt 4),
     Member ''local_port'' (CInt 4),
     Member ''data_meta'' (CInt 4),
     Member '''' (CUnion False [
       Member ''flow_keys'' CPtr]),
     Member ''tstamp'' (CInt 8),
     Member ''wire_len'' (CInt 4),
     Member ''gso_segs'' (CInt 4),
     Member '''' (CUnion False [
       Member ''sk'' CPtr])]"

lemmas amd64_tc_sk_buff_member [layout_simps] = fun_cong [OF arg_cong [OF amd64_tc_sk_buff_def, of member]]

lemma amd64_tc_sk_buff_layout [layout_simps]:
  "sizeof amd64_tc_sk_buff = 176" "alignof amd64_tc_sk_buff = 8"
  unfolding amd64_tc_sk_buff_def by (simp_all add: layout_simps cong: layout_congs)

definition amd64_pt_regs :: ctype where
  "amd64_pt_regs = CStruct False [
     Member ''r15'' (CInt 8),
     Member ''r14'' (CInt 8),
     Member ''r13'' (CInt 8),
     Member ''r12'' (CInt 8),
     Member ''bp'' (CInt 8),
     Member ''bx'' (CInt 8),
     Member ''r11'' (CInt 8),
     Member ''r10'' (CInt 8),
     Member ''r9'' (CInt 8),
     Member ''r8'' (CInt 8),
     Member ''ax'' (CInt 8),
     Member ''cx'' (CInt 8),
     Member ''dx'' (CInt 8),
     Member ''si'' (CInt 8),
     Member ''di'' (CInt 8),
     Member ''orig_ax'' (CInt 8),
     Member ''ip'' (CInt 8),
     Member ''cs'' (CInt 8),
     Member ''flags'' (CInt 8),
     Member ''sp'' (CInt 8),
     Member ''ss'' (CInt 8)]"

lemmas amd64_pt_regs_member [layout_simps] = fun_cong [OF arg_cong [OF amd64_pt_regs_def, of member]]

lemma amd64_pt_regs_layout [layout_simps]:
  "sizeof amd64_pt_regs = 168" "alignof amd64_pt_regs = 8"
  unfolding amd64_pt_regs_def by (simp_all add: layout_simps cong: layout_congs)

end
