(* ===== verification/Errno.thy ===== *)
theory Errno
  imports Prelude
begin

text \<open>
  The error numbers of \<^verbatim>\<open>src/bpf/headers/errno-base.h\<close> and
  \<^verbatim>\<open>src/bpf/headers/errno.h\<close> as tables of macro definitions in file order. A macro is
  either a number or the name of another macro.
\<close>

section \<open>The macro tables\<close>

datatype errno_def = Num nat | Alias string

definition errno_base :: "(string \<times> errno_def) list" where
  "errno_base = [
     (''EPERM'', Num 1), (''ENOENT'', Num 2), (''ESRCH'', Num 3), (''EINTR'', Num 4),
     (''EIO'', Num 5), (''ENXIO'', Num 6), (''E2BIG'', Num 7), (''ENOEXEC'', Num 8),
     (''EBADF'', Num 9), (''ECHILD'', Num 10), (''EAGAIN'', Num 11), (''ENOMEM'', Num 12),
     (''EACCES'', Num 13), (''EFAULT'', Num 14), (''ENOTBLK'', Num 15), (''EBUSY'', Num 16),
     (''EEXIST'', Num 17), (''EXDEV'', Num 18), (''ENODEV'', Num 19), (''ENOTDIR'', Num 20),
     (''EISDIR'', Num 21), (''EINVAL'', Num 22), (''ENFILE'', Num 23), (''EMFILE'', Num 24),
     (''ENOTTY'', Num 25), (''ETXTBSY'', Num 26), (''EFBIG'', Num 27), (''ENOSPC'', Num 28),
     (''ESPIPE'', Num 29), (''EROFS'', Num 30), (''EMLINK'', Num 31), (''EPIPE'', Num 32),
     (''EDOM'', Num 33), (''ERANGE'', Num 34)]"

definition errno_ext :: "(string \<times> errno_def) list" where
  "errno_ext = [
     (''EDEADLK'', Num 35), (''ENAMETOOLONG'', Num 36), (''ENOLCK'', Num 37),
     (''ENOSYS'', Num 38), (''ENOTEMPTY'', Num 39), (''ELOOP'', Num 40),
     (''EWOULDBLOCK'', Alias ''EAGAIN''), (''ENOMSG'', Num 42), (''EIDRM'', Num 43),
     (''ECHRNG'', Num 44), (''EL2NSYNC'', Num 45), (''EL3HLT'', Num 46), (''EL3RST'', Num 47),
     (''ELNRNG'', Num 48), (''EUNATCH'', Num 49), (''ENOCSI'', Num 50), (''EL2HLT'', Num 51),
     (''EBADE'', Num 52), (''EBADR'', Num 53), (''EXFULL'', Num 54), (''ENOANO'', Num 55),
     (''EBADRQC'', Num 56), (''EBADSLT'', Num 57), (''EDEADLOCK'', Alias ''EDEADLK''),
     (''EBFONT'', Num 59), (''ENOSTR'', Num 60), (''ENODATA'', Num 61), (''ETIME'', Num 62),
     (''ENOSR'', Num 63), (''ENONET'', Num 64), (''ENOPKG'', Num 65), (''EREMOTE'', Num 66),
     (''ENOLINK'', Num 67), (''EADV'', Num 68), (''ESRMNT'', Num 69), (''ECOMM'', Num 70),
     (''EPROTO'', Num 71), (''EMULTIHOP'', Num 72), (''EDOTDOT'', Num 73),
     (''EBADMSG'', Num 74), (''EOVERFLOW'', Num 75), (''ENOTUNIQ'', Num 76),
     (''EBADFD'', Num 77), (''EREMCHG'', Num 78), (''ELIBACC'', Num 79), (''ELIBBAD'', Num 80),
     (''ELIBSCN'', Num 81), (''ELIBMAX'', Num 82), (''ELIBEXEC'', Num 83), (''EILSEQ'', Num 84),
     (''ERESTART'', Num 85), (''ESTRPIPE'', Num 86), (''EUSERS'', Num 87),
     (''ENOTSOCK'', Num 88), (''EDESTADDRREQ'', Num 89), (''EMSGSIZE'', Num 90),
     (''EPROTOTYPE'', Num 91), (''ENOPROTOOPT'', Num 92), (''EPROTONOSUPPORT'', Num 93),
     (''ESOCKTNOSUPPORT'', Num 94), (''EOPNOTSUPP'', Num 95), (''EPFNOSUPPORT'', Num 96),
     (''EAFNOSUPPORT'', Num 97), (''EADDRINUSE'', Num 98), (''EADDRNOTAVAIL'', Num 99),
     (''ENETDOWN'', Num 100), (''ENETUNREACH'', Num 101), (''ENETRESET'', Num 102),
     (''ECONNABORTED'', Num 103), (''ECONNRESET'', Num 104), (''ENOBUFS'', Num 105),
     (''EISCONN'', Num 106), (''ENOTCONN'', Num 107), (''ESHUTDOWN'', Num 108),
     (''ETOOMANYREFS'', Num 109), (''ETIMEDOUT'', Num 110), (''ECONNREFUSED'', Num 111),
     (''EHOSTDOWN'', Num 112), (''EHOSTUNREACH'', Num 113), (''EALREADY'', Num 114),
     (''EINPROGRESS'', Num 115), (''ESTALE'', Num 116), (''EUCLEAN'', Num 117),
     (''ENOTNAM'', Num 118), (''ENAVAIL'', Num 119), (''EISNAM'', Num 120),
     (''EREMOTEIO'', Num 121), (''EDQUOT'', Num 122), (''ENOMEDIUM'', Num 123),
     (''EMEDIUMTYPE'', Num 124), (''ECANCELED'', Num 125), (''ENOKEY'', Num 126),
     (''EKEYEXPIRED'', Num 127), (''EKEYREVOKED'', Num 128), (''EKEYREJECTED'', Num 129),
     (''EOWNERDEAD'', Num 130), (''ENOTRECOVERABLE'', Num 131), (''ERFKILL'', Num 132),
     (''EHWPOISON'', Num 133)]"

definition errno_table :: "(string \<times> errno_def) list" where
  "errno_table = errno_base @ errno_ext"

text \<open>The value a macro expands to; an alias expands to the macro it names.\<close>

definition errno_val :: "string \<Rightarrow> nat option" where
  "errno_val name =
     (case map_of errno_table name of
        Some (Num v) \<Rightarrow> Some v
      | Some (Alias m) \<Rightarrow> (case map_of errno_table m of Some (Num v) \<Rightarrow> Some v | _ \<Rightarrow> None)
      | None \<Rightarrow> None)"

fun num_of :: "errno_def \<Rightarrow> nat list" where
  "num_of (Num v) = [v]"
| "num_of (Alias m) = []"

definition errno_codes :: "nat list" where
  "errno_codes = concat (map (num_of \<circ> snd) errno_table)"

section \<open>Properties\<close>

lemma errno_codes_eval:
  "errno_codes = [1..<41] @ [42..<58] @ [59..<134]"
  unfolding errno_codes_def errno_table_def errno_base_def errno_ext_def
  by (simp add: upt_rec)

lemma distinct_errno_codes: "distinct errno_codes"
  by (auto simp: errno_codes_eval)

lemma errno_aliases:
  "errno_val ''EWOULDBLOCK'' = Some 11" "errno_val ''EDEADLOCK'' = Some 35"
  by (code_simp)+

end
