(* ===== verification/Kernel.thy ===== *)
theory Kernel
  imports VmlinuxAmd64 VmlinuxArm64 Errno
begin

text \<open>
  The kernel side of the probes. The running kernel is not part of the sources: its memory, the
  offsets its BTF gives to the members a probe reads, the clock, the current task and the
  outcomes it decides (a fault, a full table, a lost sample) are fields of the parameter \<open>kenv\<close>,
  one value of which describes the kernel during one invocation of a handler. The helper
  functions follow their descriptions in \<^verbatim>\<open>src/bpf/headers/bpf_helper_defs.h\<close>; what
  the descriptions leave open is a field of \<open>kenv\<close>, and \<open>kernel_ok\<close>, \<open>zero_fill\<close> and the other
  predicates below name what a property relies on.
\<close>

section \<open>Members of kernel types and their offsets\<close>

text \<open>
  Every member of a kernel type a probe accesses. Since \<^verbatim>\<open>vmlinux.h\<close> declares all its
  records \<^verbatim>\<open>preserve_access_index\<close>, each access is a CO-RE relocation and uses the
  offset the member has in the running kernel.
\<close>

datatype kfield =
    Skb_dev | Skb_sk | Skb_head | Skb_network_header | Skb_transport_header
  | Skb_mark | Skb_len | Skb_protocol
  | Dev_nd_net_net | Dev_ifindex | Dev_mtu
  | Net_ns_inum
  | Sk_skc_net_net | Sk_skc_family | Sk_skc_rcv_saddr | Sk_skc_daddr | Sk_skc_num
  | Sk_skc_dport | Sk_skc_state | Sk_gso_max_segs
  | Eth_h_proto
  | Ip_saddr | Ip_daddr | Ip_protocol
  | Ip6_saddr | Ip6_daddr | Ip6_nexthdr
  | Tcp_source | Tcp_dest | Udp_source | Udp_dest

fun amd64_offset :: "kfield \<Rightarrow> nat" where
  "amd64_offset Skb_dev = offsetof amd64_sk_buff [''dev'']"
| "amd64_offset Skb_sk = offsetof amd64_sk_buff [''sk'']"
| "amd64_offset Skb_head = offsetof amd64_sk_buff [''head'']"
| "amd64_offset Skb_network_header = offsetof amd64_sk_buff [''network_header'']"
| "amd64_offset Skb_transport_header = offsetof amd64_sk_buff [''transport_header'']"
| "amd64_offset Skb_mark = offsetof amd64_sk_buff [''mark'']"
| "amd64_offset Skb_len = offsetof amd64_sk_buff [''len'']"
| "amd64_offset Skb_protocol = offsetof amd64_sk_buff [''protocol'']"
| "amd64_offset Dev_nd_net_net = offsetof amd64_net_device [''nd_net'', ''net'']"
| "amd64_offset Dev_ifindex = offsetof amd64_net_device [''ifindex'']"
| "amd64_offset Dev_mtu = offsetof amd64_net_device [''mtu'']"
| "amd64_offset Net_ns_inum = offsetof amd64_net [''ns'', ''inum'']"
| "amd64_offset Sk_skc_net_net = offsetof amd64_sock [''__sk_common'', ''skc_net'', ''net'']"
| "amd64_offset Sk_skc_family = offsetof amd64_sock [''__sk_common'', ''skc_family'']"
| "amd64_offset Sk_skc_rcv_saddr = offsetof amd64_sock [''__sk_common'', ''skc_rcv_saddr'']"
| "amd64_offset Sk_skc_daddr = offsetof amd64_sock [''__sk_common'', ''skc_daddr'']"
| "amd64_offset Sk_skc_num = offsetof amd64_sock [''__sk_common'', ''skc_num'']"
| "amd64_offset Sk_skc_dport = offsetof amd64_sock [''__sk_common'', ''skc_dport'']"
| "amd64_offset Sk_skc_state = offsetof amd64_sock [''__sk_common'', ''skc_state'']"
| "amd64_offset Sk_gso_max_segs = offsetof amd64_sock [''sk_gso_max_segs'']"
| "amd64_offset Eth_h_proto = offsetof amd64_ethhdr [''h_proto'']"
| "amd64_offset Ip_saddr = offsetof amd64_iphdr [''saddr'']"
| "amd64_offset Ip_daddr = offsetof amd64_iphdr [''daddr'']"
| "amd64_offset Ip_protocol = offsetof amd64_iphdr [''protocol'']"
| "amd64_offset Ip6_saddr = offsetof amd64_ipv6hdr [''saddr'']"
| "amd64_offset Ip6_daddr = offsetof amd64_ipv6hdr [''daddr'']"
| "amd64_offset Ip6_nexthdr = offsetof amd64_ipv6hdr [''nexthdr'']"
| "amd64_offset Tcp_source = offsetof amd64_tcphdr [''source'']"
| "amd64_offset Tcp_dest = offsetof amd64_tcphdr [''dest'']"
| "amd64_offset Udp_source = offsetof amd64_udphdr [''source'']"
| "amd64_offset Udp_dest = offsetof amd64_udphdr [''dest'']"

fun arm64_offset :: "kfield \<Rightarrow> nat" where
  "arm64_offset Skb_dev = offsetof arm64_sk_buff [''dev'']"
| "arm64_offset Skb_sk = offsetof arm64_sk_buff [''sk'']"
| "arm64_offset Skb_head = offsetof arm64_sk_buff [''head'']"
| "arm64_offset Skb_network_header = offsetof arm64_sk_buff [''network_header'']"
| "arm64_offset Skb_transport_header = offsetof arm64_sk_buff [''transport_header'']"
| "arm64_offset Skb_mark = offsetof arm64_sk_buff [''mark'']"
| "arm64_offset Skb_len = offsetof arm64_sk_buff [''len'']"
| "arm64_offset Skb_protocol = offsetof arm64_sk_buff [''protocol'']"
| "arm64_offset Dev_nd_net_net = offsetof arm64_net_device [''nd_net'', ''net'']"
| "arm64_offset Dev_ifindex = offsetof arm64_net_device [''ifindex'']"
| "arm64_offset Dev_mtu = offsetof arm64_net_device [''mtu'']"
| "arm64_offset Net_ns_inum = offsetof arm64_net [''ns'', ''inum'']"
| "arm64_offset Sk_skc_net_net = offsetof arm64_sock [''__sk_common'', ''skc_net'', ''net'']"
| "arm64_offset Sk_skc_family = offsetof arm64_sock [''__sk_common'', ''skc_family'']"
| "arm64_offset Sk_skc_rcv_saddr = offsetof arm64_sock [''__sk_common'', ''skc_rcv_saddr'']"
| "arm64_offset Sk_skc_daddr = offsetof arm64_sock [''__sk_common'', ''skc_daddr'']"
| "arm64_offset Sk_skc_num = offsetof arm64_sock [''__sk_common'', ''skc_num'']"
| "arm64_offset Sk_skc_dport = offsetof arm64_sock [''__sk_common'', ''skc_dport'']"
| "arm64_offset Sk_skc_state = offsetof arm64_sock [''__sk_common'', ''skc_state'']"
| "arm64_offset Sk_gso_max_segs = offsetof arm64_sock [''sk_gso_max_segs'']"
| "arm64_offset Eth_h_proto = offsetof arm64_ethhdr [''h_proto'']"
| "arm64_offset Ip_saddr = offsetof arm64_iphdr [''saddr'']"
| "arm64_offset Ip_daddr = offsetof arm64_iphdr [''daddr'']"
| "arm64_offset Ip_protocol = offsetof arm64_iphdr [''protocol'']"
| "arm64_offset Ip6_saddr = offsetof arm64_ipv6hdr [''saddr'']"
| "arm64_offset Ip6_daddr = offsetof arm64_ipv6hdr [''daddr'']"
| "arm64_offset Ip6_nexthdr = offsetof arm64_ipv6hdr [''nexthdr'']"
| "arm64_offset Tcp_source = offsetof arm64_tcphdr [''source'']"
| "arm64_offset Tcp_dest = offsetof arm64_tcphdr [''dest'']"
| "arm64_offset Udp_source = offsetof arm64_udphdr [''source'']"
| "arm64_offset Udp_dest = offsetof arm64_udphdr [''dest'']"

lemma amd64_offset_eval [layout_simps]:
  "amd64_offset Skb_dev = 16"
  "amd64_offset Skb_sk = 24"
  "amd64_offset Skb_head = 192"
  "amd64_offset Skb_network_header = 180"
  "amd64_offset Skb_transport_header = 178"
  "amd64_offset Skb_mark = 164"
  "amd64_offset Skb_len = 112"
  "amd64_offset Skb_protocol = 176"
  "amd64_offset Dev_nd_net_net = 1192"
  "amd64_offset Dev_ifindex = 256"
  "amd64_offset Dev_mtu = 528"
  "amd64_offset Net_ns_inum = 136"
  "amd64_offset Sk_skc_net_net = 48"
  "amd64_offset Sk_skc_family = 16"
  "amd64_offset Sk_skc_rcv_saddr = 4"
  "amd64_offset Sk_skc_daddr = 0"
  "amd64_offset Sk_skc_num = 14"
  "amd64_offset Sk_skc_dport = 12"
  "amd64_offset Sk_skc_state = 18"
  "amd64_offset Sk_gso_max_segs = 532"
  "amd64_offset Eth_h_proto = 12"
  "amd64_offset Ip_saddr = 12"
  "amd64_offset Ip_daddr = 16"
  "amd64_offset Ip_protocol = 9"
  "amd64_offset Ip6_saddr = 8"
  "amd64_offset Ip6_daddr = 24"
  "amd64_offset Ip6_nexthdr = 6"
  "amd64_offset Tcp_source = 0"
  "amd64_offset Tcp_dest = 2"
  "amd64_offset Udp_source = 0"
  "amd64_offset Udp_dest = 2"
  unfolding amd64_offset.simps offsetof_def by (simp_all add: layout_simps cong: layout_congs)

declare amd64_offset.simps [simp del]

lemma arm64_offset_eval [layout_simps]:
  "arm64_offset Skb_dev = 16"
  "arm64_offset Skb_sk = 24"
  "arm64_offset Skb_head = 192"
  "arm64_offset Skb_network_header = 176"
  "arm64_offset Skb_transport_header = 174"
  "arm64_offset Skb_mark = 160"
  "arm64_offset Skb_len = 112"
  "arm64_offset Skb_protocol = 172"
  "arm64_offset Dev_nd_net_net = 1264"
  "arm64_offset Dev_ifindex = 256"
  "arm64_offset Dev_mtu = 560"
  "arm64_offset Net_ns_inum = 136"
  "arm64_offset Sk_skc_net_net = 48"
  "arm64_offset Sk_skc_family = 16"
  "arm64_offset Sk_skc_rcv_saddr = 4"
  "arm64_offset Sk_skc_daddr = 0"
  "arm64_offset Sk_skc_num = 14"
  "arm64_offset Sk_skc_dport = 12"
  "arm64_offset Sk_skc_state = 18"
  "arm64_offset Sk_gso_max_segs = 534"
  "arm64_offset Eth_h_proto = 12"
  "arm64_offset Ip_saddr = 12"
  "arm64_offset Ip_daddr = 16"
  "arm64_offset Ip_protocol = 9"
  "arm64_offset Ip6_saddr = 8"
  "arm64_offset Ip6_daddr = 24"
  "arm64_offset Ip6_nexthdr = 6"
  "arm64_offset Tcp_source = 0"
  "arm64_offset Tcp_dest = 2"
  "arm64_offset Udp_source = 0"
  "arm64_offset Udp_dest = 2"
  unfolding arm64_offset.simps offsetof_def by (simp_all add: layout_simps cong: layout_congs)

declare arm64_offset.simps [simp del]

text \<open>
  The protocol headers have the same layout in every kernel: their members are where the wire
  format puts them. \<open>wire_layout\<close> says so of an offset table.
\<close>

definition wire_layout :: "(kfield \<Rightarrow> nat) \<Rightarrow> bool" where
  "wire_layout off \<longleftrightarrow>
     off Eth_h_proto = 12 \<and> off Ip_saddr = 12 \<and> off Ip_daddr = 16 \<and> off Ip_protocol = 9 \<and>
     off Ip6_saddr = 8 \<and> off Ip6_daddr = 24 \<and> off Ip6_nexthdr = 6 \<and>
     off Tcp_source = 0 \<and> off Tcp_dest = 2 \<and> off Udp_source = 0 \<and> off Udp_dest = 2"

lemma wire_layout_vmlinux: "wire_layout amd64_offset" "wire_layout arm64_offset"
  by (simp_all add: wire_layout_def amd64_offset_eval arm64_offset_eval)

section \<open>The kernel during one invocation\<close>

record kenv =
  k_mem :: "u64 \<Rightarrow> u8 option"        \<comment> \<open>kernel memory; \<open>None\<close> is an address that faults\<close>
  k_off :: "kfield \<Rightarrow> nat"           \<comment> \<open>member offsets of the running kernel\<close>
  k_fault :: "bytes \<Rightarrow> bytes"        \<comment> \<open>what a destination holds after a faulting read\<close>
  k_efault :: int                   \<comment> \<open>result of a faulting read\<close>
  k_local :: "nat \<Rightarrow> bytes"          \<comment> \<open>contents of an uninitialised local of a given size\<close>
  k_now :: u64                      \<comment> \<open>reading of the monotonic clock\<close>
  k_tgid :: u32
  k_pid :: u32
  k_cpu :: u32
  k_comm :: "nat \<Rightarrow> bytes"           \<comment> \<open>what the task-name helper puts into a buffer of a given size\<close>
  k_comm_ret :: int
  k_insert :: "nat \<Rightarrow> nat \<Rightarrow> int"     \<comment> \<open>verdict on a new entry in a table of \<open>n\<close> entries out of \<open>max\<close>\<close>
  k_eexist :: int                   \<comment> \<open>error of an update whose flags do not allow it\<close>
  k_enoent :: int                   \<comment> \<open>error of an update or delete of a missing entry\<close>
  k_perf :: int                     \<comment> \<open>verdict on a sample written to the perf ring\<close>
  k_stackid :: "u64 \<Rightarrow> s64"          \<comment> \<open>stack id, or a negative error, for the given flags\<close>

text \<open>
  What the helper descriptions promise: errors are negative, buffers keep their size, the task
  name is NUL-terminated on success and zero on failure.
\<close>

definition kernel_ok :: "kenv \<Rightarrow> bool" where
  "kernel_ok k \<longleftrightarrow>
     (\<forall>d. length (k_fault k d) = length d) \<and> (\<forall>n. length (k_local k n) = n) \<and>
     (\<forall>n. length (k_comm k n) = n) \<and>
     (\<forall>n. 0 < n \<longrightarrow> (if k_comm_ret k = 0 then last (k_comm k n) = 0
                    else k_comm k n = replicate n 0)) \<and>
     k_efault k < 0 \<and> k_eexist k < 0 \<and> k_enoent k < 0"

text \<open>The kernel clears the destination of a faulting probe read.\<close>

definition zero_fill :: "kenv \<Rightarrow> bool" where
  "zero_fill k \<longleftrightarrow> (\<forall>d. k_fault k d = replicate (length d) 0)"

text \<open>
  A sample kernel for evaluating the model on concrete inputs: every read faults and clears its
  destination, entries are accepted while there is room, every sample is delivered. The offsets
  are those of the amd64 header.
\<close>

definition sample_kernel :: kenv where
  "sample_kernel =
     \<lparr>k_mem = (\<lambda>a. None), k_off = amd64_offset, k_fault = (\<lambda>d. replicate (length d) 0),
      k_efault = - 14, k_local = (\<lambda>n. replicate n 0), k_now = 0, k_tgid = 0, k_pid = 0, k_cpu = 0,
      k_comm = (\<lambda>n. replicate n 0), k_comm_ret = 0,
      k_insert = (\<lambda>n mx. if n < mx then 0 else - 7), k_eexist = - 17, k_enoent = - 2,
      k_perf = 0, k_stackid = (\<lambda>f. 0)\<rparr>"

lemma sample_kernel_fields [simp]:
  "k_mem sample_kernel = (\<lambda>a. None)" "k_off sample_kernel = amd64_offset"
  "k_fault sample_kernel = (\<lambda>d. replicate (length d) 0)" "k_efault sample_kernel = - 14"
  "k_local sample_kernel = (\<lambda>n. replicate n 0)" "k_now sample_kernel = 0"
  "k_tgid sample_kernel = 0" "k_pid sample_kernel = 0" "k_cpu sample_kernel = 0"
  "k_comm sample_kernel = (\<lambda>n. replicate n 0)" "k_comm_ret sample_kernel = 0"
  "k_insert sample_kernel = (\<lambda>n mx. if n < mx then 0 else - 7)" "k_eexist sample_kernel = - 17"
  "k_enoent sample_kernel = - 2" "k_perf sample_kernel = 0" "k_stackid sample_kernel = (\<lambda>f. 0)"
  by (simp_all add: sample_kernel_def)

lemma sample_kernel_ok: "kernel_ok sample_kernel" "zero_fill sample_kernel"
  by (auto simp: kernel_ok_def zero_fill_def)

text \<open>Memory made of regions, the first one that contains an address deciding.\<close>

fun mem_of :: "(u64 \<times> bytes) list \<Rightarrow> u64 \<Rightarrow> u8 option" where
  "mem_of [] a = None"
| "mem_of ((base, bs) # rs) a =
     (if unat (a - base) < length bs then Some (bs ! unat (a - base)) else mem_of rs a)"

section \<open>Reading memory\<close>

definition fetch :: "kenv \<Rightarrow> u64 \<Rightarrow> nat \<Rightarrow> bytes option" where
  "fetch k a n = those (map (\<lambda>i. k_mem k (a + of_nat i)) [0..<n])"

definition bpf_probe_read :: "kenv \<Rightarrow> bytes \<Rightarrow> nat \<Rightarrow> u64 \<Rightarrow> int \<times> bytes" where
  "bpf_probe_read k dst sz unsafe_ptr =
     (case fetch k unsafe_ptr sz of
        Some bs \<Rightarrow> (0, overlay bs dst)
      | None \<Rightarrow> (k_efault k, overlay (k_fault k (take sz dst)) dst))"

definition bpf_probe_read_kernel :: "kenv \<Rightarrow> bytes \<Rightarrow> nat \<Rightarrow> u64 \<Rightarrow> int \<times> bytes" where
  "bpf_probe_read_kernel k dst sz unsafe_ptr =
     (case fetch k unsafe_ptr sz of
        Some bs \<Rightarrow> (0, overlay bs dst)
      | None \<Rightarrow> (k_efault k, overlay (k_fault k (take sz dst)) dst))"

section \<open>Time, task and processor\<close>

definition bpf_ktime_get_ns :: "kenv \<Rightarrow> u64" where
  [helper_defs]: "bpf_ktime_get_ns k = k_now k"

definition bpf_get_smp_processor_id :: "kenv \<Rightarrow> u32" where
  [helper_defs]: "bpf_get_smp_processor_id k = k_cpu k"

definition bpf_get_current_pid_tgid :: "kenv \<Rightarrow> u64" where
  "bpf_get_current_pid_tgid k = push_bit 32 (ucast (k_tgid k)) OR ucast (k_pid k)"

definition bpf_get_current_comm :: "kenv \<Rightarrow> bytes \<Rightarrow> nat \<Rightarrow> int \<times> bytes" where
  "bpf_get_current_comm k buf size_of_buf =
     (k_comm_ret k, overlay (k_comm k size_of_buf) buf)"

definition bpf_get_stackid :: "kenv \<Rightarrow> u64 \<Rightarrow> s64" where
  [helper_defs]: "bpf_get_stackid k flags = k_stackid k flags"

section \<open>Perf event output\<close>

text \<open>
  A perf event array is the log of the samples delivered to it, oldest first, each with the index
  of the ring it went to. A sample the kernel refuses is lost.
\<close>

type_synonym 'e perf = "(u32 \<times> 'e) list"

definition BPF_F_INDEX_MASK :: u64 where "BPF_F_INDEX_MASK = 4294967295"

definition BPF_F_CURRENT_CPU :: u64 where "BPF_F_CURRENT_CPU = 4294967295"

definition bpf_perf_event_output :: "kenv \<Rightarrow> 'e perf \<Rightarrow> u64 \<Rightarrow> 'e \<Rightarrow> int \<times> 'e perf" where
  "bpf_perf_event_output k ring_map flags data =
     (let index = flags AND BPF_F_INDEX_MASK;
          ring = (if index = BPF_F_CURRENT_CPU then k_cpu k else ucast index)
      in if k_perf k < 0 then (k_perf k, ring_map) else (0, ring_map @ [(ring, data)]))"

section \<open>Lemmas\<close>

lemma those_map_Some: "(\<And>i. i \<in> set xs \<Longrightarrow> f i = Some (g i)) \<Longrightarrow> those (map f xs) = Some (map g xs)"
  by (induction xs) auto

lemma those_None: "x \<in> set xs \<Longrightarrow> f x = None \<Longrightarrow> those (map f xs) = None"
  by (induction xs) (auto split: option.splits)

lemma those_eq_Some: "those xs = Some ys \<longleftrightarrow> xs = map Some ys"
  by (induction xs arbitrary: ys) (auto simp: Cons_eq_map_conv split: option.splits)

lemma fetch_iff:
  "fetch k a n = Some bs \<longleftrightarrow>
     length bs = n \<and> (\<forall>i < n. k_mem k (a + of_nat i) = Some (bs ! i))"
  by (auto simp: fetch_def those_eq_Some list_eq_iff_nth_eq)

lemma length_fetch: "fetch k a n = Some bs \<Longrightarrow> length bs = n"
  by (simp add: fetch_iff)

lemma fetch_slice:
  "fetch k a n = Some bs \<Longrightarrow> i + m \<le> n \<Longrightarrow> fetch k (a + of_nat i) m = Some (slice i m bs)"
  by (auto simp: fetch_iff slice_def add.assoc simp flip: of_nat_add)

text \<open>Memory that holds a byte string.\<close>

definition holds :: "kenv \<Rightarrow> u64 \<Rightarrow> bytes \<Rightarrow> bool" where
  "holds k a bs \<longleftrightarrow> fetch k a (length bs) = Some bs"

lemma holds_slice:
  "holds k a bs \<Longrightarrow> i + m \<le> length bs \<Longrightarrow> fetch k (a + of_nat i) m = Some (slice i m bs)"
  unfolding holds_def by (rule fetch_slice)

lemma holds_region:
  assumes "unat (a - b) = i" and "i + length bs \<le> length cs" and "length cs \<le> 2 ^ 64"
    and "slice i (length bs) cs = bs"
  shows "holds (k\<lparr>k_mem := mem_of ((b, cs) # rs)\<rparr>) a bs"
proof -
  have "unat (a + of_nat j - b) = i + j" if "j < length bs" for j
  proof -
    have "a + of_nat j - b = (a - b) + of_nat j" by simp
    also have "unat \<dots> = i + j"
      using assms that by (subst unat_plus_if') (auto simp: unat_of_nat take_bit_nat_eq_self)
    finally show ?thesis .
  qed
  moreover have "cs ! (i + j) = bs ! j" if "j < length bs" for j
    using that assms(2) by (subst assms(4) [symmetric]) (simp add: slice_def)
  ultimately show ?thesis
    using assms by (auto simp: holds_def fetch_iff)
qed

lemma holds_other_region:
  assumes "holds (k\<lparr>k_mem := mem_of rs\<rparr>) a bs"
    and "length cs \<le> unat (a - b)" and "length bs \<le> unat (b - a)"
  shows "holds (k\<lparr>k_mem := mem_of ((b, cs) # rs)\<rparr>) a bs"
proof -
  have "\<not> unat (a + of_nat j - b) < length cs" if j: "j < length bs" for j
  proof -
    have sum: "unat (a - b) + unat (b - a) = 2 ^ 64" if "a \<noteq> b"
      using that unsigned_less [of a, where 'a = nat] unsigned_less [of b, where 'a = nat] word_unat_eq_iff [of a b]
      by (cases "unat a \<le> unat b") (simp_all add: unat_sub_if')
    have eq: "a + of_nat j - b = (a - b) + of_nat j" by simp
    show ?thesis
    proof (cases "a = b")
      case True
      with assms(3) j show ?thesis by simp
    next
      case False
      have "unat (a - b) + j < 2 ^ 64"
        using sum [OF False] assms(3) j by linarith
      then have "unat ((a - b) + of_nat j) = unat (a - b) + j"
        by (subst unat_plus_if') (auto simp: unat_of_nat take_bit_nat_eq_self)
      with assms(2) show ?thesis unfolding eq by linarith
    qed
  qed
  with assms(1) show ?thesis by (auto simp: holds_def fetch_iff)
qed

lemmas holds_mem_of = holds_region [OF refl] holds_other_region

lemma probe_read_kernel_eq: "bpf_probe_read_kernel = bpf_probe_read"
  by (intro ext) (simp add: bpf_probe_read_kernel_def bpf_probe_read_def)

lemma length_probe_read:
  "kernel_ok k \<Longrightarrow> sz \<le> length dst \<Longrightarrow> length (snd (bpf_probe_read k dst sz p)) = length dst"
  by (auto simp: bpf_probe_read_def kernel_ok_def length_fetch split: option.splits)

lemma probe_read_zero_fill:
  "zero_fill k \<Longrightarrow> sz = length dst \<Longrightarrow>
     snd (bpf_probe_read k dst sz p) =
       (case fetch k p sz of Some bs \<Rightarrow> bs | None \<Rightarrow> replicate sz 0)"
  by (auto simp: bpf_probe_read_def zero_fill_def overlay_def dest: length_fetch split: option.splits)

text \<open>The high half of the combined identifier is the thread group, the low half the thread.\<close>

lemma pid_tgid_high [simp]:
  "ucast (drop_bit 32 (bpf_get_current_pid_tgid k)) = k_tgid k"
  by (rule bit_word_eqI)
    (auto simp: bpf_get_current_pid_tgid_def bit_simps dest: bit_imp_le_length)

lemma pid_tgid_low [simp]:
  "ucast (bpf_get_current_pid_tgid k) = k_pid k"
  by (rule bit_word_eqI)
    (auto simp: bpf_get_current_pid_tgid_def bit_simps dest: bit_imp_le_length)

lemma perf_output_current_cpu:
  "bpf_perf_event_output k m BPF_F_CURRENT_CPU e =
     (if k_perf k < 0 then (k_perf k, m) else (0, m @ [(k_cpu k, e)]))"
  by (simp add: bpf_perf_event_output_def BPF_F_CURRENT_CPU_def BPF_F_INDEX_MASK_def)

end
