(* ===== verification/Endian.thy ===== *)
theory Endian
  imports Prelude
begin

text \<open>
  The byte-order macros of \<^verbatim>\<open>src/bpf/headers/bpf/bpf_endian.h\<close>: the shift-and-or byte
  swaps used for constants, the conversions between host and network order for either host byte
  order, and the selection between the two. The compiler builtins \<^verbatim>\<open>__builtin_bswapN\<close>
  reverse the bytes of their argument.
\<close>

section \<open>Definitions\<close>

datatype byte_order = ORDER_LITTLE_ENDIAN | ORDER_BIG_ENDIAN

definition builtin_bswap16 :: "u16 \<Rightarrow> u16" where
  "builtin_bswap16 x = le_word (rev (word_le x))"

definition builtin_bswap32 :: "u32 \<Rightarrow> u32" where
  "builtin_bswap32 x = le_word (rev (word_le x))"

definition builtin_bswap64 :: "u64 \<Rightarrow> u64" where
  "builtin_bswap64 x = le_word (rev (word_le x))"

text \<open>
  \<^verbatim>\<open>___bpf_mvb(x, b, n, m)\<close> moves byte \<open>n\<close> to byte \<open>m\<close> with the shifts
  \<open>x << (b - (n + 1) * 8) >> (b - 8) << (m * 8)\<close>. For \<open>b = 16\<close> the operand is promoted to
  \<open>int\<close>, so the left shift keeps the bits above bit 15; they only disappear in the final cast
  of the swap. The 16-bit version is therefore computed on 32 bits.
\<close>

definition bpf_mvb :: "'a::len word \<Rightarrow> nat \<Rightarrow> nat \<Rightarrow> nat \<Rightarrow> 'a word" where
  "bpf_mvb x b n m = push_bit (m * 8) (drop_bit (b - 8) (push_bit (b - (n + 1) * 8) x))"

definition bpf_swab16 :: "u16 \<Rightarrow> u16" where
  "bpf_swab16 x =
     ucast (bpf_mvb (ucast x :: u32) 16 0 1 OR
            bpf_mvb (ucast x :: u32) 16 1 0)"

definition bpf_swab32 :: "u32 \<Rightarrow> u32" where
  "bpf_swab32 x =
     bpf_mvb x 32 0 3 OR
     bpf_mvb x 32 1 2 OR
     bpf_mvb x 32 2 1 OR
     bpf_mvb x 32 3 0"

definition bpf_swab64 :: "u64 \<Rightarrow> u64" where
  "bpf_swab64 x =
     bpf_mvb x 64 0 7 OR
     bpf_mvb x 64 1 6 OR
     bpf_mvb x 64 2 5 OR
     bpf_mvb x 64 3 4 OR
     bpf_mvb x 64 4 3 OR
     bpf_mvb x 64 5 2 OR
     bpf_mvb x 64 6 1 OR
     bpf_mvb x 64 7 0"

text \<open>
  The conversions of the header, one per macro. The first argument is the byte order the
  compiler targets (\<^verbatim>\<open>__BYTE_ORDER__\<close>); the second, for the macros that test it, is the
  outcome of \<^verbatim>\<open>__builtin_constant_p\<close>.
\<close>

fun bpf_ntohs_var :: "byte_order \<Rightarrow> u16 \<Rightarrow> u16" where
  "bpf_ntohs_var ORDER_LITTLE_ENDIAN x = builtin_bswap16 x"
| "bpf_ntohs_var ORDER_BIG_ENDIAN x = x"

fun bpf_htons_var :: "byte_order \<Rightarrow> u16 \<Rightarrow> u16" where
  "bpf_htons_var ORDER_LITTLE_ENDIAN x = builtin_bswap16 x"
| "bpf_htons_var ORDER_BIG_ENDIAN x = x"

fun bpf_constant_ntohs :: "byte_order \<Rightarrow> u16 \<Rightarrow> u16" where
  "bpf_constant_ntohs ORDER_LITTLE_ENDIAN x = bpf_swab16 x"
| "bpf_constant_ntohs ORDER_BIG_ENDIAN x = x"

fun bpf_constant_htons :: "byte_order \<Rightarrow> u16 \<Rightarrow> u16" where
  "bpf_constant_htons ORDER_LITTLE_ENDIAN x = bpf_swab16 x"
| "bpf_constant_htons ORDER_BIG_ENDIAN x = x"

fun bpf_ntohl_var :: "byte_order \<Rightarrow> u32 \<Rightarrow> u32" where
  "bpf_ntohl_var ORDER_LITTLE_ENDIAN x = builtin_bswap32 x"
| "bpf_ntohl_var ORDER_BIG_ENDIAN x = x"

fun bpf_htonl_var :: "byte_order \<Rightarrow> u32 \<Rightarrow> u32" where
  "bpf_htonl_var ORDER_LITTLE_ENDIAN x = builtin_bswap32 x"
| "bpf_htonl_var ORDER_BIG_ENDIAN x = x"

fun bpf_constant_ntohl :: "byte_order \<Rightarrow> u32 \<Rightarrow> u32" where
  "bpf_constant_ntohl ORDER_LITTLE_ENDIAN x = bpf_swab32 x"
| "bpf_constant_ntohl ORDER_BIG_ENDIAN x = x"

fun bpf_constant_htonl :: "byte_order \<Rightarrow> u32 \<Rightarrow> u32" where
  "bpf_constant_htonl ORDER_LITTLE_ENDIAN x = bpf_swab32 x"
| "bpf_constant_htonl ORDER_BIG_ENDIAN x = x"

fun bpf_be64_to_cpu_var :: "byte_order \<Rightarrow> u64 \<Rightarrow> u64" where
  "bpf_be64_to_cpu_var ORDER_LITTLE_ENDIAN x = builtin_bswap64 x"
| "bpf_be64_to_cpu_var ORDER_BIG_ENDIAN x = x"

fun bpf_cpu_to_be64_var :: "byte_order \<Rightarrow> u64 \<Rightarrow> u64" where
  "bpf_cpu_to_be64_var ORDER_LITTLE_ENDIAN x = builtin_bswap64 x"
| "bpf_cpu_to_be64_var ORDER_BIG_ENDIAN x = x"

fun bpf_constant_be64_to_cpu :: "byte_order \<Rightarrow> u64 \<Rightarrow> u64" where
  "bpf_constant_be64_to_cpu ORDER_LITTLE_ENDIAN x = bpf_swab64 x"
| "bpf_constant_be64_to_cpu ORDER_BIG_ENDIAN x = x"

fun bpf_constant_cpu_to_be64 :: "byte_order \<Rightarrow> u64 \<Rightarrow> u64" where
  "bpf_constant_cpu_to_be64 ORDER_LITTLE_ENDIAN x = bpf_swab64 x"
| "bpf_constant_cpu_to_be64 ORDER_BIG_ENDIAN x = x"

definition bpf_htons :: "byte_order \<Rightarrow> bool \<Rightarrow> u16 \<Rightarrow> u16" where
  "bpf_htons bo const_p x = (if const_p then bpf_constant_htons bo x else bpf_htons_var bo x)"

definition bpf_ntohs :: "byte_order \<Rightarrow> bool \<Rightarrow> u16 \<Rightarrow> u16" where
  "bpf_ntohs bo const_p x = (if const_p then bpf_constant_ntohs bo x else bpf_ntohs_var bo x)"

definition bpf_htonl :: "byte_order \<Rightarrow> bool \<Rightarrow> u32 \<Rightarrow> u32" where
  "bpf_htonl bo const_p x = (if const_p then bpf_constant_htonl bo x else bpf_htonl_var bo x)"

definition bpf_ntohl :: "byte_order \<Rightarrow> bool \<Rightarrow> u32 \<Rightarrow> u32" where
  "bpf_ntohl bo const_p x = (if const_p then bpf_constant_ntohl bo x else bpf_ntohl_var bo x)"

definition bpf_cpu_to_be64 :: "byte_order \<Rightarrow> bool \<Rightarrow> u64 \<Rightarrow> u64" where
  "bpf_cpu_to_be64 bo const_p x =
     (if const_p then bpf_constant_cpu_to_be64 bo x else bpf_cpu_to_be64_var bo x)"

definition bpf_be64_to_cpu :: "byte_order \<Rightarrow> bool \<Rightarrow> u64 \<Rightarrow> u64" where
  "bpf_be64_to_cpu bo const_p x =
     (if const_p then bpf_constant_be64_to_cpu bo x else bpf_be64_to_cpu_var bo x)"

text \<open>The bytes of a word in the memory of a host with the given byte order.\<close>

fun host_bytes :: "byte_order \<Rightarrow> 'a::len word \<Rightarrow> bytes" where
  "host_bytes ORDER_LITTLE_ENDIAN w = word_le w"
| "host_bytes ORDER_BIG_ENDIAN w = word_be w"

section \<open>The two byte swaps agree\<close>

lemma bit_bswap:
  assumes "8 dvd LENGTH('a::len)"
  shows "bit (le_word (rev (word_le (x :: 'a word))) :: 'a word) n \<longleftrightarrow>
     n < LENGTH('a) \<and> bit x (8 * (LENGTH('a) div 8 - 1 - n div 8) + n mod 8)"
proof (cases "n < LENGTH('a)")
  case True
  then have "n div 8 < LENGTH('a) div 8" using assms by (auto elim!: dvdE)
  then show ?thesis
    using True by (simp add: bit_le_word rev_nth nth_word_le bit_ucast_iff bit_drop_bit_eq Suc_diff_le
      del: div_less_dividend)
next
  case False
  then show ?thesis by (simp add: bit_le_word)
qed

lemmas bit_bswap_widths =
  bit_bswap [where 'a = 16, simplified]
  bit_bswap [where 'a = 32, simplified]
  bit_bswap [where 'a = 64, simplified]

lemma bit_bpf_mvb:
  assumes "b = LENGTH('a::len)" and "8 * n + 8 \<le> b" and "8 * m + 8 \<le> b"
  shows "bit (bpf_mvb (x :: 'a word) b n m) i \<longleftrightarrow> i div 8 = m \<and> bit x (8 * n + i mod 8)"
proof -
  have idx: "bit (bpf_mvb x b n m) i \<longleftrightarrow> 8 * m \<le> i \<and> i < b \<and> i - 8 * m < 8 \<and>
      bit x (i - 8 * m + 8 * n)"
  proof (cases "8 * m \<le> i")
    case True
    then obtain r where r: "i = 8 * m + r" using le_Suc_ex by blast
    obtain c where c: "b = 8 * n + 8 + c" using assms(2) le_Suc_ex by blast
    have "bit (bpf_mvb x b n m) i \<longleftrightarrow> i < b \<and> c + 8 * n + r < b \<and> bit x (r + 8 * n)"
      using assms(1) unfolding r c
      by (auto simp: bpf_mvb_def bit_push_bit_iff bit_drop_bit_eq possible_bit_word ac_simps)
    then show ?thesis using r c by auto
  next
    case False
    then show ?thesis by (simp add: bpf_mvb_def bit_push_bit_iff)
  qed
  show ?thesis
  proof (cases "i div 8 = m")
    case True
    then have "i = 8 * m + i mod 8" by auto
    moreover have "i mod 8 < 8" by simp
    ultimately obtain r where "i = 8 * m + r" "i mod 8 = r" "r < 8" by metis
    then show ?thesis using idx True assms by (simp add: add.commute)
  next
    case False
    then have "\<not> (8 * m \<le> i \<and> i - 8 * m < 8)" by auto
    then show ?thesis using idx False by auto
  qed
qed

lemma bpf_swab16_eq_bswap16: "bpf_swab16 x = builtin_bswap16 x"
proof (rule bit_word_eqI)
  fix n assume "n < LENGTH(16)"
  then consider "n < 8" | r where "n = 8 + r" "r < 8"
    using le_Suc_ex [of 8 n] by (cases "n < 8") auto
  then show "bit (bpf_swab16 x) n = bit (builtin_bswap16 x) n"
  proof cases
    case 1
    then show ?thesis
      unfolding bpf_swab16_def builtin_bswap16_def bpf_mvb_def
      by (simp add: bit_bswap_widths bit_or_iff bit_ucast_iff bit_push_bit_iff bit_drop_bit_eq
          ac_simps)
  next
    case 2
    moreover have "\<not> bit x (r + 16)" by (simp add: bit_word.rep_eq)
    ultimately show ?thesis
      unfolding bpf_swab16_def builtin_bswap16_def bpf_mvb_def
      by (simp add: bit_bswap_widths bit_or_iff bit_ucast_iff bit_push_bit_iff bit_drop_bit_eq
          ac_simps)
  qed
qed

lemma byte_index_cases:
  "(k::nat) < 4 \<Longrightarrow> k = 0 \<or> k = 1 \<or> k = 2 \<or> k = 3"
  "(k::nat) < 8 \<Longrightarrow> k = 0 \<or> k = 1 \<or> k = 2 \<or> k = 3 \<or> k = 4 \<or> k = 5 \<or> k = 6 \<or> k = 7"
  by linarith+

lemma bpf_swab32_eq_bswap32: "bpf_swab32 x = builtin_bswap32 x"
proof (rule bit_word_eqI)
  fix n assume "n < LENGTH(32)"
  then have n: "n < 32" and k: "n div 8 < 4" by simp_all
  then show "bit (bpf_swab32 x) n = bit (builtin_bswap32 x) n"
    unfolding bpf_swab32_def builtin_bswap32_def
    using byte_index_cases(1) [OF k] n
    by (elim disjE) (simp_all add: bit_bswap_widths bit_or_iff bit_bpf_mvb)
qed

lemma bpf_swab64_eq_bswap64: "bpf_swab64 x = builtin_bswap64 x"
proof (rule bit_word_eqI)
  fix n assume "n < LENGTH(64)"
  then have n: "n < 64" and k: "n div 8 < 8" by simp_all
  then show "bit (bpf_swab64 x) n = bit (builtin_bswap64 x) n"
    unfolding bpf_swab64_def builtin_bswap64_def
    using byte_index_cases(2) [OF k] n
    by (elim disjE) (simp_all add: bit_bswap_widths bit_or_iff bit_bpf_mvb)
qed

lemmas swab_eq_bswap [simp] =
  bpf_swab16_eq_bswap16 bpf_swab32_eq_bswap32 bpf_swab64_eq_bswap64

section \<open>Conversions are involutions and produce network order\<close>

lemma word_le_bswap:
  assumes "8 dvd LENGTH('a::len)"
  shows "word_le (le_word (rev (word_le (x :: 'a word))) :: 'a word) = rev (word_le x)"
  using assms by (intro word_le_le_word) simp

lemma bswap_involution [simp]:
  "builtin_bswap16 (builtin_bswap16 a) = a"
  "builtin_bswap32 (builtin_bswap32 b) = b"
  "builtin_bswap64 (builtin_bswap64 c) = c"
  by (simp_all add: builtin_bswap16_def builtin_bswap32_def builtin_bswap64_def word_le_bswap)

lemma word_le_bswap_widths [simp]:
  "word_le (builtin_bswap16 a) = word_be a"
  "word_le (builtin_bswap32 b) = word_be b"
  "word_le (builtin_bswap64 c) = word_be c"
  by (simp_all add: builtin_bswap16_def builtin_bswap32_def builtin_bswap64_def word_be_def
      word_le_bswap)

lemma htons_le [simp]:
  "bpf_htons ORDER_LITTLE_ENDIAN p x = builtin_bswap16 x"
  "bpf_ntohs ORDER_LITTLE_ENDIAN p x = builtin_bswap16 x"
  by (simp_all add: bpf_htons_def bpf_ntohs_def)

lemma le_word_be_word16: "(le_word bs :: u16) = builtin_bswap16 (be_word bs)" if "length bs = 2"
  using that by (simp add: builtin_bswap16_def be_word_def word_le_le_word)

text \<open>
  The constant and the run-time branch of every conversion macro agree, whichever branch
  the compiler selects: the shift-and-or swap of the header computes the byte swap of the builtin,
  on either host byte order.
\<close>

lemma endian_branches_agree:
  "bpf_htons bo True x = bpf_htons bo False x \<and>
   bpf_ntohs bo True x = bpf_ntohs bo False x \<and>
   bpf_htonl bo True y = bpf_htonl bo False y \<and>
   bpf_ntohl bo True y = bpf_ntohl bo False y \<and>
   bpf_cpu_to_be64 bo True z = bpf_cpu_to_be64 bo False z \<and>
   bpf_be64_to_cpu bo True z = bpf_be64_to_cpu bo False z"
  by (cases bo)
    (simp_all add: bpf_htons_def bpf_ntohs_def bpf_htonl_def bpf_ntohl_def bpf_cpu_to_be64_def
      bpf_be64_to_cpu_def)

text \<open>
  C40. The conversions to network order put the bytes of the value in memory most significant
  first on either host, and converting back gives the value again.
\<close>

theorem endian_network_order:
  "host_bytes bo (bpf_htons bo p x) = word_be x \<and> bpf_ntohs bo q (bpf_htons bo p x) = x \<and>
   host_bytes bo (bpf_htonl bo p y) = word_be y \<and> bpf_ntohl bo q (bpf_htonl bo p y) = y \<and>
   host_bytes bo (bpf_cpu_to_be64 bo p z) = word_be z \<and>
   bpf_be64_to_cpu bo q (bpf_cpu_to_be64 bo p z) = z"
  by (cases bo)
    (simp_all add: bpf_htons_def bpf_ntohs_def bpf_htonl_def bpf_ntohl_def bpf_cpu_to_be64_def
      bpf_be64_to_cpu_def)

end
