(* ===== verification/CoreRead.thy ===== *)
theory CoreRead
  imports Kernel Endian
begin

text \<open>
  The relocatable reads of \<^verbatim>\<open>src/bpf/headers/bpf_core_read.h\<close>. The first part is the
  preprocessor layer: argument counting, selection of the last and of all but the last argument,
  and the expansion of \<^verbatim>\<open>BPF_CORE_READ\<close> and \<^verbatim>\<open>BPF_CORE_READ_INTO\<close> into a
  sequence of read statements; an expansion that names a macro that does not exist is \<open>None\<close>. The
  second part gives the readers of kernel memory, of user memory and of strings, by the
  descriptions in \<^verbatim>\<open>src/bpf/headers/bpf_helper_defs.h\<close>, runs such a sequence with them and
  relates it to the pointer chase \<open>chase\<close> the header's comment describes; \<open>BPF_CORE_READ\<close>, which is
  what the probes use, is that chase. The third part is the extraction of bit-fields. \<open>um\<close> is the
  memory of the current task.
\<close>

section \<open>The preprocessor layer\<close>

text \<open>
  An argument of a counting macro is a macro argument, one of the counts appended by the header,
  or the letter \<^verbatim>\<open>N\<close>.
\<close>

datatype 'a pp_tok = Under | Arg 'a | Num nat | TokN

definition pp_nth :: "'a pp_tok list \<Rightarrow> 'a pp_tok option" where
  "pp_nth xs = (if 11 < length xs then Some (xs ! 11) else None)"

definition pp_narg :: "'a list \<Rightarrow> 'a pp_tok option" where
  "pp_narg args =
     pp_nth (Under # map Arg args @
             [Num 10, Num 9, Num 8, Num 7, Num 6, Num 5, Num 4, Num 3, Num 2, Num 1, Num 0])"

definition pp_empty :: "'a list \<Rightarrow> 'a pp_tok option" where
  "pp_empty args =
     pp_nth (Under # map Arg args @
             [TokN, TokN, TokN, TokN, TokN, TokN, TokN, TokN, TokN, TokN, Num 0])"

text \<open>
  \<^verbatim>\<open>___apply(fn, n)\<close> pastes the count to a macro name: it selects a member of the family
  \<open>f\<close>, which exists only for the numbers the header defines.
\<close>

definition pp_apply :: "(nat \<Rightarrow> 'b option) \<Rightarrow> 'a pp_tok option \<Rightarrow> 'b option" where
  "pp_apply f n = (case n of Some (Num i) \<Rightarrow> f i | _ \<Rightarrow> None)"

definition pp_last_n :: "'a list \<Rightarrow> nat \<Rightarrow> 'a option" where
  "pp_last_n args n =
     (if 1 \<le> n \<and> n \<le> 10 \<and> length args = n then Some (args ! (n - 1)) else None)"

definition pp_last :: "'a list \<Rightarrow> 'a option" where
  "pp_last args = pp_apply (pp_last_n args) (pp_narg args)"

definition pp_nolast_n :: "'a list \<Rightarrow> nat \<Rightarrow> 'a list option" where
  "pp_nolast_n args n =
     (if 2 \<le> n \<and> n \<le> 10 \<and> length args = n then Some (take (n - 1) args) else None)"

definition pp_nolast :: "'a list \<Rightarrow> 'a list option" where
  "pp_nolast args = pp_apply (pp_nolast_n args) (pp_narg args)"

text \<open>The C expression \<^verbatim>\<open>a->b->c\<close> and its type are named by the accessors, in order.\<close>

definition pp_arrow_n :: "'a list \<Rightarrow> nat \<Rightarrow> 'a list option" where
  "pp_arrow_n args n = (if 1 \<le> n \<and> n \<le> 10 \<and> length args = n then Some args else None)"

definition pp_arrow :: "'a list \<Rightarrow> 'a list option" where
  "pp_arrow args = pp_apply (pp_arrow_n args) (pp_narg args)"

text \<open>
  A statement \<^verbatim>\<open>___read(fn, dst, src_type, src, accessor)\<close>: the destination is the local
  \<^verbatim>\<open>__t\<close> or the final one, the source is the first argument of the macro or
  \<^verbatim>\<open>__t\<close>, viewed at the type of an arrow expression.
\<close>

datatype rd_dst = DstT | DstFinal

datatype rd_src = SrcFirst | SrcT

datatype 'a rd_stmt = Read (rd_fn: string) (rd_dst: rd_dst) (rd_type: "'a list") (rd_src: rd_src)
  (rd_acc: 'a)

definition pp_rd_first :: "string \<Rightarrow> 'a \<Rightarrow> 'a \<Rightarrow> 'a rd_stmt list option" where
  "pp_rd_first fn src a =
     (case pp_arrow [src] of Some ty \<Rightarrow> Some [Read fn DstT ty SrcFirst a] | None \<Rightarrow> None)"

definition pp_rd_last :: "string \<Rightarrow> 'a list \<Rightarrow> 'a rd_stmt list option" where
  "pp_rd_last fn args =
     (case pp_nolast args of
        None \<Rightarrow> None
      | Some pre \<Rightarrow>
          (case (pp_arrow pre, pp_last args) of
             (Some ty, Some a) \<Rightarrow> Some [Read fn DstT ty SrcT a]
           | _ \<Rightarrow> None))"

fun pp_rd_p :: "nat \<Rightarrow> string \<Rightarrow> 'a list \<Rightarrow> 'a rd_stmt list option" where
  "pp_rd_p 0 fn args = None"
| "pp_rd_p (Suc 0) fn args = (case args of [src, a] \<Rightarrow> pp_rd_first fn src a | _ \<Rightarrow> None)"
| "pp_rd_p (Suc (Suc n)) fn args =
     (if Suc (Suc n) \<le> 9 then
        (case pp_nolast args of
           None \<Rightarrow> None
         | Some pre \<Rightarrow>
             (case (pp_rd_p (Suc n) fn pre, pp_rd_last fn args) of
                (Some ss, Some s) \<Rightarrow> Some (ss @ s)
              | _ \<Rightarrow> None))
      else None)"

definition pp_read_ptrs :: "string \<Rightarrow> 'a \<Rightarrow> 'a list \<Rightarrow> 'a rd_stmt list option" where
  "pp_read_ptrs fn src accs = pp_apply (\<lambda>n. pp_rd_p n fn (src # accs)) (pp_narg accs)"

definition pp_core_read0 :: "string \<Rightarrow> string \<Rightarrow> 'a \<Rightarrow> 'a \<Rightarrow> 'a rd_stmt list option" where
  "pp_core_read0 fn fn_ptr src a =
     (case pp_arrow [src] of Some ty \<Rightarrow> Some [Read fn DstFinal ty SrcFirst a] | None \<Rightarrow> None)"

definition pp_core_readN :: "string \<Rightarrow> string \<Rightarrow> 'a \<Rightarrow> 'a list \<Rightarrow> 'a rd_stmt list option" where
  "pp_core_readN fn fn_ptr src accs =
     (case (pp_nolast accs, pp_last accs) of
        (Some pre, Some a) \<Rightarrow>
          (case (pp_read_ptrs fn_ptr src pre, pp_arrow (src # pre)) of
             (Some ss, Some ty) \<Rightarrow> Some (ss @ [Read fn DstFinal ty SrcT a])
           | _ \<Rightarrow> None)
      | _ \<Rightarrow> None)"

definition pp_core_read :: "string \<Rightarrow> string \<Rightarrow> 'a \<Rightarrow> 'a \<Rightarrow> 'a list \<Rightarrow> 'a rd_stmt list option" where
  "pp_core_read fn fn_ptr src a accs =
     (case pp_empty accs of
        Some (Num i) \<Rightarrow> if i = 0 \<and> accs = [] then pp_core_read0 fn fn_ptr src a else None
      | Some TokN \<Rightarrow> pp_core_readN fn fn_ptr src (a # accs)
      | _ \<Rightarrow> None)"

definition pp_BPF_CORE_READ_INTO :: "'a \<Rightarrow> 'a \<Rightarrow> 'a list \<Rightarrow> 'a rd_stmt list option" where
  "pp_BPF_CORE_READ_INTO src a accs =
     pp_core_read ''bpf_core_read'' ''bpf_core_read'' src a accs"

definition pp_BPF_CORE_READ_USER_INTO :: "'a \<Rightarrow> 'a \<Rightarrow> 'a list \<Rightarrow> 'a rd_stmt list option" where
  "pp_BPF_CORE_READ_USER_INTO src a accs =
     pp_core_read ''bpf_core_read_user'' ''bpf_core_read_user'' src a accs"

definition pp_BPF_PROBE_READ_INTO :: "'a \<Rightarrow> 'a \<Rightarrow> 'a list \<Rightarrow> 'a rd_stmt list option" where
  "pp_BPF_PROBE_READ_INTO src a accs =
     pp_core_read ''bpf_probe_read'' ''bpf_probe_read'' src a accs"

definition pp_BPF_PROBE_READ_USER_INTO :: "'a \<Rightarrow> 'a \<Rightarrow> 'a list \<Rightarrow> 'a rd_stmt list option" where
  "pp_BPF_PROBE_READ_USER_INTO src a accs =
     pp_core_read ''bpf_probe_read_user'' ''bpf_probe_read_user'' src a accs"

definition pp_BPF_CORE_READ_STR_INTO :: "'a \<Rightarrow> 'a \<Rightarrow> 'a list \<Rightarrow> 'a rd_stmt list option" where
  "pp_BPF_CORE_READ_STR_INTO src a accs =
     pp_core_read ''bpf_core_read_str'' ''bpf_core_read'' src a accs"

definition pp_BPF_CORE_READ_USER_STR_INTO :: "'a \<Rightarrow> 'a \<Rightarrow> 'a list \<Rightarrow> 'a rd_stmt list option" where
  "pp_BPF_CORE_READ_USER_STR_INTO src a accs =
     pp_core_read ''bpf_core_read_user_str'' ''bpf_core_read_user'' src a accs"

definition pp_BPF_PROBE_READ_STR_INTO :: "'a \<Rightarrow> 'a \<Rightarrow> 'a list \<Rightarrow> 'a rd_stmt list option" where
  "pp_BPF_PROBE_READ_STR_INTO src a accs =
     pp_core_read ''bpf_probe_read_str'' ''bpf_probe_read'' src a accs"

definition pp_BPF_PROBE_READ_USER_STR_INTO :: "'a \<Rightarrow> 'a \<Rightarrow> 'a list \<Rightarrow> 'a rd_stmt list option" where
  "pp_BPF_PROBE_READ_USER_STR_INTO src a accs =
     pp_core_read ''bpf_probe_read_user_str'' ''bpf_probe_read_user'' src a accs"

text \<open>
  \<^verbatim>\<open>BPF_CORE_READ\<close> and its variants declare the result \<^verbatim>\<open>__r\<close> at the type of
  the whole arrow expression before they read into it.
\<close>

definition pp_declare_r ::
    "('a \<Rightarrow> 'a \<Rightarrow> 'a list \<Rightarrow> 'a rd_stmt list option) \<Rightarrow> 'a \<Rightarrow> 'a \<Rightarrow> 'a list \<Rightarrow> 'a rd_stmt list option" where
  "pp_declare_r into src a accs =
     (case pp_arrow (src # a # accs) of None \<Rightarrow> None | Some _ \<Rightarrow> into src a accs)"

definition pp_BPF_CORE_READ :: "'a \<Rightarrow> 'a \<Rightarrow> 'a list \<Rightarrow> 'a rd_stmt list option" where
  "pp_BPF_CORE_READ = pp_declare_r pp_BPF_CORE_READ_INTO"

definition pp_BPF_CORE_READ_USER :: "'a \<Rightarrow> 'a \<Rightarrow> 'a list \<Rightarrow> 'a rd_stmt list option" where
  "pp_BPF_CORE_READ_USER = pp_declare_r pp_BPF_CORE_READ_USER_INTO"

definition pp_BPF_PROBE_READ :: "'a \<Rightarrow> 'a \<Rightarrow> 'a list \<Rightarrow> 'a rd_stmt list option" where
  "pp_BPF_PROBE_READ = pp_declare_r pp_BPF_PROBE_READ_INTO"

definition pp_BPF_PROBE_READ_USER :: "'a \<Rightarrow> 'a \<Rightarrow> 'a list \<Rightarrow> 'a rd_stmt list option" where
  "pp_BPF_PROBE_READ_USER = pp_declare_r pp_BPF_PROBE_READ_USER_INTO"

section \<open>Lemmas on the preprocessor layer\<close>

lemma nth_count_down:
  assumes "n \<le> 10"
  shows "[Num 10, Num 9, Num 8, Num 7, Num 6, Num 5, Num 4, Num 3, Num 2, Num 1, Num 0] ! (10 - n)
    = Num n"
proof -
  from assms have "n \<in> {0, 1, 2, 3, 4, 5, 6, 7, 8, 9, 10}"
    unfolding insert_iff empty_iff by presburger
  then show ?thesis by (elim insertE emptyE) simp_all
qed

lemma pp_narg_ok: "length args \<le> 10 \<Longrightarrow> pp_narg args = Some (Num (length args))"
  unfolding pp_narg_def pp_nth_def
  using nth_count_down [of "length args"]
  by (cases "length args = 10") (auto simp: nth_append nth_Cons' numeral_eq_Suc)

lemma pp_narg_many:
  assumes "10 < length args"
  shows "pp_narg args = Some (Arg (args ! 10))"
  using assms by (simp add: pp_narg_def pp_nth_def nth_append nth_Cons' del: nth_Cons_numeral)

lemma pp_empty_Nil: "pp_empty [] = Some (Num 0)"
  by (simp add: pp_empty_def pp_nth_def)

lemma pp_empty_Cons:
  assumes "accs \<noteq> []" and "length accs \<le> 10"
  shows "pp_empty accs = Some TokN"
proof -
  obtain n where n: "length accs = Suc n" "n \<le> 9"
    using assms by (cases accs) auto
  have N: "(replicate 10 TokN @ [Num 0]) ! (9 - n) = TokN" for n :: nat
    by (simp add: nth_append)
  have "(map Arg accs @ replicate 10 TokN @ [Num 0]) ! 10 = TokN"
    using n N [of n] by (simp add: nth_append)
  then show ?thesis
    unfolding pp_empty_def pp_nth_def using n by (simp add: numeral_eq_Suc)
qed

lemma pp_last_ok: "args \<noteq> [] \<Longrightarrow> length args \<le> 10 \<Longrightarrow> pp_last args = Some (last args)"
  by (cases args) (auto simp: pp_last_def pp_apply_def pp_narg_ok pp_last_n_def last_conv_nth)

lemma pp_nolast_ok:
  "2 \<le> length args \<Longrightarrow> length args \<le> 10 \<Longrightarrow> pp_nolast args = Some (butlast args)"
  by (simp add: pp_nolast_def pp_apply_def pp_narg_ok pp_nolast_n_def butlast_conv_take)

lemma pp_arrow_ok: "args \<noteq> [] \<Longrightarrow> length args \<le> 10 \<Longrightarrow> pp_arrow args = Some args"
  by (cases args) (auto simp: pp_arrow_def pp_apply_def pp_narg_ok pp_arrow_n_def)

lemma pp_arrow_many: "10 < length args \<Longrightarrow> pp_arrow args = None"
  by (simp add: pp_arrow_def pp_apply_def pp_narg_many)

lemmas pp_ok = pp_narg_ok pp_empty_Nil pp_empty_Cons pp_last_ok pp_nolast_ok pp_arrow_ok

section \<open>What the expansion should be\<close>

text \<open>
  Statement \<open>i\<close> of a read through the accessors \<open>accs\<close> reads the \<open>i\<close>-th accessor of the object
  reached so far, at the type of the arrow expression of the accessors before it. All but the last
  statement read a pointer into \<^verbatim>\<open>__t\<close>.
\<close>

definition read_chain ::
    "string \<Rightarrow> string \<Rightarrow> 'a \<Rightarrow> 'a list \<Rightarrow> 'a rd_stmt list" where
  "read_chain fn fn_ptr src accs =
     map (\<lambda>i. Read (if Suc i = length accs then fn else fn_ptr)
                   (if Suc i = length accs then DstFinal else DstT)
                   (src # take i accs)
                   (if i = 0 then SrcFirst else SrcT) (accs ! i)) [0..<length accs]"

lemma pp_rd_p_chain:
  "1 \<le> n \<Longrightarrow> n \<le> 9 \<Longrightarrow> length accs = n \<Longrightarrow>
     pp_rd_p n fn (src # accs) =
       Some (map (\<lambda>i. Read fn DstT (src # take i accs) (if i = 0 then SrcFirst else SrcT) (accs ! i))
                 [0..<n])"
proof (induction n arbitrary: accs rule: less_induct)
  case (less n)
  show ?case
  proof (cases "n = 1")
    case True
    with less.prems obtain a where "accs = [a]" by (auto simp: length_Suc_conv)
    with True show ?thesis by (simp add: pp_rd_first_def pp_ok)
  next
    case False
    then obtain m where m: "n = Suc (Suc m)"
      using less.prems(1) by (metis One_nat_def Suc_diff_1 Suc_le_eq not0_implies_Suc)
    have pre: "pp_nolast (src # accs) = Some (src # butlast accs)"
      using less.prems m by (subst pp_nolast_ok) auto
    have len: "length (butlast accs) = Suc m"
      using less.prems m by simp
    have IH: "pp_rd_p (Suc m) fn (src # butlast accs) =
        Some (map (\<lambda>i. Read fn DstT (src # take i (butlast accs))
                         (if i = 0 then SrcFirst else SrcT) (butlast accs ! i)) [0..<Suc m])"
      using less.prems m len by (intro less.IH) auto
    have eq: "map (\<lambda>i. Read fn DstT (src # take i (butlast accs))
                         (if i = 0 then SrcFirst else SrcT) (butlast accs ! i)) [0..<Suc m] =
              map (\<lambda>i. Read fn DstT (src # take i accs)
                         (if i = 0 then SrcFirst else SrcT) (accs ! i)) [0..<Suc m]"
      using less.prems m by (auto simp: nth_butlast take_butlast)
    have lst: "pp_rd_last fn (src # accs) =
        Some [Read fn DstT (src # butlast accs) SrcT (last accs)]"
      using less.prems m len pre
      by (auto simp: pp_rd_last_def pp_ok)
    have "last accs = accs ! Suc m"
      using less.prems m by (subst last_conv_nth) auto
    moreover have "butlast accs = take (Suc m) accs"
      using less.prems m by (simp add: butlast_conv_take)
    ultimately show ?thesis
      using less.prems m IH eq lst pre by simp
  qed
qed

lemma pp_core_read_chain:
  assumes "length accs \<le> 9"
  shows "pp_core_read fn fn_ptr src a accs = Some (read_chain fn fn_ptr src (a # accs))"
proof (cases "accs = []")
  case True
  then show ?thesis
    by (simp add: pp_core_read_def pp_core_read0_def pp_ok read_chain_def)
next
  case False
  define xs where "xs = a # accs"
  have len: "2 \<le> length xs" "length xs \<le> 10" using False assms by (cases accs; simp add: xs_def)+
  then have ptrs: "pp_read_ptrs fn_ptr src (butlast xs) =
      Some (map (\<lambda>i. Read fn_ptr DstT (src # take i (butlast xs))
                       (if i = 0 then SrcFirst else SrcT) (butlast xs ! i)) [0..<length xs - 1])"
    unfolding pp_read_ptrs_def pp_apply_def
    by (simp add: pp_ok pp_rd_p_chain)
  have "pp_core_readN fn fn_ptr src xs = Some (read_chain fn fn_ptr src xs)"
  proof -
    have upto: "[0..<length xs] = [0..<length xs - 1] @ [length xs - 1]"
      using len upt_Suc_append [of 0 "length xs - 1"] by (cases xs) auto
    have eq: "map (\<lambda>i. Read fn_ptr DstT (src # take i (butlast xs))
                       (if i = 0 then SrcFirst else SrcT) (butlast xs ! i)) [0..<length xs - 1] =
              map (\<lambda>i. Read (if Suc i = length xs then fn else fn_ptr)
                   (if Suc i = length xs then DstFinal else DstT)
                   (src # take i xs)
                   (if i = 0 then SrcFirst else SrcT) (xs ! i)) [0..<length xs - 1]"
      by (auto simp: nth_butlast take_butlast)
    have ne: "xs \<noteq> []" by (simp add: xs_def)
    have "last xs = xs ! (length xs - 1)" "butlast xs = take (length xs - 1) xs"
      using ne by (auto simp: last_conv_nth butlast_conv_take)
    moreover have "pp_arrow (src # butlast xs) = Some (src # butlast xs)"
      using len by (simp add: pp_ok)
    ultimately show ?thesis
      using len ne ptrs eq
      by (simp add: pp_core_readN_def pp_ok read_chain_def upto)
  qed
  then show ?thesis
    using False assms by (simp add: pp_core_read_def pp_ok xs_def)
qed

section \<open>The kernel read\<close>

definition bpf_core_read :: "kenv \<Rightarrow> bytes \<Rightarrow> nat \<Rightarrow> u64 \<Rightarrow> int \<times> bytes" where
  "bpf_core_read k dst sz src = bpf_probe_read_kernel k dst sz src"

section \<open>Reads of user memory and of strings\<close>

definition bpf_probe_read_user :: "(u64 \<Rightarrow> u8 option) \<Rightarrow> kenv \<Rightarrow> bytes \<Rightarrow> nat \<Rightarrow> u64 \<Rightarrow> int \<times> bytes" where
  "bpf_probe_read_user um k dst sz unsafe_ptr =
     (case fetch (k\<lparr>k_mem := um\<rparr>) unsafe_ptr sz of
        Some bs \<Rightarrow> (0, overlay bs dst)
      | None \<Rightarrow> (k_efault k, overlay (k_fault k (take sz dst)) dst))"

text \<open>
  The bytes of a string with its terminating NUL, cut after \<open>n\<close> characters; \<open>None\<close> if one of them
  faults.
\<close>

fun str_bytes :: "(u64 \<Rightarrow> u8 option) \<Rightarrow> u64 \<Rightarrow> nat \<Rightarrow> bytes option" where
  "str_bytes m p 0 = Some [0]"
| "str_bytes m p (Suc n) =
     (case m p of
        None \<Rightarrow> None
      | Some b \<Rightarrow> if b = 0 then Some [0] else map_option (Cons b) (str_bytes m (p + 1) n))"

definition read_str :: "(u64 \<Rightarrow> u8 option) \<Rightarrow> kenv \<Rightarrow> bytes \<Rightarrow> nat \<Rightarrow> u64 \<Rightarrow> int \<times> bytes" where
  "read_str m k dst sz unsafe_ptr =
     (case (if sz = 0 then None else str_bytes m unsafe_ptr (sz - 1)) of
        Some bs \<Rightarrow> (int (length bs), overlay bs dst)
      | None \<Rightarrow> (k_efault k, overlay (k_fault k (take sz dst)) dst))"

definition bpf_probe_read_kernel_str :: "kenv \<Rightarrow> bytes \<Rightarrow> nat \<Rightarrow> u64 \<Rightarrow> int \<times> bytes" where
  "bpf_probe_read_kernel_str k dst sz unsafe_ptr = read_str (k_mem k) k dst sz unsafe_ptr"

definition bpf_probe_read_str :: "kenv \<Rightarrow> bytes \<Rightarrow> nat \<Rightarrow> u64 \<Rightarrow> int \<times> bytes" where
  "bpf_probe_read_str k dst sz unsafe_ptr = read_str (k_mem k) k dst sz unsafe_ptr"

definition bpf_probe_read_user_str :: "(u64 \<Rightarrow> u8 option) \<Rightarrow> kenv \<Rightarrow> bytes \<Rightarrow> nat \<Rightarrow> u64 \<Rightarrow> int \<times> bytes" where
  "bpf_probe_read_user_str um k dst sz unsafe_ptr = read_str um k dst sz unsafe_ptr"

definition bpf_core_read_user :: "(u64 \<Rightarrow> u8 option) \<Rightarrow> kenv \<Rightarrow> bytes \<Rightarrow> nat \<Rightarrow> u64 \<Rightarrow> int \<times> bytes" where
  "bpf_core_read_user um k dst sz src = bpf_probe_read_user um k dst sz src"

definition bpf_core_read_str :: "kenv \<Rightarrow> bytes \<Rightarrow> nat \<Rightarrow> u64 \<Rightarrow> int \<times> bytes" where
  "bpf_core_read_str k dst sz src = bpf_probe_read_kernel_str k dst sz src"

definition bpf_core_read_user_str :: "(u64 \<Rightarrow> u8 option) \<Rightarrow> kenv \<Rightarrow> bytes \<Rightarrow> nat \<Rightarrow> u64 \<Rightarrow> int \<times> bytes" where
  "bpf_core_read_user_str um k dst sz src = bpf_probe_read_user_str um k dst sz src"

lemma str_bytes_shape:
  "str_bytes m p n = Some bs \<Longrightarrow>
     \<exists>cs. bs = cs @ [0] \<and> length cs \<le> n \<and> 0 \<notin> set cs \<and>
       (\<forall>i < length cs. m (p + of_nat i) = Some (cs ! i)) \<and>
       (length cs < n \<longrightarrow> m (p + of_nat (length cs)) = Some 0)"
proof (induction m p n arbitrary: bs rule: str_bytes.induct)
  case (2 m p n)
  then obtain b where b: "m p = Some b" by (auto split: option.splits)
  show ?case
  proof (cases "b = 0")
    case True
    with 2 b show ?thesis by auto
  next
    case False
    with 2 b obtain bs' where bs: "str_bytes m (p + 1) n = Some bs'" "bs = b # bs'" by auto
    from "2.IH" [OF b False this(1)] obtain cs where cs: "bs' = cs @ [0]" "length cs \<le> n" "0 \<notin> set cs"
      "\<And>i. i < length cs \<Longrightarrow> m (p + 1 + of_nat i) = Some (cs ! i)"
      "length cs < n \<Longrightarrow> m (p + 1 + of_nat (length cs)) = Some 0" by auto
    have "m (p + of_nat i) = Some ((b # cs) ! i)" if "i < length (b # cs)" for i
      using that b cs(4) [of "i - 1"] by (cases i) (auto simp: add.assoc)
    with bs cs False show ?thesis
      by (intro exI [of _ "b # cs"]) (auto simp: add.assoc)
  qed
qed auto

text \<open>
  A string read that succeeds returns the length of what it wrote: a prefix of the string in memory
  without NUL, as long as it fits, and one NUL; the rest of the destination is unchanged.
\<close>

lemma read_str_result:
  assumes "read_str m k dst sz p = (r, dst')" and "0 \<le> r" and "k_efault k < 0" and "sz \<le> length dst"
  shows "\<exists>cs. dst' = cs @ [0] @ drop (Suc (length cs)) dst \<and> r = int (Suc (length cs)) \<and> length cs < sz \<and>
    0 \<notin> set cs \<and> (\<forall>i < length cs. m (p + of_nat i) = Some (cs ! i))"
proof -
  from assms(1-3) obtain bs where bs: "sz \<noteq> 0" "str_bytes m p (sz - 1) = Some bs"
    "r = int (length bs)" "dst' = overlay bs dst"
    by (auto simp: read_str_def split: option.splits if_splits)
  from str_bytes_shape [OF bs(2)] obtain cs where "bs = cs @ [0]" "length cs \<le> sz - 1" "0 \<notin> set cs"
    "\<forall>i < length cs. m (p + of_nat i) = Some (cs ! i)" by auto
  with bs show ?thesis by (intro exI [of _ cs]) (auto simp: overlay_def)
qed

section \<open>Running the reads\<close>

text \<open>What a reader named in a statement does.\<close>

type_synonym reader = "bytes \<Rightarrow> nat \<Rightarrow> u64 \<Rightarrow> int \<times> bytes"

definition reader_of :: "(u64 \<Rightarrow> u8 option) \<Rightarrow> kenv \<Rightarrow> string \<Rightarrow> reader option" where
  "reader_of um k fn =
     map_of [(''bpf_core_read'', bpf_core_read k), (''bpf_core_read_user'', bpf_core_read_user um k),
             (''bpf_core_read_str'', bpf_core_read_str k),
             (''bpf_core_read_user_str'', bpf_core_read_user_str um k),
             (''bpf_probe_read'', bpf_probe_read k), (''bpf_probe_read_user'', bpf_probe_read_user um k),
             (''bpf_probe_read_str'', bpf_probe_read_str k),
             (''bpf_probe_read_user_str'', bpf_probe_read_user_str um k)] fn"

text \<open>
  Running the statements of an expansion: the state is the local \<^verbatim>\<open>__t\<close>, the destination and the
  value of the last call, which is the value of the macro.
\<close>

fun rd_run ::
    "(string \<Rightarrow> reader option) \<Rightarrow> ('a list \<Rightarrow> 'a \<Rightarrow> nat) \<Rightarrow> u64 \<Rightarrow> 'a rd_stmt list \<Rightarrow> int \<times> bytes \<times> bytes \<Rightarrow>
       (int \<times> bytes \<times> bytes) option" where
  "rd_run rd off src [] st = Some st"
| "rd_run rd off src (s # ss) (r, t, dst) =
     (case rd (rd_fn s) of
        None \<Rightarrow> None
      | Some f \<Rightarrow>
          (let base = (case rd_src s of SrcFirst \<Rightarrow> src | SrcT \<Rightarrow> le_word t);
               addr = base + of_nat (off (rd_type s) (rd_acc s))
           in case rd_dst s of
                DstT \<Rightarrow> (let (r', t') = f t (length t) addr in rd_run rd off src ss (r', t', dst))
              | DstFinal \<Rightarrow> (let (r', dst') = f dst (length dst) addr in rd_run rd off src ss (r', t, dst'))))"

text \<open>The pointer chase with one reader for the pointers and one for the last member.\<close>

fun chase :: "reader \<Rightarrow> reader \<Rightarrow> u64 \<Rightarrow> nat list \<Rightarrow> int \<Rightarrow> bytes \<Rightarrow> bytes \<Rightarrow> int \<times> bytes" where
  "chase rp rf p [] r t dst = (r, dst)"
| "chase rp rf p [off] r t dst = rf dst (length dst) (p + of_nat off)"
| "chase rp rf p (off # off' # offs) r t dst =
     (let (r', t') = rp t (length t) (p + of_nat off)
      in chase rp rf (le_word t') (off' # offs) r' t' dst)"

lemma chase_last: "offs \<noteq> [] \<Longrightarrow> \<exists>q. chase rp rf p offs r t dst = rf dst (length dst) q"
  by (induction rp rf p offs r t dst rule: chase.induct) (auto simp: Let_def split: prod.splits)

fun path_offsets :: "('a list \<Rightarrow> 'a \<Rightarrow> nat) \<Rightarrow> 'a list \<Rightarrow> 'a list \<Rightarrow> nat list" where
  "path_offsets off ty [] = []"
| "path_offsets off ty (a # accs) = off ty a # path_offsets off (ty @ [a]) accs"

fun chain_from :: "string \<Rightarrow> string \<Rightarrow> 'a list \<Rightarrow> rd_src \<Rightarrow> 'a list \<Rightarrow> 'a rd_stmt list" where
  "chain_from fn fn_ptr ty src [] = []"
| "chain_from fn fn_ptr ty src [a] = [Read fn DstFinal ty src a]"
| "chain_from fn fn_ptr ty src (a # b # accs) =
     Read fn_ptr DstT ty src a # chain_from fn fn_ptr (ty @ [a]) SrcT (b # accs)"

lemma nth_chain_from:
  "length (chain_from fn fn_ptr ty src accs) = length accs"
  "i < length accs \<Longrightarrow> chain_from fn fn_ptr ty src accs ! i =
     Read (if Suc i = length accs then fn else fn_ptr) (if Suc i = length accs then DstFinal else DstT)
       (ty @ take i accs) (if i = 0 then src else SrcT) (accs ! i)"
proof (induction fn fn_ptr ty src accs arbitrary: i rule: chain_from.induct)
  case (3 fn fn_ptr ty src a b accs)
  { case 1 then show ?case using 3(1) by simp }
  { case 2 then show ?case using 3(2) by (cases i) auto }
qed auto

lemma read_chain_from: "read_chain fn fn_ptr src accs = chain_from fn fn_ptr [src] SrcFirst accs"
  by (rule nth_equalityI) (auto simp: read_chain_def nth_chain_from)

lemma rd_run_chain:
  assumes "rd fn = Some rf" and "rd fn_ptr = Some rp" and "accs \<noteq> []"
  shows "\<exists>t'. rd_run rd off p (chain_from fn fn_ptr ty src accs) (r, t, dst) =
    (let (r', dst') = chase rp rf (case src of SrcFirst \<Rightarrow> p | SrcT \<Rightarrow> le_word t)
                        (path_offsets off ty accs) r t dst
     in Some (r', t', dst'))"
  using assms
proof (induction fn fn_ptr ty src accs arbitrary: r t rule: chain_from.induct)
  case (3 fn fn_ptr ty src a b accs)
  define base where "base = (case src of SrcFirst \<Rightarrow> p | SrcT \<Rightarrow> le_word t)"
  obtain r1 t1 where 1: "rp t (length t) (base + of_nat (off ty a)) = (r1, t1)" by fastforce
  from "3.IH" [of r1 t1] "3.prems" obtain t' where
    "rd_run rd off p (chain_from fn fn_ptr (ty @ [a]) SrcT (b # accs)) (r1, t1, dst) =
      (let (r', dst') = chase rp rf (le_word t1) (path_offsets off (ty @ [a]) (b # accs)) r1 t1 dst
       in Some (r', t', dst'))" by auto
  with 1 "3.prems" show ?case by (auto simp: base_def [symmetric] Let_def)
qed (auto split: rd_src.split prod.split)

text \<open>The eight macros that read into given storage, with the readers they chase pointers with.\<close>

definition into_macros ::
    "(u64 \<Rightarrow> u8 option) \<Rightarrow> kenv \<Rightarrow>
       (('a \<Rightarrow> 'a \<Rightarrow> 'a list \<Rightarrow> 'a rd_stmt list option) \<times> reader \<times> reader) list" where
  "into_macros um k =
     [(pp_BPF_CORE_READ_INTO, bpf_core_read k, bpf_core_read k),
      (pp_BPF_CORE_READ_USER_INTO, bpf_core_read_user um k, bpf_core_read_user um k),
      (pp_BPF_PROBE_READ_INTO, bpf_probe_read k, bpf_probe_read k),
      (pp_BPF_PROBE_READ_USER_INTO, bpf_probe_read_user um k, bpf_probe_read_user um k),
      (pp_BPF_CORE_READ_STR_INTO, bpf_core_read k, bpf_core_read_str k),
      (pp_BPF_CORE_READ_USER_STR_INTO, bpf_core_read_user um k, bpf_core_read_user_str um k),
      (pp_BPF_PROBE_READ_STR_INTO, bpf_probe_read k, bpf_probe_read_str k),
      (pp_BPF_PROBE_READ_USER_STR_INTO, bpf_probe_read_user um k, bpf_probe_read_user_str um k)]"

lemmas pp_into_defs = pp_BPF_CORE_READ_INTO_def pp_BPF_CORE_READ_USER_INTO_def
  pp_BPF_PROBE_READ_INTO_def pp_BPF_PROBE_READ_USER_INTO_def pp_BPF_CORE_READ_STR_INTO_def
  pp_BPF_CORE_READ_USER_STR_INTO_def pp_BPF_PROBE_READ_STR_INTO_def pp_BPF_PROBE_READ_USER_STR_INTO_def

lemma into_macroI:
  "reader_of um k fn = Some rf \<Longrightarrow> reader_of um k fn_ptr = Some rp \<Longrightarrow>
     (\<And>src a accs. pp src a accs = pp_core_read fn fn_ptr src a accs) \<Longrightarrow>
     \<exists>fn fn_ptr. reader_of um k fn = Some rf \<and> reader_of um k fn_ptr = Some rp \<and>
       (\<forall>src a accs. pp src a accs = pp_core_read fn fn_ptr src a accs)"
  by blast

lemma into_macros_readers:
  "(pp, rp, rf) \<in> set (into_macros um k) \<Longrightarrow>
     \<exists>fn fn_ptr. reader_of um k fn = Some rf \<and> reader_of um k fn_ptr = Some rp \<and>
       (\<forall>src a accs. pp src a accs = pp_core_read fn fn_ptr src a accs)"
  unfolding into_macros_def list.set insert_iff empty_iff prod.inject
proof (elim disjE conjE FalseE, goal_cases)
  case 1
  then show ?case
    by (intro into_macroI [of um k "''bpf_core_read''" _ "''bpf_core_read''"]) (simp_all add: reader_of_def pp_into_defs)
next
  case 2
  then show ?case
    by (intro into_macroI [of um k "''bpf_core_read_user''" _ "''bpf_core_read_user''"]) (simp_all add: reader_of_def pp_into_defs)
next
  case 3
  then show ?case
    by (intro into_macroI [of um k "''bpf_probe_read''" _ "''bpf_probe_read''"]) (simp_all add: reader_of_def pp_into_defs)
next
  case 4
  then show ?case
    by (intro into_macroI [of um k "''bpf_probe_read_user''" _ "''bpf_probe_read_user''"]) (simp_all add: reader_of_def pp_into_defs)
next
  case 5
  then show ?case
    by (intro into_macroI [of um k "''bpf_core_read_str''" _ "''bpf_core_read''"]) (simp_all add: reader_of_def pp_into_defs)
next
  case 6
  then show ?case
    by (intro into_macroI [of um k "''bpf_core_read_user_str''" _ "''bpf_core_read_user''"]) (simp_all add: reader_of_def pp_into_defs)
next
  case 7
  then show ?case
    by (intro into_macroI [of um k "''bpf_probe_read_str''" _ "''bpf_probe_read''"]) (simp_all add: reader_of_def pp_into_defs)
next
  case 8
  then show ?case
    by (intro into_macroI [of um k "''bpf_probe_read_user_str''" _ "''bpf_probe_read_user''"]) (simp_all add: reader_of_def pp_into_defs)
qed

lemma into_run:
  assumes "(pp, rp, rf) \<in> set (into_macros um k)" and "length accs \<le> 9"
  shows "\<exists>ss r t' dst'. pp src a accs = Some ss \<and>
    rd_run (reader_of um k) off p ss (0, t, dst) = Some (r, t', dst') \<and>
    (r, dst') = chase rp rf p (path_offsets off [src] (a # accs)) 0 t dst"
proof -
  from into_macros_readers [OF assms(1)] obtain fn fn_ptr where
    fn: "reader_of um k fn = Some rf" "reader_of um k fn_ptr = Some rp"
      "pp src a accs = pp_core_read fn fn_ptr src a accs" by auto
  obtain r dst' where c: "chase rp rf p (path_offsets off [src] (a # accs)) 0 t dst = (r, dst')"
    by fastforce
  from rd_run_chain [OF fn(1,2), of "a # accs" off p "[src]" SrcFirst 0 t dst] c obtain t' where
    "rd_run (reader_of um k) off p (chain_from fn fn_ptr [src] SrcFirst (a # accs)) (0, t, dst) =
      Some (r, t', dst')" by auto
  moreover have "pp src a accs = Some (chain_from fn fn_ptr [src] SrcFirst (a # accs))"
    using fn(3) assms(2) by (simp only: pp_core_read_chain read_chain_from)
  ultimately show ?thesis using c [symmetric] by blast
qed

definition BPF_CORE_READ :: "kenv \<Rightarrow> u64 \<Rightarrow> nat list \<Rightarrow> nat \<Rightarrow> bytes" where
  "BPF_CORE_READ k p offs n =
     snd (chase (bpf_core_read k) (bpf_core_read k) p offs 0 (k_local k 8) (k_local k n))"

lemma length_core_read:
  "kernel_ok k \<Longrightarrow> sz \<le> length dst \<Longrightarrow> length (snd (bpf_core_read k dst sz p)) = length dst"
  by (simp add: bpf_core_read_def probe_read_kernel_eq length_probe_read)

lemma length_chase:
  "kernel_ok k \<Longrightarrow>
     length (snd (chase (bpf_core_read k) (bpf_core_read k) p offs r t dst)) = length dst"
  by (induction "bpf_core_read k" "bpf_core_read k" p offs r t dst rule: chase.induct)
    (auto simp: length_core_read Let_def split: prod.splits)

lemma length_BPF_CORE_READ [simp]: "kernel_ok k \<Longrightarrow> length (BPF_CORE_READ k p offs n) = n"
  by (simp add: BPF_CORE_READ_def length_chase) (simp add: kernel_ok_def)

text \<open>
  C25: for up to nine accessors, the limit the header states, the macro
  \<^verbatim>\<open>BPF_CORE_READ\<close> expands, and running the statements it expands to on any kernel memory
  leaves in the result exactly what the pointer chase \<open>BPF_CORE_READ\<close> computes, whatever the
  relocations are and whichever of the reads fault.
\<close>

theorem core_read_expansion:
  assumes "length accs \<le> 8"
  shows "\<exists>ss r t'. pp_BPF_CORE_READ src a accs = Some ss \<and>
           rd_run (reader_of um k) off p ss (0, k_local k 8, k_local k n) =
             Some (r, t', BPF_CORE_READ k p (path_offsets off [src] (a # accs)) n)"
proof -
  have "pp_BPF_CORE_READ src a accs = pp_BPF_CORE_READ_INTO src a accs"
    using assms by (simp add: pp_BPF_CORE_READ_def pp_declare_r_def pp_ok)
  moreover have "(pp_BPF_CORE_READ_INTO, bpf_core_read k, bpf_core_read k) \<in> set (into_macros um k)"
    by (simp add: into_macros_def)
  from into_run [OF this, of accs src a off p "k_local k 8" "k_local k n"] assms
  obtain ss r t' dst' where "pp_BPF_CORE_READ_INTO src a accs = Some ss"
    "rd_run (reader_of um k) off p ss (0, k_local k 8, k_local k n) = Some (r, t', dst')"
    "(r, dst') = chase (bpf_core_read k) (bpf_core_read k) p (path_offsets off [src] (a # accs)) 0
       (k_local k 8) (k_local k n)" by auto
  ultimately show ?thesis unfolding BPF_CORE_READ_def by (metis snd_conv)
qed

text \<open>The ninth accessor is the last: with ten the macro names an undefined macro.\<close>

lemma core_read_limit: "9 \<le> length accs \<Longrightarrow> pp_BPF_CORE_READ src a accs = None"
  by (simp add: pp_BPF_CORE_READ_def pp_declare_r_def pp_arrow_many)

theorem core_read_expansion_witness:
  "length [''d.e'', ''f'', ''g''] \<le> 8 \<and>
   (\<exists>ss r t'. pp_BPF_CORE_READ ''s'' ''a.b.c'' [''d.e'', ''f'', ''g''] = Some ss \<and>
      rd_run (reader_of (\<lambda>_. None) sample_kernel) (\<lambda>ty a. 8) 4096 ss
          (0, k_local sample_kernel 8, k_local sample_kernel 4) =
        Some (r, t', BPF_CORE_READ sample_kernel 4096 [8, 8, 8, 8] 4))"
  using core_read_expansion [of "[''d.e'', ''f'', ''g'']" "''s''" "''a.b.c''" "\<lambda>_. None"
      sample_kernel "\<lambda>ty a. 8" 4096 4]
  by simp

text \<open>
  Each of the eight macros that read into given storage, the string and
  the user-memory variants included, expands for up to ten accessors. Running the expansion leaves
  in the storage what the pointer chase with the macro's two readers leaves there, and the value of
  the macro is the status of the last read alone.
\<close>

lemma read_into_expansion:
  assumes "(pp, rp, rf) \<in> set (into_macros um k)" and "length accs \<le> 9"
  shows "\<exists>ss r t' dst'. pp src a accs = Some ss \<and>
    rd_run (reader_of um k) off p ss (0, t, dst) = Some (r, t', dst') \<and>
    (r, dst') = chase rp rf p (path_offsets off [src] (a # accs)) 0 t dst \<and>
    (\<exists>q. (r, dst') = rf dst (length dst) q)"
  using into_run [OF assms, of src a off p t dst]
    chase_last [of "path_offsets off [src] (a # accs)" rp rf p 0 t dst]
  by auto

lemma read_into_expansion_witness:
  "(pp_BPF_CORE_READ_USER_STR_INTO, bpf_core_read_user (\<lambda>_. None) sample_kernel,
      bpf_core_read_user_str (\<lambda>_. None) sample_kernel) \<in> set (into_macros (\<lambda>_. None) sample_kernel) \<and>
   length [''b'', ''c''] \<le> 9 \<and>
   (\<exists>ss r t' dst'. pp_BPF_CORE_READ_USER_STR_INTO ''s'' ''a'' [''b'', ''c''] = Some ss \<and>
      rd_run (reader_of (\<lambda>_. None) sample_kernel) (\<lambda>ty a. 8) 4096 ss (0, replicate 8 0, replicate 16 0) =
        Some (r, t', dst'))"
proof -
  have m: "(pp_BPF_CORE_READ_USER_STR_INTO, bpf_core_read_user (\<lambda>_. None) sample_kernel,
      bpf_core_read_user_str (\<lambda>_. None) sample_kernel) \<in> set (into_macros (\<lambda>_. None) sample_kernel)"
    by (simp add: into_macros_def)
  then show ?thesis
    using read_into_expansion [OF m, of "[''b'', ''c'']" "''s''" "''a''" "\<lambda>ty a. 8" 4096
        "replicate 8 0" "replicate 16 0"]
    by fastforce
qed

section \<open>Bit-fields\<close>

text \<open>
  The relocations of a bit-field: the byte offset and size of the unit that holds it and the
  shifts that bring it to the low end of a 64-bit number.
\<close>

record field_relo =
  BYTE_OFFSET :: nat
  BYTE_SIZE :: nat
  LSHIFT_U64 :: nat
  RSHIFT_U64 :: nat
  SIGNED :: bool

fun host_word :: "byte_order \<Rightarrow> bytes \<Rightarrow> 'a::len word" where
  "host_word ORDER_LITTLE_ENDIAN bs = le_word bs"
| "host_word ORDER_BIG_ENDIAN bs = be_word bs"

fun CORE_BITFIELD_PROBE_READ :: "byte_order \<Rightarrow> kenv \<Rightarrow> bytes \<Rightarrow> u64 \<Rightarrow> field_relo \<Rightarrow> bytes" where
  "CORE_BITFIELD_PROBE_READ ORDER_LITTLE_ENDIAN k dst src r =
     snd (bpf_probe_read_kernel k dst (BYTE_SIZE r) (src + of_nat (BYTE_OFFSET r)))"
| "CORE_BITFIELD_PROBE_READ ORDER_BIG_ENDIAN k dst src r =
     take (8 - BYTE_SIZE r) dst @
     snd (bpf_probe_read_kernel k (drop (8 - BYTE_SIZE r) dst) (BYTE_SIZE r)
            (src + of_nat (BYTE_OFFSET r)))"

definition extract_field :: "field_relo \<Rightarrow> u64 \<Rightarrow> u64" where
  "extract_field r val =
     (let val' = push_bit (LSHIFT_U64 r) val
      in if SIGNED r then signed_drop_bit (RSHIFT_U64 r) val' else drop_bit (RSHIFT_U64 r) val')"

definition BPF_CORE_READ_BITFIELD_PROBED :: "byte_order \<Rightarrow> kenv \<Rightarrow> u64 \<Rightarrow> field_relo \<Rightarrow> u64" where
  "BPF_CORE_READ_BITFIELD_PROBED ord k s r =
     extract_field r (host_word ord (CORE_BITFIELD_PROBE_READ ord k (replicate 8 0) s r))"

text \<open>
  The variant with direct loads: \<open>None\<close> when the load faults. A unit of another size than 1, 2, 4
  or 8 leaves the local variable uninitialised.
\<close>

definition BPF_CORE_READ_BITFIELD :: "byte_order \<Rightarrow> kenv \<Rightarrow> u64 \<Rightarrow> field_relo \<Rightarrow> u64 option" where
  "BPF_CORE_READ_BITFIELD ord k s r =
     (let p = s + of_nat (BYTE_OFFSET r)
      in if BYTE_SIZE r \<in> {1, 2, 4, 8}
         then map_option (\<lambda>bs. extract_field r (host_word ord bs)) (fetch k p (BYTE_SIZE r))
         else Some (extract_field r (host_word ord (k_local k 8))))"

text \<open>
  The shifts of a field of \<open>w\<close> bits that starts at bit \<open>b\<close> of its unit, counted from the least
  significant one.
\<close>

definition relo_of :: "nat \<Rightarrow> nat \<Rightarrow> field_relo \<Rightarrow> bool" where
  "relo_of b w r \<longleftrightarrow>
     0 < w \<and> BYTE_SIZE r \<in> {1, 2, 4, 8} \<and> b + w \<le> 8 * BYTE_SIZE r \<and>
     LSHIFT_U64 r = 64 - (b + w) \<and> RSHIFT_U64 r = 64 - w"

lemma relo_ofD:
  assumes "relo_of b w r"
  shows "LSHIFT_U64 r = 64 - (b + w)" "RSHIFT_U64 r = 64 - w" "b + w \<le> 64" "0 < w"
  using assms by (auto simp: relo_of_def)

lemma extract_field_unsigned:
  assumes "\<not> SIGNED r" and "relo_of b w r"
  shows "extract_field r v = take_bit w (drop_bit b v)"
proof (rule bit_word_eqI)
  note r = relo_ofD [OF assms(2)]
  fix n assume "n < LENGTH(64)"
  with r show "bit (extract_field r v) n = bit (take_bit w (drop_bit b v)) n"
    using assms(1) by (auto simp: extract_field_def Let_def bit_simps add.commute)
qed

lemma extract_field_signed:
  assumes "SIGNED r" and "relo_of b w r"
  shows "extract_field r v = signed_take_bit (w - 1) (drop_bit b v)"
proof (rule bit_word_eqI)
  note r = relo_ofD [OF assms(2)]
  fix n assume n: "n < LENGTH(64)"
  have "min (w - 1) n = (if n < w then n else w - 1)" by auto
  with r n show "bit (extract_field r v) n = bit (signed_take_bit (w - 1) (drop_bit b v)) n"
    using assms(1) by (auto simp: extract_field_def Let_def bit_simps add.commute)
qed

lemma host_word_zero_extend:
  assumes "length bs \<le> 8"
  shows "(host_word ORDER_LITTLE_ENDIAN (bs @ replicate (8 - length bs) 0) :: u64) = le_word bs"
    and "(host_word ORDER_BIG_ENDIAN (replicate (8 - length bs) 0 @ bs) :: u64) = be_word bs"
  using assms
  by (auto intro!: bit_word_eqI simp: bit_le_word nth_append be_word_def split: if_splits)

lemma probe_read_unit:
  assumes "fetch k (s + of_nat (BYTE_OFFSET r)) (BYTE_SIZE r) = Some bs" and "BYTE_SIZE r \<le> 8"
  shows "host_word ord (CORE_BITFIELD_PROBE_READ ord k (replicate 8 0) s r) =
    (host_word ord bs :: u64)"
proof -
  have len: "length bs = BYTE_SIZE r" using assms(1) by (rule length_fetch)
  show ?thesis
    using assms len host_word_zero_extend [of bs]
    by (cases ord)
      (simp_all add: probe_read_kernel_eq bpf_probe_read_def overlay_def)
qed

text \<open>
  On readable memory both bit-field macros return the field: the bits \<open>b\<close> to
  \<open>b + w - 1\<close> of its unit, zero- or sign-extended to 64 bits, for either byte order.
\<close>

lemma core_bitfield:
  assumes "relo_of b w r" and "fetch k (s + of_nat (BYTE_OFFSET r)) (BYTE_SIZE r) = Some bs"
  shows "BPF_CORE_READ_BITFIELD_PROBED ord k s r =
           (if SIGNED r then signed_take_bit (w - 1) (drop_bit b (host_word ord bs))
            else take_bit w (drop_bit b (host_word ord bs))) \<and>
         BPF_CORE_READ_BITFIELD ord k s r = Some (BPF_CORE_READ_BITFIELD_PROBED ord k s r)"
proof (intro conjI)
  have sz: "BYTE_SIZE r \<in> {1, 2, 4, 8}" "BYTE_SIZE r \<le> 8" using assms(1) by (auto simp: relo_of_def)
  show "BPF_CORE_READ_BITFIELD_PROBED ord k s r =
           (if SIGNED r then signed_take_bit (w - 1) (drop_bit b (host_word ord bs))
            else take_bit w (drop_bit b (host_word ord bs)))"
    using assms sz
    by (simp add: BPF_CORE_READ_BITFIELD_PROBED_def probe_read_unit extract_field_unsigned
        extract_field_signed)
  show "BPF_CORE_READ_BITFIELD ord k s r = Some (BPF_CORE_READ_BITFIELD_PROBED ord k s r)"
    using assms sz
    by (simp add: BPF_CORE_READ_BITFIELD_PROBED_def BPF_CORE_READ_BITFIELD_def probe_read_unit)
qed

lemma core_bitfield_witness:
  "(let r = \<lparr>BYTE_OFFSET = 3, BYTE_SIZE = 1, LSHIFT_U64 = 56, RSHIFT_U64 = 60, SIGNED = False\<rparr>;
        k = sample_kernel\<lparr>k_mem := (\<lambda>a. if a = 103 then Some 0x45 else None)\<rparr>
    in relo_of 4 4 r \<and> fetch k (100 + of_nat (BYTE_OFFSET r)) (BYTE_SIZE r) = Some [0x45] \<and>
       BPF_CORE_READ_BITFIELD_PROBED ORDER_LITTLE_ENDIAN k 100 r = 4)"
  using core_bitfield [of 4 4 "\<lparr>BYTE_OFFSET = 3, BYTE_SIZE = 1, LSHIFT_U64 = 56, RSHIFT_U64 = 60,
      SIGNED = False\<rparr>" "sample_kernel\<lparr>k_mem := (\<lambda>a. if a = 103 then Some 0x45 else None)\<rparr>" 100
      "[0x45]" ORDER_LITTLE_ENDIAN]
  by (simp add: relo_of_def fetch_def byte_simps Let_def)

end
