(* ===== verification/Tracing.thy ===== *)
theory Tracing
  imports CoreRead
begin

text \<open>
  The register access of \<^verbatim>\<open>src/bpf/headers/bpf_tracing.h\<close>: the selection of the target
  from the macros the compiler defines, the table of which register of \<^verbatim>\<open>struct pt_regs\<close>
  holds a parameter, the return value or a pointer of the probed function, and the argument
  lists that \<^verbatim>\<open>BPF_PROG\<close>, \<^verbatim>\<open>BPF_KPROBE\<close> and \<^verbatim>\<open>BPF_KRETPROBE\<close> build
  from them.
\<close>

section \<open>Target selection\<close>

datatype bpf_target =
    Target_x86 | Target_s390 | Target_arm | Target_arm64 | Target_mips | Target_powerpc | Target_sparc

text \<open>\<open>defd m\<close> says whether the macro \<open>m\<close> is defined.\<close>

definition select_target :: "(string \<Rightarrow> bool) \<Rightarrow> bpf_target option" where
  "select_target defd =
     (if defd ''__TARGET_ARCH_x86'' then Some Target_x86
      else if defd ''__TARGET_ARCH_s390'' then Some Target_s390
      else if defd ''__TARGET_ARCH_arm'' then Some Target_arm
      else if defd ''__TARGET_ARCH_arm64'' then Some Target_arm64
      else if defd ''__TARGET_ARCH_mips'' then Some Target_mips
      else if defd ''__TARGET_ARCH_powerpc'' then Some Target_powerpc
      else if defd ''__TARGET_ARCH_sparc'' then Some Target_sparc
      else if defd ''__x86_64__'' then Some Target_x86
      else if defd ''__s390__'' then Some Target_s390
      else if defd ''__arm__'' then Some Target_arm
      else if defd ''__aarch64__'' then Some Target_arm64
      else if defd ''__mips__'' then Some Target_mips
      else if defd ''__powerpc__'' then Some Target_powerpc
      else if defd ''__sparc__'' then Some Target_sparc
      else None)"

section \<open>Registers\<close>

datatype pt_slot = PARM1 | PARM2 | PARM3 | PARM4 | PARM5 | RET | FP | RC | SP | IP

text \<open>A register macro expands to a member of the register structure or to the constant zero.\<close>

datatype pt_reg = Mem string | Idx string nat | Const0

fun x86_kernel_regs :: "pt_slot \<Rightarrow> pt_reg" where
  "x86_kernel_regs PARM1 = Mem ''di''"
| "x86_kernel_regs PARM2 = Mem ''si''"
| "x86_kernel_regs PARM3 = Mem ''dx''"
| "x86_kernel_regs PARM4 = Mem ''cx''"
| "x86_kernel_regs PARM5 = Mem ''r8''"
| "x86_kernel_regs RET = Mem ''sp''"
| "x86_kernel_regs FP = Mem ''bp''"
| "x86_kernel_regs RC = Mem ''ax''"
| "x86_kernel_regs SP = Mem ''sp''"
| "x86_kernel_regs IP = Mem ''ip''"

fun i386_regs :: "pt_slot \<Rightarrow> pt_reg" where
  "i386_regs PARM1 = Mem ''eax''"
| "i386_regs PARM2 = Mem ''edx''"
| "i386_regs PARM3 = Mem ''ecx''"
| "i386_regs PARM4 = Const0"
| "i386_regs PARM5 = Const0"
| "i386_regs RET = Mem ''esp''"
| "i386_regs FP = Mem ''ebp''"
| "i386_regs RC = Mem ''eax''"
| "i386_regs SP = Mem ''esp''"
| "i386_regs IP = Mem ''eip''"

fun x86_64_user_regs :: "pt_slot \<Rightarrow> pt_reg" where
  "x86_64_user_regs PARM1 = Mem ''rdi''"
| "x86_64_user_regs PARM2 = Mem ''rsi''"
| "x86_64_user_regs PARM3 = Mem ''rdx''"
| "x86_64_user_regs PARM4 = Mem ''rcx''"
| "x86_64_user_regs PARM5 = Mem ''r8''"
| "x86_64_user_regs RET = Mem ''rsp''"
| "x86_64_user_regs FP = Mem ''rbp''"
| "x86_64_user_regs RC = Mem ''rax''"
| "x86_64_user_regs SP = Mem ''rsp''"
| "x86_64_user_regs IP = Mem ''rip''"

fun s390_regs :: "pt_slot \<Rightarrow> pt_reg" where
  "s390_regs PARM1 = Idx ''gprs'' 2"
| "s390_regs PARM2 = Idx ''gprs'' 3"
| "s390_regs PARM3 = Idx ''gprs'' 4"
| "s390_regs PARM4 = Idx ''gprs'' 5"
| "s390_regs PARM5 = Idx ''gprs'' 6"
| "s390_regs RET = Idx ''gprs'' 14"
| "s390_regs FP = Idx ''gprs'' 11"
| "s390_regs RC = Idx ''gprs'' 2"
| "s390_regs SP = Idx ''gprs'' 15"
| "s390_regs IP = Mem ''psw.addr''"

fun arm_regs :: "pt_slot \<Rightarrow> pt_reg" where
  "arm_regs PARM1 = Idx ''uregs'' 0"
| "arm_regs PARM2 = Idx ''uregs'' 1"
| "arm_regs PARM3 = Idx ''uregs'' 2"
| "arm_regs PARM4 = Idx ''uregs'' 3"
| "arm_regs PARM5 = Idx ''uregs'' 4"
| "arm_regs RET = Idx ''uregs'' 14"
| "arm_regs FP = Idx ''uregs'' 11"
| "arm_regs RC = Idx ''uregs'' 0"
| "arm_regs SP = Idx ''uregs'' 13"
| "arm_regs IP = Idx ''uregs'' 12"

fun arm64_regs :: "pt_slot \<Rightarrow> pt_reg" where
  "arm64_regs PARM1 = Idx ''regs'' 0"
| "arm64_regs PARM2 = Idx ''regs'' 1"
| "arm64_regs PARM3 = Idx ''regs'' 2"
| "arm64_regs PARM4 = Idx ''regs'' 3"
| "arm64_regs PARM5 = Idx ''regs'' 4"
| "arm64_regs RET = Idx ''regs'' 30"
| "arm64_regs FP = Idx ''regs'' 29"
| "arm64_regs RC = Idx ''regs'' 0"
| "arm64_regs SP = Mem ''sp''"
| "arm64_regs IP = Mem ''pc''"

fun mips_regs :: "pt_slot \<Rightarrow> pt_reg" where
  "mips_regs PARM1 = Idx ''regs'' 4"
| "mips_regs PARM2 = Idx ''regs'' 5"
| "mips_regs PARM3 = Idx ''regs'' 6"
| "mips_regs PARM4 = Idx ''regs'' 7"
| "mips_regs PARM5 = Idx ''regs'' 8"
| "mips_regs RET = Idx ''regs'' 31"
| "mips_regs FP = Idx ''regs'' 30"
| "mips_regs RC = Idx ''regs'' 2"
| "mips_regs SP = Idx ''regs'' 29"
| "mips_regs IP = Mem ''cp0_epc''"

text \<open>PowerPC defines neither the return nor the frame register, SPARC not the frame register.\<close>

fun powerpc_regs :: "pt_slot \<Rightarrow> pt_reg option" where
  "powerpc_regs PARM1 = Some (Idx ''gpr'' 3)"
| "powerpc_regs PARM2 = Some (Idx ''gpr'' 4)"
| "powerpc_regs PARM3 = Some (Idx ''gpr'' 5)"
| "powerpc_regs PARM4 = Some (Idx ''gpr'' 6)"
| "powerpc_regs PARM5 = Some (Idx ''gpr'' 7)"
| "powerpc_regs RC = Some (Idx ''gpr'' 3)"
| "powerpc_regs SP = Some (Mem ''sp'')"
| "powerpc_regs IP = Some (Mem ''nip'')"
| "powerpc_regs RET = None"
| "powerpc_regs FP = None"

text \<open>
  The SPARC register numbers \<^verbatim>\<open>UREG_I0\<close> to \<^verbatim>\<open>UREG_I7\<close> and
  \<^verbatim>\<open>UREG_FP\<close> are not defined in the sources: \<open>ureg_i\<close> and \<open>ureg_fp\<close> stand for them.
\<close>

fun sparc_regs :: "(nat \<Rightarrow> nat) \<Rightarrow> nat \<Rightarrow> bool \<Rightarrow> pt_slot \<Rightarrow> pt_reg option" where
  "sparc_regs ureg_i ureg_fp arch64 PARM1 = Some (Idx ''u_regs'' (ureg_i 0))"
| "sparc_regs ureg_i ureg_fp arch64 PARM2 = Some (Idx ''u_regs'' (ureg_i 1))"
| "sparc_regs ureg_i ureg_fp arch64 PARM3 = Some (Idx ''u_regs'' (ureg_i 2))"
| "sparc_regs ureg_i ureg_fp arch64 PARM4 = Some (Idx ''u_regs'' (ureg_i 3))"
| "sparc_regs ureg_i ureg_fp arch64 PARM5 = Some (Idx ''u_regs'' (ureg_i 4))"
| "sparc_regs ureg_i ureg_fp arch64 RET = Some (Idx ''u_regs'' (ureg_i 7))"
| "sparc_regs ureg_i ureg_fp arch64 RC = Some (Idx ''u_regs'' (ureg_i 0))"
| "sparc_regs ureg_i ureg_fp arch64 SP = Some (Idx ''u_regs'' ureg_fp)"
| "sparc_regs ureg_i ureg_fp arch64 IP = Some (Mem (if arch64 then ''tpc'' else ''pc''))"
| "sparc_regs ureg_i ureg_fp arch64 FP = None"

text \<open>The choice between the tables, as the conditional compilation makes it.\<close>

fun PT_REGS ::
    "(nat \<Rightarrow> nat) \<Rightarrow> nat \<Rightarrow> (string \<Rightarrow> bool) \<Rightarrow> bpf_target \<Rightarrow> pt_slot \<Rightarrow> pt_reg option" where
  "PT_REGS ureg_i ureg_fp defd Target_x86 s =
     Some (if defd ''__KERNEL__'' \<or> defd ''__VMLINUX_H__'' then x86_kernel_regs s
           else if defd ''__i386__'' then i386_regs s
           else x86_64_user_regs s)"
| "PT_REGS ureg_i ureg_fp defd Target_s390 s = Some (s390_regs s)"
| "PT_REGS ureg_i ureg_fp defd Target_arm s = Some (arm_regs s)"
| "PT_REGS ureg_i ureg_fp defd Target_arm64 s = Some (arm64_regs s)"
| "PT_REGS ureg_i ureg_fp defd Target_mips s = Some (mips_regs s)"
| "PT_REGS ureg_i ureg_fp defd Target_powerpc s = powerpc_regs s"
| "PT_REGS ureg_i ureg_fp defd Target_sparc s =
     sparc_regs ureg_i ureg_fp (defd ''__arch64__'') s"

section \<open>The registers of a probed function\<close>

text \<open>
  The probes receive a pointer to the saved registers and read the parameters of the probed
  function from it; \<open>ctx\<close> gives the value of every register. This header is built for the two
  targets that have a \<^verbatim>\<open>vmlinux.h\<close>.
\<close>

datatype arch = Amd64 | Arm64

type_synonym pt_regs = "pt_reg \<Rightarrow> u64"

fun arch_reg :: "arch \<Rightarrow> pt_slot \<Rightarrow> pt_reg" where
  "arch_reg Amd64 s = x86_kernel_regs s"
| "arch_reg Arm64 s = arm64_regs s"

definition PT_REGS_PARM1 :: "arch \<Rightarrow> pt_regs \<Rightarrow> u64" where
  "PT_REGS_PARM1 a ctx = ctx (arch_reg a PARM1)"

definition PT_REGS_PARM2 :: "arch \<Rightarrow> pt_regs \<Rightarrow> u64" where
  "PT_REGS_PARM2 a ctx = ctx (arch_reg a PARM2)"

definition PT_REGS_PARM3 :: "arch \<Rightarrow> pt_regs \<Rightarrow> u64" where
  "PT_REGS_PARM3 a ctx = ctx (arch_reg a PARM3)"

definition PT_REGS_PARM4 :: "arch \<Rightarrow> pt_regs \<Rightarrow> u64" where
  "PT_REGS_PARM4 a ctx = ctx (arch_reg a PARM4)"

definition PT_REGS_PARM5 :: "arch \<Rightarrow> pt_regs \<Rightarrow> u64" where
  "PT_REGS_PARM5 a ctx = ctx (arch_reg a PARM5)"

definition PT_REGS_RC :: "arch \<Rightarrow> pt_regs \<Rightarrow> u64" where
  "PT_REGS_RC a ctx = ctx (arch_reg a RC)"

text \<open>The return address is read from the stack.\<close>

definition BPF_KPROBE_READ_RET_IP :: "kenv \<Rightarrow> arch \<Rightarrow> pt_regs \<Rightarrow> bytes \<Rightarrow> bytes" where
  "BPF_KPROBE_READ_RET_IP k a ctx ip =
     snd (bpf_probe_read_kernel k ip (length ip) (ctx (arch_reg a RET)))"

definition BPF_KRETPROBE_READ_RET_IP :: "kenv \<Rightarrow> arch \<Rightarrow> pt_regs \<Rightarrow> bytes \<Rightarrow> bytes" where
  "BPF_KRETPROBE_READ_RET_IP k a ctx ip =
     snd (bpf_probe_read_kernel k ip (length ip) (ctx (arch_reg a FP) + of_nat (length ip)))"

section \<open>Argument lists\<close>

text \<open>
  The argument count selects a member of the family, which builds the list from its end: the
  macro for \<open>n\<close> arguments drops the first name, expands the macro for the rest and appends the
  \<open>n\<close>-th value. \<open>bpf_nth\<close> selects the fourteenth argument.
\<close>

definition bpf_nth :: "'a pp_tok list \<Rightarrow> 'a pp_tok option" where
  "bpf_nth xs = (if 13 < length xs then Some (xs ! 13) else None)"

definition bpf_narg :: "'a list \<Rightarrow> 'a pp_tok option" where
  "bpf_narg args =
     bpf_nth (Under # map Arg args @
              [Num 12, Num 11, Num 10, Num 9, Num 8, Num 7, Num 6, Num 5, Num 4, Num 3, Num 2,
               Num 1, Num 0])"

text \<open>The actual arguments handed to the wrapped function: the context or a parameter.\<close>

datatype prog_arg = Ctx | CtxIdx nat | Reg pt_slot

fun bpf_ctx_cast_n :: "nat \<Rightarrow> 'a list \<Rightarrow> prog_arg list option" where
  "bpf_ctx_cast_n 0 args = (if args = [] then Some [Ctx] else None)"
| "bpf_ctx_cast_n (Suc n) args =
     (if Suc n \<le> 12 then
        (case args of
           [] \<Rightarrow> None
         | x # rest \<Rightarrow> map_option (\<lambda>as. as @ [CtxIdx n]) (bpf_ctx_cast_n n rest))
      else None)"

definition bpf_ctx_cast :: "'a list \<Rightarrow> prog_arg list option" where
  "bpf_ctx_cast args = pp_apply (\<lambda>n. bpf_ctx_cast_n n args) (bpf_narg args)"

fun parm_slot :: "nat \<Rightarrow> pt_slot" where
  "parm_slot n =
     (if n = 0 then PARM1 else if n = 1 then PARM2 else if n = 2 then PARM3
      else if n = 3 then PARM4 else PARM5)"

fun bpf_kprobe_args_n :: "nat \<Rightarrow> 'a list \<Rightarrow> prog_arg list option" where
  "bpf_kprobe_args_n 0 args = (if args = [] then Some [Ctx] else None)"
| "bpf_kprobe_args_n (Suc n) args =
     (if Suc n \<le> 5 then
        (case args of
           [] \<Rightarrow> None
         | x # rest \<Rightarrow> map_option (\<lambda>as. as @ [Reg (parm_slot n)]) (bpf_kprobe_args_n n rest))
      else None)"

definition bpf_kprobe_args :: "'a list \<Rightarrow> prog_arg list option" where
  "bpf_kprobe_args args = pp_apply (\<lambda>n. bpf_kprobe_args_n n args) (bpf_narg args)"

fun bpf_kretprobe_args_n :: "nat \<Rightarrow> 'a list \<Rightarrow> prog_arg list option" where
  "bpf_kretprobe_args_n n args =
     (if n = 0 \<and> args = [] then Some [Ctx]
      else if n = 1 \<and> length args = 1 then Some [Ctx, Reg RC]
      else None)"

definition bpf_kretprobe_args :: "'a list \<Rightarrow> prog_arg list option" where
  "bpf_kretprobe_args args = pp_apply (\<lambda>n. bpf_kretprobe_args_n n args) (bpf_narg args)"

text \<open>\<^verbatim>\<open>___bpf_fill\<close> stores the arguments into consecutive elements of an array.\<close>

fun bpf_fill_n :: "nat \<Rightarrow> 'v list \<Rightarrow> nat \<Rightarrow> 'v list \<Rightarrow> 'v list option" where
  "bpf_fill_n 0 arr p args = Some arr"
| "bpf_fill_n (Suc n) arr p args =
     (if Suc n \<le> 12 then
        (case args of
           [] \<Rightarrow> None
         | x # rest \<Rightarrow> if p < length arr then bpf_fill_n n (arr[p := x]) (p + 1) rest else None)
      else None)"

definition bpf_fill :: "'v list \<Rightarrow> 'v list \<Rightarrow> 'v list option" where
  "bpf_fill arr args = pp_apply (\<lambda>n. bpf_fill_n n arr 0 args) (bpf_narg args)"

section \<open>Properties\<close>

lemma nth_count_down12:
  assumes "n \<le> 12"
  shows "[Num 12, Num 11, Num 10, Num 9, Num 8, Num 7, Num 6, Num 5, Num 4, Num 3, Num 2, Num 1,
    Num 0] ! (12 - n) = Num n"
proof -
  from assms have "n \<in> {0, 1, 2, 3, 4, 5, 6, 7, 8, 9, 10, 11, 12}"
    unfolding insert_iff empty_iff by presburger
  then show ?thesis by (elim insertE emptyE) simp_all
qed

lemma bpf_narg_ok: "length args \<le> 12 \<Longrightarrow> bpf_narg args = Some (Num (length args))"
  unfolding bpf_narg_def bpf_nth_def
  using nth_count_down12 [of "length args"]
  by (cases "length args = 12") (auto simp: nth_append nth_Cons' numeral_eq_Suc)

lemma bpf_narg_many: "12 < length args \<Longrightarrow> bpf_narg args = Some (Arg (args ! 12))"
  by (simp add: bpf_narg_def bpf_nth_def nth_append nth_Cons' del: nth_Cons_numeral)

lemma bpf_ctx_cast_n_eq:
  "bpf_ctx_cast_n n args =
     (if length args = n \<and> n \<le> 12 then Some (Ctx # map CtxIdx [0..<n]) else None)"
  by (induction n arbitrary: args) (auto split: list.splits)

lemma bpf_kprobe_args_n_eq:
  "bpf_kprobe_args_n n args =
     (if length args = n \<and> n \<le> 5 then Some (Ctx # map (\<lambda>i. Reg (parm_slot i)) [0..<n]) else None)"
  by (induction n arbitrary: args) (auto split: list.splits)

lemma apply_narg:
  "pp_apply f (bpf_narg args) = (if length args \<le> 12 then f (length args) else None)"
  by (auto simp: pp_apply_def bpf_narg_ok bpf_narg_many)

text \<open>
  The wrappers hand over the context followed by the arguments in
  order: \<^verbatim>\<open>BPF_PROG\<close> the array elements 0, 1, ... for up to twelve names,
  \<^verbatim>\<open>BPF_KPROBE\<close> the parameter registers 1, 2, ... for up to five, and
  \<^verbatim>\<open>BPF_KRETPROBE\<close> the return value for at most one; with more names the expansion names
  an undefined macro.
\<close>

lemma probe_argument_lists:
  "bpf_ctx_cast args =
     (if length args \<le> 12 then Some (Ctx # map CtxIdx [0..<length args]) else None) \<and>
   bpf_kprobe_args args =
     (if length args \<le> 5
      then Some (Ctx # map Reg (take (length args) [PARM1, PARM2, PARM3, PARM4, PARM5])) else None) \<and>
   bpf_kretprobe_args args =
     (if length args \<le> 1 then Some (Ctx # map Reg (take (length args) [RC])) else None)"
proof (intro conjI)
  show "bpf_ctx_cast args =
     (if length args \<le> 12 then Some (Ctx # map CtxIdx [0..<length args]) else None)"
    by (simp add: bpf_ctx_cast_def apply_narg bpf_ctx_cast_n_eq)
  have "map parm_slot [0..<n] = take n [PARM1, PARM2, PARM3, PARM4, PARM5]" if "n \<le> 5" for n
  proof -
    from that have "n \<in> {0, 1, 2, 3, 4, 5}" unfolding insert_iff empty_iff by presburger
    then show ?thesis by (elim insertE emptyE) (simp_all add: upt_rec)
  qed
  then show "bpf_kprobe_args args =
     (if length args \<le> 5
      then Some (Ctx # map Reg (take (length args) [PARM1, PARM2, PARM3, PARM4, PARM5])) else None)"
    by (simp add: bpf_kprobe_args_def apply_narg bpf_kprobe_args_n_eq del: parm_slot.simps
        flip: map_map [of Reg parm_slot, unfolded comp_def])
  show "bpf_kretprobe_args args =
     (if length args \<le> 1 then Some (Ctx # map Reg (take (length args) [RC])) else None)"
    by (cases args; cases "tl args") (auto simp: bpf_kretprobe_args_def apply_narg)
qed

lemma bpf_fill_n_eq:
  "length args = n \<Longrightarrow> n \<le> 12 \<Longrightarrow> p + n = length arr \<Longrightarrow>
     bpf_fill_n n arr p args = Some (take p arr @ args)"
proof (induction n arr p args rule: bpf_fill_n.induct)
  case (2 n arr p args)
  then obtain x rest where args: "args = x # rest" by (cases args) auto
  with 2 have "bpf_fill_n n (arr[p := x]) (p + 1) rest = Some (take (p + 1) (arr[p := x]) @ rest)"
    by (intro "2.IH") auto
  moreover have "take (Suc p) (arr[p := x]) = take p arr @ [x]"
    using "2.prems" by (simp add: take_Suc_conv_app_nth)
  ultimately show ?case using "2.prems" args by simp
qed auto

text \<open>
  An array with one element per argument ends up holding exactly the arguments, in order.
\<close>

lemma bpf_fill_all: "length args \<le> 12 \<Longrightarrow> length arr = length args \<Longrightarrow> bpf_fill arr args = Some args"
  by (simp add: bpf_fill_def apply_narg bpf_fill_n_eq)

text \<open>
  On every target but 32-bit x86, which passes three parameters in
  registers and reads the others as zero, the five parameters come from five different members
  of the register structure (on SPARC provided the register numbers differ), so no probe reads
  one parameter as another.
\<close>

lemma parm_registers_distinct:
  assumes "inj ureg_i"
    and "\<not> (t = Target_x86 \<and> defd ''__i386__'' \<and> \<not> defd ''__KERNEL__'' \<and> \<not> defd ''__VMLINUX_H__'')"
  shows "distinct (map (PT_REGS ureg_i ureg_fp defd t) [PARM1, PARM2, PARM3, PARM4, PARM5]) \<and>
         None \<notin> PT_REGS ureg_i ureg_fp defd t ` {PARM1, PARM2, PARM3, PARM4, PARM5}"
  using assms by (cases t) (auto simp: inj_eq)

lemma parm_registers_distinct_witness:
  "inj (\<lambda>i. 8 + i :: nat) \<and>
   \<not> (Target_sparc = Target_x86 \<and> False) \<and>
   distinct (map (PT_REGS (\<lambda>i. 8 + i) 14 (\<lambda>m. False) Target_sparc)
     [PARM1, PARM2, PARM3, PARM4, PARM5])"
  using parm_registers_distinct [of "\<lambda>i. 8 + i" Target_sparc "\<lambda>m. False" 14]
  by (simp add: inj_def)

text \<open>
  The registers the two supported targets read are members of the register structures their
  headers declare, at eight-byte offsets inside them.
\<close>

lemma amd64_parm_offsets:
  "map (\<lambda>m. offsetof amd64_pt_regs [m]) [''di'', ''si'', ''dx'', ''cx'', ''r8'', ''ax''] =
     [112, 104, 96, 88, 72, 80]"
  unfolding offsetof_def by (simp add: layout_simps cong: layout_congs)

lemma arm64_parm_offset: "offsetof arm64_user_pt_regs [''regs''] = 0"
  unfolding offsetof_def by (simp add: layout_simps cong: layout_congs)

end
