(* ===== verification/Maps.thy ===== *)
theory Maps
  imports Kernel
begin

text \<open>
  BPF maps. \<open>bpf_map_type\<close> and the update flags come from \<^verbatim>\<open>src/bpf/headers/common.h\<close>,
  \<open>bpf_map_def\<close> from \<^verbatim>\<open>src/bpf/headers/bpf_helpers.h\<close>, and the operations follow the
  descriptions of \<^verbatim>\<open>bpf_map_lookup_elem\<close>, \<^verbatim>\<open>bpf_map_update_elem\<close> and
  \<^verbatim>\<open>bpf_map_delete_elem\<close> in \<^verbatim>\<open>src/bpf/headers/bpf_helper_defs.h\<close>. A table is a
  definition with the association list of its entries. The last part is the contract
  \<open>counter_table\<close> of a table of counters that are looked up and incremented or else inserted; the
  probes that count interpret it.
\<close>

section \<open>Map definitions\<close>

datatype bpf_map_type =
    BPF_MAP_TYPE_UNSPEC | BPF_MAP_TYPE_HASH | BPF_MAP_TYPE_ARRAY | BPF_MAP_TYPE_PROG_ARRAY
  | BPF_MAP_TYPE_PERF_EVENT_ARRAY | BPF_MAP_TYPE_PERCPU_HASH | BPF_MAP_TYPE_PERCPU_ARRAY
  | BPF_MAP_TYPE_STACK_TRACE | BPF_MAP_TYPE_CGROUP_ARRAY | BPF_MAP_TYPE_LRU_HASH
  | BPF_MAP_TYPE_LRU_PERCPU_HASH | BPF_MAP_TYPE_LPM_TRIE | BPF_MAP_TYPE_ARRAY_OF_MAPS
  | BPF_MAP_TYPE_HASH_OF_MAPS | BPF_MAP_TYPE_DEVMAP | BPF_MAP_TYPE_SOCKMAP | BPF_MAP_TYPE_CPUMAP
  | BPF_MAP_TYPE_XSKMAP | BPF_MAP_TYPE_SOCKHASH | BPF_MAP_TYPE_CGROUP_STORAGE
  | BPF_MAP_TYPE_REUSEPORT_SOCKARRAY | BPF_MAP_TYPE_PERCPU_CGROUP_STORAGE | BPF_MAP_TYPE_QUEUE
  | BPF_MAP_TYPE_STACK | BPF_MAP_TYPE_SK_STORAGE | BPF_MAP_TYPE_DEVMAP_HASH
  | BPF_MAP_TYPE_STRUCT_OPS | BPF_MAP_TYPE_RINGBUF | BPF_MAP_TYPE_INODE_STORAGE

definition BPF_ANY :: u64 where "BPF_ANY = 0"

definition BPF_NOEXIST :: u64 where "BPF_NOEXIST = 1"

definition BPF_EXIST :: u64 where "BPF_EXIST = 2"

definition BPF_F_LOCK :: u64 where "BPF_F_LOCK = 4"

lemmas flag_defs = BPF_ANY_def BPF_NOEXIST_def BPF_EXIST_def BPF_F_LOCK_def

record bpf_map_def =
  map_type :: bpf_map_type
  key_size :: nat
  value_size :: nat
  max_entries :: nat
  map_flags :: nat

section \<open>Hash tables\<close>

record ('k, 'v) bpf_hash =
  hash_def :: bpf_map_def
  hash_ents :: "('k \<times> 'v) list"

definition hash_empty :: "bpf_map_def \<Rightarrow> ('k, 'v) bpf_hash" where
  "hash_empty d = \<lparr>hash_def = d, hash_ents = []\<rparr>"

definition hash_lookup :: "('k, 'v) bpf_hash \<Rightarrow> 'k \<Rightarrow> 'v option" where
  "hash_lookup m key = map_of (hash_ents m) key"

text \<open>
  Adding an entry is subject to the kernel's verdict \<open>k_insert\<close>; replacing one always succeeds.
\<close>

definition hash_update :: "kenv \<Rightarrow> ('k, 'v) bpf_hash \<Rightarrow> 'k \<Rightarrow> 'v \<Rightarrow> u64 \<Rightarrow> int \<times> ('k, 'v) bpf_hash" where
  "hash_update k m key v flags =
     (case hash_lookup m key of
        Some _ \<Rightarrow>
          if flags = BPF_NOEXIST then (k_eexist k, m)
          else (0, m\<lparr>hash_ents := al_update key v (hash_ents m)\<rparr>)
      | None \<Rightarrow>
          if flags = BPF_EXIST then (k_enoent k, m)
          else let e = k_insert k (length (hash_ents m)) (max_entries (hash_def m))
               in if e < 0 then (e, m)
                  else (0, m\<lparr>hash_ents := al_update key v (hash_ents m)\<rparr>))"

definition hash_delete :: "kenv \<Rightarrow> ('k, 'v) bpf_hash \<Rightarrow> 'k \<Rightarrow> int \<times> ('k, 'v) bpf_hash" where
  "hash_delete k m key =
     (case hash_lookup m key of
        None \<Rightarrow> (k_enoent k, m)
      | Some _ \<Rightarrow> (0, m\<lparr>hash_ents := al_delete key (hash_ents m)\<rparr>))"

text \<open>
  A store through the pointer a lookup returned changes the value in place.
\<close>

definition hash_modify :: "('v \<Rightarrow> 'v) \<Rightarrow> 'k \<Rightarrow> ('k, 'v) bpf_hash \<Rightarrow> ('k, 'v) bpf_hash" where
  "hash_modify f key m =
     (case hash_lookup m key of
        None \<Rightarrow> m
      | Some v \<Rightarrow> m\<lparr>hash_ents := al_update key (f v) (hash_ents m)\<rparr>)"

text \<open>
  A well-formed table has one entry per key and no more entries than it is declared for. The
  kernel keeps the bound by refusing a new entry in a full table.
\<close>

definition hash_ok :: "('k, 'v) bpf_hash \<Rightarrow> bool" where
  "hash_ok m \<longleftrightarrow> distinct (map fst (hash_ents m)) \<and> length (hash_ents m) \<le> max_entries (hash_def m)"

definition full_refused :: "kenv \<Rightarrow> bool" where
  "full_refused k \<longleftrightarrow> (\<forall>n mx. mx \<le> n \<longrightarrow> k_insert k n mx < 0)"

text \<open>A kernel that never runs short of memory accepts an entry while there is room.\<close>

definition room_accepted :: "kenv \<Rightarrow> bool" where
  "room_accepted k \<longleftrightarrow> (\<forall>n mx. n < mx \<longrightarrow> 0 \<le> k_insert k n mx)"

section \<open>Per-CPU hash tables\<close>

text \<open>
  An entry of a per-CPU table has one value per CPU. A program sees and writes only the value of
  the CPU it runs on; \<open>fresh\<close> is what a new entry holds for the other CPUs. Whether an entry
  exists, and its deletion, concern all CPUs.
\<close>

type_synonym ('k, 'v) bpf_percpu = "('k, u32 \<Rightarrow> 'v) bpf_hash"

definition percpu_lookup :: "kenv \<Rightarrow> ('k, 'v) bpf_percpu \<Rightarrow> 'k \<Rightarrow> 'v option" where
  "percpu_lookup k m key = map_option (\<lambda>v. v (k_cpu k)) (hash_lookup m key)"

definition percpu_update ::
    "(u32 \<Rightarrow> 'v) \<Rightarrow> kenv \<Rightarrow> ('k, 'v) bpf_percpu \<Rightarrow> 'k \<Rightarrow> 'v \<Rightarrow> u64 \<Rightarrow> int \<times> ('k, 'v) bpf_percpu" where
  "percpu_update fresh k m key v flags =
     hash_update k m key
       ((case hash_lookup m key of Some old \<Rightarrow> old | None \<Rightarrow> fresh)(k_cpu k := v)) flags"

definition percpu_modify ::
    "kenv \<Rightarrow> ('v \<Rightarrow> 'v) \<Rightarrow> 'k \<Rightarrow> ('k, 'v) bpf_percpu \<Rightarrow> ('k, 'v) bpf_percpu" where
  "percpu_modify k f key m = hash_modify (\<lambda>v. v(k_cpu k := f (v (k_cpu k)))) key m"

section \<open>LRU tables\<close>

text \<open>
  A full LRU table drops entries to make room: \<open>evict\<close> is the kernel's choice of the entries to
  keep, asked for when a new key arrives at a full table.
\<close>

definition lru_percpu_update ::
    "(('k \<times> (u32 \<Rightarrow> 'v)) list \<Rightarrow> 'k \<Rightarrow> bool) \<Rightarrow> (u32 \<Rightarrow> 'v) \<Rightarrow> kenv \<Rightarrow> ('k, 'v) bpf_percpu \<Rightarrow> 'k \<Rightarrow> 'v \<Rightarrow> u64
       \<Rightarrow> int \<times> ('k, 'v) bpf_percpu" where
  "lru_percpu_update evict fresh k m key v flags =
     (let m' = (if hash_lookup m key = None \<and> max_entries (hash_def m) \<le> length (hash_ents m)
                then m\<lparr>hash_ents := filter (\<lambda>p. \<not> evict (hash_ents m) (fst p)) (hash_ents m)\<rparr>
                else m)
      in percpu_update fresh k m' key v flags)"

section \<open>Arrays\<close>

text \<open>All entries of an array exist from the start; updates cannot add and nothing is deleted.\<close>

definition array_lookup :: "'v list \<Rightarrow> nat \<Rightarrow> 'v option" where
  "array_lookup a i = (if i < length a then Some (a ! i) else None)"

definition array_update :: "kenv \<Rightarrow> 'v list \<Rightarrow> nat \<Rightarrow> 'v \<Rightarrow> u64 \<Rightarrow> int \<times> 'v list" where
  "array_update k a i v flags =
     (if length a \<le> i then (k_enoent k, a)
      else if flags = BPF_NOEXIST then (k_eexist k, a)
      else (0, a[i := v]))"

section \<open>Lemmas\<close>

lemma hash_lookup_empty [simp]: "hash_lookup (hash_empty d) key = None"
  by (simp add: hash_lookup_def hash_empty_def)

lemma hash_def_empty [simp]: "hash_def (hash_empty d) = d"
  by (simp add: hash_empty_def)

lemma hash_ok_empty [simp, intro]: "hash_ok (hash_empty d)"
  by (simp add: hash_ok_def hash_empty_def)

lemma hash_def_update [simp]: "hash_def (snd (hash_update k m key v flags)) = hash_def m"
  by (simp add: hash_update_def Let_def split: option.splits)

lemma hash_def_delete [simp]: "hash_def (snd (hash_delete k m key)) = hash_def m"
  by (simp add: hash_delete_def split: option.splits)

lemma hash_def_modify [simp]: "hash_def (hash_modify f key m) = hash_def m"
  by (simp add: hash_modify_def split: option.splits)

text \<open>An update either stores the value or changes nothing.\<close>

definition hash_accepts :: "kenv \<Rightarrow> ('k, 'v) bpf_hash \<Rightarrow> 'k \<Rightarrow> u64 \<Rightarrow> bool" where
  "hash_accepts k m key flags \<longleftrightarrow>
     (if hash_lookup m key = None
      then flags \<noteq> BPF_EXIST \<and> 0 \<le> k_insert k (length (hash_ents m)) (max_entries (hash_def m))
      else flags \<noteq> BPF_NOEXIST)"

lemma hash_update_eq:
  "snd (hash_update k m key v flags) =
     (if hash_accepts k m key flags then m\<lparr>hash_ents := al_update key v (hash_ents m)\<rparr> else m)"
  by (simp add: hash_update_def hash_accepts_def Let_def split: option.splits)

lemma hash_update_status:
  "kernel_ok k \<Longrightarrow> fst (hash_update k m key v flags) = 0 \<longleftrightarrow> hash_accepts k m key flags"
  unfolding kernel_ok_def
  by (cases "hash_lookup m key") (auto simp: hash_update_def hash_accepts_def Let_def)

lemma hash_lookup_stored [simp]:
  "hash_lookup (m\<lparr>hash_ents := al_update key v (hash_ents m)\<rparr>) = (hash_lookup m)(key \<mapsto> v)"
  by (auto simp: hash_lookup_def)

lemma hash_lookup_update:
  "hash_lookup (snd (hash_update k m key v flags)) =
     (if hash_accepts k m key flags then (hash_lookup m)(key \<mapsto> v) else hash_lookup m)"
  by (simp add: hash_update_eq)

lemma length_hash_update:
  "length (hash_ents (snd (hash_update k m key v flags))) =
     (if hash_accepts k m key flags \<and> hash_lookup m key = None then Suc (length (hash_ents m))
      else length (hash_ents m))"
  by (simp add: hash_update_eq length_al_update hash_lookup_def)

lemma hash_accepts_existing [simp]: "hash_lookup m key = Some v \<Longrightarrow> hash_accepts k m key BPF_ANY"
  by (simp add: hash_accepts_def flag_defs)

lemma hash_accepts_room:
  "room_accepted k \<Longrightarrow> length (hash_ents m) < max_entries (hash_def m) \<Longrightarrow> hash_accepts k m key BPF_ANY"
  by (simp add: hash_accepts_def flag_defs room_accepted_def)

lemma hash_accepts_full:
  "full_refused k \<Longrightarrow> max_entries (hash_def m) \<le> length (hash_ents m) \<Longrightarrow> hash_accepts k m key flags \<Longrightarrow>
     hash_lookup m key \<noteq> None"
  by (cases "hash_lookup m key") (auto simp: hash_accepts_def full_refused_def dest: leD)

lemma hash_lookup_update_other [simp]:
  "x \<noteq> key \<Longrightarrow> hash_lookup (snd (hash_update k m key v flags)) x = hash_lookup m x"
  by (simp add: hash_lookup_update)

lemma hash_lookup_delete [simp]:
  "hash_lookup (snd (hash_delete k m key)) = (hash_lookup m)(key := None)"
  by (auto simp: hash_delete_def hash_lookup_def split: option.splits)

lemma hash_lookup_modify [simp]:
  "hash_lookup (hash_modify f key m) = (hash_lookup m)(key := map_option f (hash_lookup m key))"
  by (auto simp: hash_modify_def split: option.splits)

lemma hash_ok_stored:
  "hash_ok m \<Longrightarrow> hash_lookup m key \<noteq> None \<or> length (hash_ents m) < max_entries (hash_def m) \<Longrightarrow>
     hash_ok (m\<lparr>hash_ents := al_update key v (hash_ents m)\<rparr>)"
  by (auto simp: hash_ok_def hash_lookup_def length_al_update)

lemma hash_ok_update [intro]:
  assumes "full_refused k" and "hash_ok m"
  shows "hash_ok (snd (hash_update k m key v flags))"
proof (cases "hash_accepts k m key flags")
  case True
  with assms(1) have "hash_lookup m key \<noteq> None \<or> length (hash_ents m) < max_entries (hash_def m)"
    using hash_accepts_full [of k m key flags] True by (auto simp: not_le [symmetric])
  with assms(2) True show ?thesis by (simp add: hash_update_eq hash_ok_stored)
qed (use assms(2) in \<open>simp add: hash_update_eq\<close>)

lemma hash_ok_delete [intro]: "hash_ok m \<Longrightarrow> hash_ok (snd (hash_delete k m key))"
  using length_al_delete_le [of key "hash_ents m"]
  by (auto simp: hash_ok_def hash_delete_def split: option.splits)

lemma hash_ok_modify [intro]: "hash_ok m \<Longrightarrow> hash_ok (hash_modify f key m)"
  by (auto simp: hash_modify_def intro: hash_ok_stored split: option.splits)

lemma hash_ok_card_dom:
  assumes "hash_ok m"
  shows "card (dom (hash_lookup m)) \<le> max_entries (hash_def m)"
proof -
  have "dom (hash_lookup m) = set (map fst (hash_ents m))"
    unfolding hash_lookup_def by (simp add: dom_map_of_conv_image_fst)
  moreover have "card (set (map fst (hash_ents m))) \<le> length (hash_ents m)"
    using card_length [of "map fst (hash_ents m)"] by (simp only: length_map)
  ultimately show ?thesis
    using assms unfolding hash_ok_def by simp
qed

lemma hash_ents_card:
  assumes "distinct (map fst (hash_ents m))"
  shows "length (hash_ents m) = card (dom (hash_lookup m))"
proof -
  have "dom (hash_lookup m) = set (map fst (hash_ents m))"
    unfolding hash_lookup_def by (simp add: dom_map_of_conv_image_fst)
  then show ?thesis using distinct_card [OF assms] by (simp only: length_map)
qed

lemma percpu_lookup_update_other [simp]:
  "x \<noteq> key \<Longrightarrow> percpu_lookup k' (snd (percpu_update fresh k m key v flags)) x = percpu_lookup k' m x"
  by (simp add: percpu_lookup_def percpu_update_def)

lemma hash_ok_percpu_update [intro]:
  "full_refused k \<Longrightarrow> hash_ok m \<Longrightarrow> hash_ok (snd (percpu_update fresh k m key v flags))"
  by (auto simp: percpu_update_def)

lemma hash_ok_percpu_modify [intro]: "hash_ok m \<Longrightarrow> hash_ok (percpu_modify k f key m)"
  by (auto simp: percpu_modify_def)

lemma hash_def_percpu [simp]:
  "hash_def (snd (percpu_update fresh k m key v flags)) = hash_def m"
  "hash_def (percpu_modify k f key m) = hash_def m"
  by (simp_all add: percpu_update_def percpu_modify_def)

lemma array_lookup_update:
  "array_lookup (snd (array_update k a i v BPF_ANY)) j =
     (if i = j \<and> i < length a then Some v else array_lookup a j)"
  by (auto simp: array_lookup_def array_update_def flag_defs)

section \<open>Tables of counters\<close>

text \<open>
  The probes count by looking a key up and adding one to the counter found, or inserting the
  counter one when there is none. \<open>get\<close> reads a counter and \<open>bump\<close> is that operation in the
  environment \<open>e\<close>; \<open>accepts\<close> says whether the kernel takes a new key.
\<close>

locale counter_table =
  fixes get :: "'m \<Rightarrow> 'k \<Rightarrow> u64 option"
    and bump :: "'e \<Rightarrow> 'k \<Rightarrow> 'm \<Rightarrow> 'm"
    and accepts :: "'e \<Rightarrow> 'k \<Rightarrow> 'm \<Rightarrow> bool"
  assumes bump_existing: "get m key = Some c \<Longrightarrow> get (bump e key m) = (get m)(key \<mapsto> c + 1)"
    and bump_new: "get m key = None \<Longrightarrow> accepts e key m \<Longrightarrow> get (bump e key m) = (get m)(key \<mapsto> 1)"
    and bump_refused: "get m key = None \<Longrightarrow> \<not> accepts e key m \<Longrightarrow> get (bump e key m) = get m"
begin

definition val :: "'m \<Rightarrow> 'k \<Rightarrow> u64" where
  "val m key = (case get m key of Some c \<Rightarrow> c | None \<Rightarrow> 0)"

primrec bumps :: "('e \<times> 'k) list \<Rightarrow> 'm \<Rightarrow> 'm" where
  "bumps [] m = m"
| "bumps (x # xs) m = bumps xs (bump (fst x) (snd x) m)"

primrec all_accepted :: "('e \<times> 'k) list \<Rightarrow> 'm \<Rightarrow> bool" where
  "all_accepted [] m \<longleftrightarrow> True"
| "all_accepted (x # xs) m \<longleftrightarrow>
     (get m (snd x) = None \<longrightarrow> accepts (fst x) (snd x) m) \<and>
     all_accepted xs (bump (fst x) (snd x) m)"

lemma val_bump_other: "x \<noteq> key \<Longrightarrow> val (bump e key m) x = val m x"
  by (cases "get m key"; cases "accepts e key m")
    (auto simp: val_def bump_existing bump_new bump_refused)

lemma val_bump:
  "get m key \<noteq> None \<or> accepts e key m \<Longrightarrow> val (bump e key m) key = val m key + 1"
  by (cases "get m key") (auto simp: val_def bump_existing bump_new)

lemma val_bump_le: "val (bump e key m) key = val m key + 1 \<or> val (bump e key m) key = val m key"
  by (cases "get m key"; cases "accepts e key m")
    (auto simp: val_def bump_existing bump_new bump_refused)

text \<open>When every key is accepted the counter is the number of increments, modulo the word size.\<close>

lemma val_bumps:
  "all_accepted xs m \<Longrightarrow> val (bumps xs m) key = val m key + of_nat (count_list (map snd xs) key)"
proof (induction xs arbitrary: m)
  case (Cons x xs)
  then show ?case
    by (cases "snd x = key") (auto simp: val_bump val_bump_other)
qed simp

text \<open>In general it never counts more than that.\<close>

lemma val_bumps_le:
  "\<exists>n \<le> count_list (map snd xs) key. val (bumps xs m) key = val m key + of_nat n"
proof (induction xs arbitrary: m)
  case (Cons x xs)
  obtain n where n: "n \<le> count_list (map snd xs) key"
      "val (bumps xs (bump (fst x) (snd x) m)) key = val (bump (fst x) (snd x) m) key + of_nat n"
    using Cons.IH by blast
  show ?case
  proof (cases "snd x = key \<and> val (bump (fst x) (snd x) m) key = val m key + 1")
    case True
    with n show ?thesis by (intro exI [of _ "Suc n"]) auto
  next
    case False
    then have "val (bump (fst x) (snd x) m) key = val m key"
      using val_bump_le val_bump_other by metis
    with n show ?thesis by (intro exI [of _ n]) auto
  qed
qed simp

end

text \<open>The counting operation on a hash table and on an array.\<close>

definition hash_bump :: "kenv \<Rightarrow> 'k \<Rightarrow> ('k, u64) bpf_hash \<Rightarrow> ('k, u64) bpf_hash" where
  "hash_bump k key m =
     (case hash_lookup m key of
        Some _ \<Rightarrow> hash_modify (\<lambda>c. c + 1) key m
      | None \<Rightarrow> snd (hash_update k m key 1 BPF_ANY))"

interpretation hash_counter: counter_table hash_lookup hash_bump
    "\<lambda>k key m. hash_accepts k m key BPF_ANY"
  by unfold_locales (auto simp: hash_bump_def hash_lookup_update)

lemma hash_def_bump [simp]: "hash_def (hash_bump k key m) = hash_def m"
  by (simp add: hash_bump_def split: option.splits)

lemma distinct_hash_bump:
  "distinct (map fst (hash_ents m)) \<Longrightarrow> distinct (map fst (hash_ents (hash_bump k key m)))"
  by (auto simp: hash_bump_def hash_update_eq hash_modify_def split: option.splits)

lemma dom_hash_bump:
  "hash_lookup m key \<noteq> None \<or> hash_accepts k m key BPF_ANY \<Longrightarrow>
     dom (hash_lookup (hash_bump k key m)) = insert key (dom (hash_lookup m))"
  by (auto simp: hash_bump_def hash_lookup_update split: option.splits)

text \<open>While the distinct keys fit into the table and the kernel has memory, every key is accepted.\<close>

lemma hash_bumps_accepted:
  assumes "distinct (map fst (hash_ents m))" and "\<forall>x \<in> set xs. room_accepted (fst x)"
    and "card (dom (hash_lookup m) \<union> snd ` set xs) \<le> max_entries (hash_def m)"
  shows "hash_counter.all_accepted xs m"
  using assms
proof (induction xs arbitrary: m)
  case (Cons x xs)
  define key where "key = snd x"
  have fin: "finite (dom (hash_lookup m))"
    unfolding hash_lookup_def by (simp add: finite_dom_map_of)
  have acc: "hash_accepts (fst x) m key BPF_ANY" if "hash_lookup m key = None"
  proof (rule hash_accepts_room)
    show "room_accepted (fst x)" using Cons.prems(2) by simp
    have "card (insert key (dom (hash_lookup m))) \<le> card (dom (hash_lookup m) \<union> snd ` set (x # xs))"
      using fin by (intro card_mono) (auto simp: key_def)
    moreover have "key \<notin> dom (hash_lookup m)" using that by auto
    ultimately show "length (hash_ents m) < max_entries (hash_def m)"
      using Cons.prems(1,3) fin by (simp add: hash_ents_card)
  qed
  then have dom: "dom (hash_lookup (hash_bump (fst x) key m)) = insert key (dom (hash_lookup m))"
    by (intro dom_hash_bump) blast
  have "hash_counter.all_accepted xs (hash_bump (fst x) key m)"
    using Cons.prems by (intro Cons.IH) (simp_all add: distinct_hash_bump dom [unfolded key_def] key_def)
  with acc show ?case by (simp add: key_def)
qed simp

lemma hash_ok_bump [intro]: "full_refused k \<Longrightarrow> hash_ok m \<Longrightarrow> hash_ok (hash_bump k key m)"
  by (auto simp: hash_bump_def split: option.splits)

definition array_bump :: "kenv \<Rightarrow> nat \<Rightarrow> u64 list \<Rightarrow> u64 list" where
  "array_bump k i a =
     (case array_lookup a i of
        Some c \<Rightarrow> a[i := c + 1]
      | None \<Rightarrow> snd (array_update k a i 1 BPF_ANY))"

interpretation array_counter: counter_table array_lookup array_bump "\<lambda>k i a. False"
  by unfold_locales
    (auto simp: array_bump_def array_lookup_def array_update_def split: if_splits)

end
