(* ===== verification/Inspector.thy ===== *)
theory Inspector
  imports Tracing Maps
begin

text \<open>
  The shared part of the probes, \<^verbatim>\<open>src/bpf/headers/inspector.h\<close> and
  \<^verbatim>\<open>src/bpf/headers/feature-switch.h\<close>: the flow keys, tuples and metadata put into
  events, and the functions that fill them from a packet, a socket buffer or a socket. Both
  supported targets are little-endian, so a member of an integer type holds the little-endian
  number of its bytes.
\<close>

section \<open>Constants and records\<close>

definition ETH_P_IP :: u16 where "ETH_P_IP = 0x800"

definition ETH_P_IPV6 :: u16 where "ETH_P_IPV6 = 0x86dd"

definition PF_INET6 :: u16 where "PF_INET6 = 10"

definition IPPROTO_TCP :: u8 where "IPPROTO_TCP = 6"

definition IPPROTO_UDP :: u8 where "IPPROTO_UDP = 17"

definition TASK_COMM_LEN :: nat where "TASK_COMM_LEN = 20"

definition BPF_F_FAST_STACK_CMP :: u64 where "BPF_F_FAST_STACK_CMP = 512"

definition KERN_STACKID_FLAGS :: u64 where "KERN_STACKID_FLAGS = 0 OR BPF_F_FAST_STACK_CMP"

definition PERF_MAX_STACK_DEPTH :: nat where "PERF_MAX_STACK_DEPTH = 32"

lemma ipproto_distinct [simp]: "IPPROTO_TCP \<noteq> IPPROTO_UDP" "IPPROTO_UDP \<noteq> IPPROTO_TCP"
  by (simp_all add: IPPROTO_TCP_def IPPROTO_UDP_def word_eq_iff_unsigned [where 'b = 8])

lemmas inspector_consts =
  ETH_P_IP_def ETH_P_IPV6_def PF_INET6_def IPPROTO_TCP_def IPPROTO_UDP_def TASK_COMM_LEN_def

text \<open>The sixteen bytes of \<^verbatim>\<open>union addr\<close>; an IPv4 address is in the first four.\<close>

type_synonym addr = bytes

record flow_tuple_4 =
  ft_proto :: u8
  ft_src :: u32
  ft_dst :: u32
  ft_sport :: u16
  ft_dport :: u16

record skb_meta =
  netns :: u32
  mark :: u32
  ifindex :: u32
  len :: u32
  mtu :: u32
  sk_state :: u32
  protocol :: u16
  meta_pad :: u16

record tuple =
  saddr :: addr
  daddr :: addr
  sport :: u16
  dport :: u16
  l3_proto :: u16
  l4_proto :: u8
  tuple_pad :: u8

definition zero_flow_tuple :: flow_tuple_4 where
  "zero_flow_tuple = \<lparr>ft_proto = 0, ft_src = 0, ft_dst = 0, ft_sport = 0, ft_dport = 0\<rparr>"

definition zero_meta :: skb_meta where
  "zero_meta = \<lparr>netns = 0, mark = 0, ifindex = 0, len = 0, mtu = 0, sk_state = 0, protocol = 0,
     meta_pad = 0\<rparr>"

definition zero_tuple :: tuple where
  "zero_tuple = \<lparr>saddr = replicate 16 0, daddr = replicate 16 0, sport = 0, dport = 0,
     l3_proto = 0, l4_proto = 0, tuple_pad = 0\<rparr>"

section \<open>Reading members\<close>

text \<open>
  The value of \<^verbatim>\<open>BPF_CORE_READ\<close> at an integer type, and a probe read that replaces an
  integer member.
\<close>

definition core_word :: "kenv \<Rightarrow> u64 \<Rightarrow> kfield list \<Rightarrow> 'a::len word" where
  "core_word k p fs = le_word (BPF_CORE_READ k p (map (k_off k) fs) (LENGTH('a) div 8))"

definition probe_word :: "kenv \<Rightarrow> 'a::len word \<Rightarrow> u64 \<Rightarrow> 'a word" where
  "probe_word k old p = le_word (snd (bpf_probe_read k (word_le old) (LENGTH('a) div 8) p))"

definition field_addr :: "kenv \<Rightarrow> u64 \<Rightarrow> kfield \<Rightarrow> u64" where
  "field_addr k p f = p + of_nat (k_off k f)"

section \<open>Sockets and namespaces\<close>

text \<open>
  Neither \<^verbatim>\<open>CORE\<close> nor \<^verbatim>\<open>LINUX_VERSION_CODE\<close> is defined when the probes are
  built, so the first branch is compiled: one byte, three before the member
  \<^verbatim>\<open>sk_gso_max_segs\<close>.
\<close>

definition get_sock_protocol :: "kenv \<Rightarrow> u64 \<Rightarrow> u16" where
  "get_sock_protocol k sock =
     le_word (snd (bpf_probe_read k (word_le (0 :: u16)) 1
                     (field_addr k sock Sk_gso_max_segs - 3)))"

definition get_sock_netns :: "kenv \<Rightarrow> u64 \<Rightarrow> u32" where
  "get_sock_netns k sk = core_word k sk [Sk_skc_net_net, Net_ns_inum]"

definition get_netns :: "kenv \<Rightarrow> u64 \<Rightarrow> u32" where
  "get_netns k skb =
     (let dev = core_word k skb [Skb_dev] :: u64;
          ns = core_word k dev [Dev_nd_net_net, Net_ns_inum] :: u32
      in if ns = 0 then
           (let sk = core_word k skb [Skb_sk] :: u64
            in if sk \<noteq> 0 then core_word k sk [Sk_skc_net_net, Net_ns_inum] else ns)
         else ns)"

section \<open>Flow keys from packet data\<close>

text \<open>
  A traffic-control program accesses the packet bytes between \<^verbatim>\<open>data\<close> and
  \<^verbatim>\<open>data_end\<close> directly: \<open>pkt\<close> are those bytes, and a load outside them is \<open>None\<close>.
\<close>

definition pkt_load :: "bytes \<Rightarrow> nat \<Rightarrow> nat \<Rightarrow> bytes option" where
  "pkt_load pkt off n = (if off + n \<le> length pkt then Some (slice off n pkt) else None)"

definition load_word :: "bytes \<Rightarrow> nat \<Rightarrow> 'a::len word option" where
  "load_word pkt off = map_option le_word (pkt_load pkt off (LENGTH('a) div 8))"

definition sizeof_ethhdr :: nat where "sizeof_ethhdr = 14"

definition sizeof_iphdr :: nat where "sizeof_iphdr = 20"

definition sizeof_tcphdr :: nat where "sizeof_tcphdr = 20"

definition sizeof_udphdr :: nat where "sizeof_udphdr = 8"

lemmas sizeof_hdrs = sizeof_ethhdr_def sizeof_iphdr_def sizeof_tcphdr_def sizeof_udphdr_def

text \<open>The low four bits of the first byte of the IP header.\<close>

definition load_ihl :: "bytes \<Rightarrow> nat \<Rightarrow> u8 option" where
  "load_ihl pkt iph = map_option (\<lambda>b. b AND 15) (load_word pkt iph :: u8 option)"

text \<open>The ports of a TCP or UDP header at \<open>l4\<close>, which has to fit before \<^verbatim>\<open>data_end\<close>.\<close>

definition set_flow_ports ::
    "bytes \<Rightarrow> nat \<Rightarrow> nat \<Rightarrow> nat \<Rightarrow> nat \<Rightarrow> flow_tuple_4 \<Rightarrow> (int \<times> flow_tuple_4) option" where
  "set_flow_ports pkt l4 hdr source dest tuple =
     (if l4 + hdr > length pkt then Some (- 1, tuple)
      else case load_word pkt (l4 + source) of
             None \<Rightarrow> None
           | Some sp \<Rightarrow>
               (case load_word pkt (l4 + dest) of
                  None \<Rightarrow> None
                | Some dp \<Rightarrow> Some (0, tuple\<lparr>ft_sport := sp, ft_dport := dp\<rparr>)))"

definition set_flow_tuple4 ::
    "(kfield \<Rightarrow> nat) \<Rightarrow> bytes \<Rightarrow> flow_tuple_4 \<Rightarrow> bool \<Rightarrow> (int \<times> flow_tuple_4) option" where
  "set_flow_tuple4 off pkt tuple port =
     (if sizeof_ethhdr > length pkt then Some (- 1, tuple)
      else case load_word pkt (off Eth_h_proto) of
        None \<Rightarrow> None
      | Some h_proto \<Rightarrow>
          if h_proto = bpf_htons ORDER_LITTLE_ENDIAN True ETH_P_IP then
            let iph = sizeof_ethhdr in
            if sizeof_ethhdr + sizeof_iphdr > length pkt then Some (- 1, tuple)
            else
              (case (load_word pkt (iph + off Ip_saddr), load_word pkt (iph + off Ip_daddr),
                     load_word pkt (iph + off Ip_protocol), load_ihl pkt iph) of
                 (Some s, Some d, Some p, Some ihl) \<Rightarrow>
                   let tuple1 = tuple\<lparr>ft_src := s, ft_dst := d, ft_proto := p\<rparr> in
                   if \<not> port then Some (0, tuple1)
                   else
                     let l4_off = of_nat sizeof_ethhdr + ucast ihl * 4 :: u16 in
                     if p = IPPROTO_TCP then
                       set_flow_ports pkt (unat l4_off) sizeof_tcphdr (off Tcp_source) (off Tcp_dest)
                         tuple1
                     else if p = IPPROTO_UDP then
                       set_flow_ports pkt (unat l4_off) sizeof_udphdr (off Udp_source) (off Udp_dest)
                         tuple1
                     else Some (0, tuple1)
               | _ \<Rightarrow> None)
          else if h_proto = bpf_htons ORDER_LITTLE_ENDIAN True ETH_P_IPV6 then
            Some (0, tuple)
          else Some (0, tuple))"

section \<open>Tuples and metadata from a socket buffer\<close>

definition set_tuple :: "kenv \<Rightarrow> u64 \<Rightarrow> tuple \<Rightarrow> int \<times> tuple" where
  "set_tuple k skb tpl =
     (let skb_head = core_word k skb [Skb_head] :: u64;
          l3_off = core_word k skb [Skb_network_header] :: u16;
          l4_off = core_word k skb [Skb_transport_header] :: u16
      in if l3_off = 0 then (- 1, tpl)
         else
           let ip = skb_head + ucast l3_off;
               iphdr_first_byte = le_word (snd (bpf_probe_read k (k_local k 1) 1 ip)) :: u8;
               ip_vsn = drop_bit 4 iphdr_first_byte;
               l3 =
                 (if ip_vsn = 4 then
                    Some (tpl\<lparr>saddr := snd (bpf_probe_read k (saddr tpl) 4 (field_addr k ip Ip_saddr)),
                              daddr := snd (bpf_probe_read k (daddr tpl) 4 (field_addr k ip Ip_daddr)),
                              l4_proto := probe_word k (l4_proto tpl) (field_addr k ip Ip_protocol),
                              l3_proto := ETH_P_IP\<rparr>)
                  else if ip_vsn = 6 then
                    Some (tpl\<lparr>saddr := snd (bpf_probe_read k (saddr tpl) 16 (field_addr k ip Ip6_saddr)),
                              daddr := snd (bpf_probe_read k (daddr tpl) 16 (field_addr k ip Ip6_daddr)),
                              l4_proto := probe_word k (l4_proto tpl) (field_addr k ip Ip6_nexthdr),
                              l3_proto := ETH_P_IPV6\<rparr>)
                  else None)
           in case l3 of
                None \<Rightarrow> (- 1, tpl)
              | Some tpl1 \<Rightarrow>
                  let l4 = skb_head + ucast l4_off;
                      tpl2 =
                        (if l4_proto tpl1 = IPPROTO_TCP then
                           tpl1\<lparr>sport := probe_word k (sport tpl1) (field_addr k l4 Tcp_source),
                                dport := probe_word k (dport tpl1) (field_addr k l4 Tcp_dest)\<rparr>
                         else if l4_proto tpl1 = IPPROTO_UDP then
                           tpl1\<lparr>sport := probe_word k (sport tpl1) (field_addr k l4 Udp_source),
                                dport := probe_word k (dport tpl1) (field_addr k l4 Udp_dest)\<rparr>
                         else tpl1)
                  in (0, tpl2\<lparr>sport := bpf_htons ORDER_LITTLE_ENDIAN False (sport tpl2),
                              dport := bpf_htons ORDER_LITTLE_ENDIAN False (dport tpl2)\<rparr>))"

definition set_meta :: "kenv \<Rightarrow> u64 \<Rightarrow> skb_meta \<Rightarrow> skb_meta" where
  "set_meta k skb meta =
     meta\<lparr>netns := get_netns k skb,
          mark := core_word k skb [Skb_mark],
          len := core_word k skb [Skb_len],
          protocol := core_word k skb [Skb_protocol],
          ifindex := core_word k skb [Skb_dev, Dev_ifindex],
          mtu := core_word k skb [Skb_dev, Dev_mtu]\<rparr>"

section \<open>Tuples and metadata from a socket\<close>

definition set_meta_sock :: "kenv \<Rightarrow> u64 \<Rightarrow> skb_meta \<Rightarrow> skb_meta" where
  "set_meta_sock k sk meta =
     meta\<lparr>netns := core_word k sk [Sk_skc_net_net, Net_ns_inum],
          protocol := get_sock_protocol k sk\<rparr>"

definition set_tuple_sock :: "kenv \<Rightarrow> u64 \<Rightarrow> tuple \<Rightarrow> tuple" where
  "set_tuple_sock k sk tpl =
     (let skc_family = core_word k sk [Sk_skc_family] :: u16;
          tpl1 =
            (if skc_family = PF_INET6 then tpl\<lparr>l3_proto := ETH_P_IPV6\<rparr>
             else tpl\<lparr>saddr := snd (bpf_probe_read k (saddr tpl) 4 (field_addr k sk Sk_skc_rcv_saddr)),
                      daddr := snd (bpf_probe_read k (daddr tpl) 4 (field_addr k sk Sk_skc_daddr)),
                      l3_proto := ETH_P_IP\<rparr>)
      in tpl1\<lparr>sport := core_word k sk [Sk_skc_num],
              dport := core_word k sk [Sk_skc_dport],
              l4_proto := ucast (get_sock_protocol k sk)\<rparr>)"

section \<open>Feature switches\<close>

text \<open>
  \<^verbatim>\<open>FEATURE_SWITCH(probe)\<close> declares a per-CPU array of sixteen bytes and the test of one
  of its entries.
\<close>

definition feature_switch_def :: bpf_map_def where
  "feature_switch_def = \<lparr>map_type = BPF_MAP_TYPE_PERCPU_ARRAY, key_size = 4, value_size = 1,
     max_entries = 16, map_flags = 0\<rparr>"

type_synonym feature_switch = "(u32 \<Rightarrow> u8) list"

definition is_enable :: "kenv \<Rightarrow> feature_switch \<Rightarrow> nat \<Rightarrow> bool" where
  "is_enable k sw key = (case array_lookup sw key of Some v \<Rightarrow> v (k_cpu k) \<noteq> 0 | None \<Rightarrow> False)"

section \<open>Reads that succeed\<close>

lemma probe_word_read:
  assumes "fetch k p (LENGTH('a) div 8) = Some bs"
  shows "probe_word k (old :: 'a::len word) p = le_word bs"
  using assms length_fetch [OF assms]
  by (simp add: probe_word_def bpf_probe_read_def overlay_def)

lemma core_word_read:
  assumes "kernel_ok k" and "fetch k (field_addr k p f) (LENGTH('a) div 8) = Some bs"
  shows "(core_word k p [f] :: 'a::len word) = le_word bs"
  using assms length_fetch [OF assms(2)]
  by (simp add: core_word_def BPF_CORE_READ_def bpf_core_read_def probe_read_kernel_eq field_addr_def
      bpf_probe_read_def overlay_def kernel_ok_def)

lemma core_word_word:
  assumes "kernel_ok k" and "holds k (field_addr k p f) (word_le (w :: 'a::len word))"
    and "8 dvd LENGTH('a)"
  shows "(core_word k p [f] :: 'a word) = w"
  using assms core_word_read [of k p f "word_le w", where 'a = 'a]
  by (simp add: holds_def le_word_word_le)

text \<open>Following one pointer: the member is read from where the pointer member points.\<close>

lemma core_word_follow:
  assumes "kernel_ok k" and "holds k (field_addr k p f) (word_le (q :: u64))"
  shows "(core_word k p [f, g] :: 'a::len word) =
    le_word (snd (bpf_probe_read k (k_local k (LENGTH('a) div 8)) (LENGTH('a) div 8)
      (field_addr k q g)))"
  using assms
  by (simp add: core_word_def BPF_CORE_READ_def bpf_core_read_def probe_read_kernel_eq field_addr_def
      bpf_probe_read_def overlay_def kernel_ok_def holds_def)

lemma probe_bytes_read:
  "fetch k p n = Some bs \<Longrightarrow> snd (bpf_probe_read k dst n p) = bs @ drop n dst"
  by (simp add: bpf_probe_read_def overlay_def length_fetch)

section \<open>Tuples of the packets on the wire\<close>

text \<open>
  An IPv4 header: version and header length, eight bytes up to the protocol, the protocol, the
  checksum and the addresses; an IPv6 header: version and traffic class, five bytes, the next
  header, the hop limit and the addresses.
\<close>

definition ipv4_header :: "u8 \<Rightarrow> bytes \<Rightarrow> u8 \<Rightarrow> u16 \<Rightarrow> u32 \<Rightarrow> u32 \<Rightarrow> bytes" where
  "ipv4_header vihl mid proto check s d =
     [vihl] @ mid @ [proto] @ word_be check @ word_be s @ word_be d"

definition ipv6_header :: "u8 \<Rightarrow> bytes \<Rightarrow> u8 \<Rightarrow> u8 \<Rightarrow> bytes \<Rightarrow> bytes \<Rightarrow> bytes" where
  "ipv6_header vtc mid nexthdr hop s d = [vtc] @ mid @ [nexthdr, hop] @ s @ d"

definition ports_bytes :: "u16 \<Rightarrow> u16 \<Rightarrow> bytes" where
  "ports_bytes sp dp = word_be sp @ word_be dp"

text \<open>A socket buffer with the given packet head and header offsets.\<close>

definition skb_at :: "kenv \<Rightarrow> u64 \<Rightarrow> u64 \<Rightarrow> u16 \<Rightarrow> u16 \<Rightarrow> bool" where
  "skb_at k skb head nh th \<longleftrightarrow>
     holds k (field_addr k skb Skb_head) (word_le head) \<and>
     holds k (field_addr k skb Skb_network_header) (word_le nh) \<and>
     holds k (field_addr k skb Skb_transport_header) (word_le th)"

lemma length_ipv4_header [simp]: "length mid = 8 \<Longrightarrow> length (ipv4_header v mid p c s d) = 20"
  by (simp add: ipv4_header_def)

lemma length_ipv6_header [simp]:
  "length mid = 5 \<Longrightarrow> length s = 16 \<Longrightarrow> length d = 16 \<Longrightarrow> length (ipv6_header v mid p h s d) = 40"
  by (simp add: ipv6_header_def)

lemma ipv4_header_members:
  assumes "length mid = 8"
  shows "slice 0 1 (ipv4_header v mid p c s d) = [v]"
    and "slice 9 1 (ipv4_header v mid p c s d) = [p]"
    and "slice 12 4 (ipv4_header v mid p c s d) = word_be s"
    and "slice 16 4 (ipv4_header v mid p c s d) = word_be d"
  using assms by (simp_all add: ipv4_header_def slice_def)

lemma ipv6_header_members:
  assumes "length mid = 5" "length s = 16" "length d = 16"
  shows "slice 0 1 (ipv6_header v mid p h s d) = [v]"
    and "slice 6 1 (ipv6_header v mid p h s d) = [p]"
    and "slice 8 16 (ipv6_header v mid p h s d) = s"
    and "slice 24 16 (ipv6_header v mid p h s d) = d"
  using assms by (simp_all add: ipv6_header_def slice_def)

lemma ports_bytes_members:
  "length (ports_bytes sp dp) = 4"
  "slice 0 2 (ports_bytes sp dp) = word_be sp" "slice 2 2 (ports_bytes sp dp) = word_be dp"
  by (simp_all add: ports_bytes_def slice_def)

lemma le_word_single [simp]: "(le_word [b] :: u8) = b"
  by (simp add: byte_simps)

lemma bswap16_le_word_word_be [simp]: "builtin_bswap16 (le_word (word_be x)) = x"
  by (simp add: le_word_be_word16 be_word_word_be)

lemma probe_port:
  assumes "fetch k p 2 = Some (word_be (x :: u16))"
  shows "builtin_bswap16 (probe_word k old p) = x"
  using probe_word_read [of k p "word_be x" old] assms by simp

text \<open>The part of \<open>set_tuple\<close> after the network header has been read.\<close>

lemma skb_at_reads:
  assumes "kernel_ok k" and "skb_at k skb head nh th"
  shows "core_word k skb [Skb_head] = head" "core_word k skb [Skb_network_header] = nh"
    "core_word k skb [Skb_transport_header] = th"
  using assms by (simp_all add: skb_at_def core_word_word)

lemma set_tuple_v4:
  assumes "kernel_ok k" and "wire_layout (k_off k)" and "skb_at k skb head nh th" and "nh \<noteq> 0"
    and "holds k (head + ucast nh) (ipv4_header vihl mid proto check s d)"
    and "length mid = 8" and "drop_bit 4 vihl = 4"
    and "proto = IPPROTO_TCP \<or> proto = IPPROTO_UDP"
    and "holds k (head + ucast th) (ports_bytes sp dp)"
  shows "set_tuple k skb zero_tuple =
    (0, \<lparr>saddr = word_be s @ replicate 12 0, daddr = word_be d @ replicate 12 0, sport = sp,
         dport = dp, l3_proto = ETH_P_IP, l4_proto = proto, tuple_pad = 0\<rparr>)"
proof -
  define ip where "ip = head + ucast nh"
  define l4 where "l4 = head + ucast th"
  note hdr = holds_slice [OF assms(5) [folded ip_def]] ipv4_header_members [OF assms(6)]
  have first: "le_word (snd (bpf_probe_read k (k_local k 1) 1 ip)) = vihl"
    using hdr(1) [of 0 1] hdr(2) assms(1,6) by (simp add: probe_bytes_read kernel_ok_def)
  have addrs: "snd (bpf_probe_read k (replicate 16 0) 4 (field_addr k ip Ip_saddr)) =
      word_be s @ replicate 12 0"
    "snd (bpf_probe_read k (replicate 16 0) 4 (field_addr k ip Ip_daddr)) =
      word_be d @ replicate 12 0"
    using hdr(1) [of 12 4] hdr(1) [of 16 4] hdr(4,5) assms(2,6)
    by (simp_all add: field_addr_def wire_layout_def probe_bytes_read)
  have proto: "probe_word k (0 :: u8) (field_addr k ip Ip_protocol) = proto"
    using hdr(1) [of 9 1] hdr(3) assms(2,6)
    by (simp add: field_addr_def wire_layout_def probe_word_read)
  note prt = holds_slice [OF assms(9) [folded l4_def], of 0 2]
    holds_slice [OF assms(9) [folded l4_def], of 2 2]
  have ports: "builtin_bswap16 (probe_word k 0 (field_addr k l4 f)) = sp"
    "builtin_bswap16 (probe_word k 0 (field_addr k l4 g)) = dp"
    if "f \<in> {Tcp_source, Udp_source}" "g \<in> {Tcp_dest, Udp_dest}" for f g
    using prt assms(2) that
    by (auto intro!: probe_port simp: field_addr_def wire_layout_def ports_bytes_members)
  show ?thesis
    using assms(4,7,8) first addrs proto ports [of Tcp_source Tcp_dest]
      ports [of Udp_source Udp_dest]
    by (auto simp: set_tuple_def skb_at_reads [OF assms(1,3)] Let_def zero_tuple_def
        ip_def [symmetric] l4_def [symmetric])
qed

text \<open>
  C15: for a socket buffer that carries an IPv4 packet with a TCP or UDP header,
  \<open>set_tuple\<close> succeeds and the tuple holds the addresses as on the wire, zero-padded, the
  protocol, and the port numbers in host byte order.
\<close>

theorem set_tuple_ipv4:
  assumes "kernel_ok k" and "wire_layout (k_off k)" and "skb_at k skb head nh th" and "nh \<noteq> 0"
    and "holds k (head + ucast nh) (ipv4_header vihl mid proto check s d)"
    and "length mid = 8" and "drop_bit 4 vihl = 4"
    and "proto = IPPROTO_TCP \<or> proto = IPPROTO_UDP"
    and "holds k (head + ucast th) (ports_bytes sp dp)"
  shows "set_tuple k skb zero_tuple =
    (0, \<lparr>saddr = word_be s @ replicate 12 0, daddr = word_be d @ replicate 12 0, sport = sp,
         dport = dp, l3_proto = ETH_P_IP, l4_proto = proto, tuple_pad = 0\<rparr>)"
  by (rule set_tuple_v4 [OF assms])

text \<open>A kernel with a TCP packet from 10.0.0.1:80 to 10.0.0.2:1000 in the socket buffer at 4096.\<close>

definition tcp_packet :: bytes where
  "tcp_packet = ipv4_header 0x45 (replicate 8 0) IPPROTO_TCP 0 0x0a000001 0x0a000002"

definition tcp_kernel :: kenv where
  "tcp_kernel = sample_kernel\<lparr>k_mem := mem_of
     [(4096 + 192, word_le (8192 :: u64)), (4096 + 180, word_le (32 :: u16)),
      (4096 + 178, word_le (52 :: u16)),
      (8192 + 32, tcp_packet), (8192 + 52, ports_bytes 80 1000)]\<rparr>"

lemma tcp_kernel_facts:
  "kernel_ok tcp_kernel" "wire_layout (k_off tcp_kernel)" "skb_at tcp_kernel 4096 8192 32 52"
  "holds tcp_kernel (8192 + ucast (32 :: u16))
     (ipv4_header 0x45 (replicate 8 0) IPPROTO_TCP 0 0x0a000001 0x0a000002)"
  "holds tcp_kernel (8192 + ucast (52 :: u16)) (ports_bytes 80 1000)"
proof -
  show "kernel_ok tcp_kernel" "wire_layout (k_off tcp_kernel)"
    using sample_kernel_ok wire_layout_vmlinux by (simp_all add: tcp_kernel_def kernel_ok_def)
  show "skb_at tcp_kernel 4096 8192 32 52"
    by (simp add: skb_at_def tcp_kernel_def field_addr_def amd64_offset_eval slice_def holds_mem_of)
  have "length tcp_packet = 20" by (simp add: tcp_packet_def)
  then show "holds tcp_kernel (8192 + ucast (32 :: u16))
      (ipv4_header 0x45 (replicate 8 0) IPPROTO_TCP 0 0x0a000001 0x0a000002)"
    "holds tcp_kernel (8192 + ucast (52 :: u16)) (ports_bytes 80 1000)"
    unfolding tcp_packet_def [symmetric]
    by (simp_all add: tcp_kernel_def holds_mem_of slice_def ports_bytes_members(1))
qed

theorem set_tuple_ipv4_witness:
  "kernel_ok tcp_kernel \<and> wire_layout (k_off tcp_kernel) \<and> skb_at tcp_kernel 4096 8192 32 52 \<and>
   set_tuple tcp_kernel 4096 zero_tuple =
    (0, \<lparr>saddr = word_be (0x0a000001 :: u32) @ replicate 12 0,
         daddr = word_be (0x0a000002 :: u32) @ replicate 12 0, sport = 80,
         dport = 1000, l3_proto = ETH_P_IP, l4_proto = IPPROTO_TCP, tuple_pad = 0\<rparr>)"
proof -
  have "drop_bit 4 (0x45 :: u8) = 4" by simp
  then show ?thesis
    using set_tuple_ipv4 [OF tcp_kernel_facts(1-3) _ tcp_kernel_facts(4) _ _ _ tcp_kernel_facts(5)] tcp_kernel_facts(1-3)
    by simp
qed

text \<open>
  The same for an IPv6 packet whose next header is TCP or UDP: the tuple
  holds the full addresses and the ports in host byte order.
\<close>

lemma set_tuple_ipv6:
  assumes "kernel_ok k" and "wire_layout (k_off k)" and "skb_at k skb head nh th" and "nh \<noteq> 0"
    and "holds k (head + ucast nh) (ipv6_header vtc mid proto hop s d)"
    and "length mid = 5" and "length s = 16" and "length d = 16" and "drop_bit 4 vtc = 6"
    and "proto = IPPROTO_TCP \<or> proto = IPPROTO_UDP"
    and "holds k (head + ucast th) (ports_bytes sp dp)"
  shows "set_tuple k skb zero_tuple =
    (0, \<lparr>saddr = s, daddr = d, sport = sp, dport = dp, l3_proto = ETH_P_IPV6, l4_proto = proto,
         tuple_pad = 0\<rparr>)"
proof -
  define ip where "ip = head + ucast nh"
  define l4 where "l4 = head + ucast th"
  note hdr = holds_slice [OF assms(5) [folded ip_def]] ipv6_header_members [OF assms(6-8)]
  have first: "le_word (snd (bpf_probe_read k (k_local k 1) 1 ip)) = vtc"
    using hdr(1) [of 0 1] hdr(2) assms(1,6-8) by (simp add: probe_bytes_read kernel_ok_def)
  have addrs: "snd (bpf_probe_read k (replicate 16 0) 16 (field_addr k ip Ip6_saddr)) = s"
    "snd (bpf_probe_read k (replicate 16 0) 16 (field_addr k ip Ip6_daddr)) = d"
    using hdr(1) [of 8 16] hdr(1) [of 24 16] hdr(4,5) assms(2,6-8)
    by (simp_all add: field_addr_def wire_layout_def probe_bytes_read)
  have proto: "probe_word k (0 :: u8) (field_addr k ip Ip6_nexthdr) = proto"
    using hdr(1) [of 6 1] hdr(3) assms(2,6-8)
    by (simp add: field_addr_def wire_layout_def probe_word_read)
  note prt = holds_slice [OF assms(11) [folded l4_def], of 0 2]
    holds_slice [OF assms(11) [folded l4_def], of 2 2]
  have ports: "builtin_bswap16 (probe_word k 0 (field_addr k l4 f)) = sp"
    "builtin_bswap16 (probe_word k 0 (field_addr k l4 g)) = dp"
    if "f \<in> {Tcp_source, Udp_source}" "g \<in> {Tcp_dest, Udp_dest}" for f g
    using prt assms(2) that
    by (auto intro!: probe_port simp: field_addr_def wire_layout_def ports_bytes_members)
  show ?thesis
    using assms(4,9,10) first addrs proto ports [of Tcp_source Tcp_dest]
      ports [of Udp_source Udp_dest]
    by (auto simp: set_tuple_def skb_at_reads [OF assms(1,3)] Let_def zero_tuple_def
        ip_def [symmetric] l4_def [symmetric])
qed

definition udp6_packet :: bytes where
  "udp6_packet = ipv6_header 0x60 (replicate 5 0) IPPROTO_UDP 64 (replicate 16 1) (replicate 16 2)"

definition udp6_kernel :: kenv where
  "udp6_kernel = sample_kernel\<lparr>k_mem := mem_of
     [(4096 + 192, word_le (8192 :: u64)), (4096 + 180, word_le (32 :: u16)),
      (4096 + 178, word_le (72 :: u16)),
      (8192 + 32, udp6_packet), (8192 + 72, ports_bytes 53 4000)]\<rparr>"

lemma set_tuple_ipv6_witness:
  "kernel_ok udp6_kernel \<and> skb_at udp6_kernel 4096 8192 32 72 \<and>
   set_tuple udp6_kernel 4096 zero_tuple =
    (0, \<lparr>saddr = replicate 16 1, daddr = replicate 16 2, sport = 53, dport = 4000,
         l3_proto = ETH_P_IPV6, l4_proto = IPPROTO_UDP, tuple_pad = 0\<rparr>)"
proof -
  have ok: "kernel_ok udp6_kernel" "wire_layout (k_off udp6_kernel)"
    using sample_kernel_ok wire_layout_vmlinux
    by (simp_all add: udp6_kernel_def kernel_ok_def)
  have skb: "skb_at udp6_kernel 4096 8192 32 72"
    by (simp add: skb_at_def udp6_kernel_def field_addr_def amd64_offset_eval slice_def holds_mem_of)
  have "length udp6_packet = 40" by (simp add: udp6_packet_def)
  then have "holds udp6_kernel (8192 + ucast (32 :: u16)) udp6_packet"
    "holds udp6_kernel (8192 + ucast (72 :: u16)) (ports_bytes 53 4000)"
    by (simp_all add: udp6_kernel_def holds_mem_of slice_def ports_bytes_members(1))
  moreover have "drop_bit 4 (0x60 :: u8) = 6" by simp
  ultimately show ?thesis
    using set_tuple_ipv6 [OF ok skb, where vtc = "0x60" and mid = "replicate 5 0"
        and proto = IPPROTO_UDP and hop = 64 and s = "replicate 16 1" and d = "replicate 16 2"
        and sp = 53 and dp = 4000] ok skb
    by (simp add: udp6_packet_def)
qed

text \<open>What \<open>set_tuple\<close> does when there is no network header or the version is another one.\<close>

lemma set_tuple_invalid:
  "core_word k skb [Skb_network_header] = (0 :: u16) \<Longrightarrow> set_tuple k skb tpl = (- 1, tpl)"
  by (simp add: set_tuple_def Let_def)

lemma set_tuple_status: "fst (set_tuple k skb tpl) \<in> {- 1, 0}"
  by (simp add: set_tuple_def Let_def)

lemma set_tuple_l3:
  "fst (set_tuple k skb tpl) = 0 \<Longrightarrow> l3_proto (snd (set_tuple k skb tpl)) \<in> {ETH_P_IP, ETH_P_IPV6}"
  by (auto simp: set_tuple_def Let_def split: if_splits)

section \<open>Flow keys\<close>

lemma load_word_ok:
  "off + LENGTH('a) div 8 \<le> length pkt \<Longrightarrow>
     (load_word pkt off :: 'a::len word option) = Some (le_word (slice off (LENGTH('a) div 8) pkt))"
  by (simp add: load_word_def pkt_load_def)

lemma load_ihl_ok:
  "iph < length pkt \<Longrightarrow> load_ihl pkt iph = Some (le_word (slice iph 1 pkt) AND 15)"
  by (simp add: load_ihl_def load_word_ok)

text \<open>The offset of the transport header: fourteen bytes and four per word of the IP header.\<close>

lemma unat_l4_off: "unat (of_nat sizeof_ethhdr + ucast (b AND 15 :: u8) * 4 :: u16) = 14 + 4 * unat (b AND 15)"
  and unat_ihl_le: "unat (b AND 15 :: u8) \<le> 15"
proof -
  have "b AND 15 \<le> 15" by (rule word_and_le1)
  then show le: "unat (b AND 15 :: u8) \<le> 15" by (simp add: word_le_nat_alt)
  then show "unat (of_nat sizeof_ethhdr + ucast (b AND 15 :: u8) * 4 :: u16) = 14 + 4 * unat (b AND 15)"
    by (simp add: sizeof_hdrs unat_word_ariths unsigned_ucast_eq take_bit_nat_eq_self)
qed

lemma set_flow_ports_eq:
  assumes "source + 2 \<le> hdr" and "dest + 2 \<le> hdr"
  shows "set_flow_ports pkt l4 hdr source dest tuple =
    (if length pkt < l4 + hdr then Some (- 1, tuple)
     else Some (0, tuple\<lparr>ft_sport := le_word (slice (l4 + source) 2 pkt),
                         ft_dport := le_word (slice (l4 + dest) 2 pkt)\<rparr>))"
  using assms by (simp add: set_flow_ports_def load_word_ok)

text \<open>
  \<open>set_flow_tuple4\<close> without the loads: with the members where the wire format puts them, every
  load succeeds.
\<close>

lemma set_flow_tuple4_eq:
  assumes "wire_layout off"
  shows "set_flow_tuple4 off pkt tuple port =
    (if length pkt < 14 then Some (- 1, tuple)
     else if le_word (slice 12 2 pkt) = builtin_bswap16 ETH_P_IP then
       if length pkt < 34 then Some (- 1, tuple)
       else
         let p = le_word (slice 23 1 pkt);
             l4 = 14 + 4 * unat (le_word (slice 14 1 pkt) AND 15 :: u8);
             tuple1 = tuple\<lparr>ft_src := le_word (slice 26 4 pkt), ft_dst := le_word (slice 30 4 pkt),
                            ft_proto := p\<rparr>
         in if port \<and> (p = IPPROTO_TCP \<or> p = IPPROTO_UDP) then
              if length pkt < l4 + (if p = IPPROTO_TCP then 20 else 8) then Some (- 1, tuple1)
              else Some (0, tuple1\<lparr>ft_sport := le_word (slice l4 2 pkt),
                                   ft_dport := le_word (slice (l4 + 2) 2 pkt)\<rparr>)
            else Some (0, tuple1)
     else Some (0, tuple))"
  using assms
  by (simp add: set_flow_tuple4_def wire_layout_def sizeof_hdrs load_word_ok load_ihl_ok
      set_flow_ports_eq unat_l4_off [unfolded sizeof_hdrs, simplified] Let_def)

lemma set_flow_tuple4_total:
  "wire_layout off \<Longrightarrow> \<exists>r t. set_flow_tuple4 off pkt tuple port = Some (r, t)"
  by (auto simp: set_flow_tuple4_eq Let_def)

text \<open>
  C36: whatever the packet bytes are, however short, \<open>set_flow_tuple4\<close> never
  loads outside them; it returns 0 or -1, and -1 only for a packet that ends before the longest
  Ethernet, IPv4 and TCP header.
\<close>

theorem flow_tuple4_safe:
  assumes "wire_layout off"
  shows "\<exists>r t. set_flow_tuple4 off pkt tuple port = Some (r, t) \<and>
           (r = 0 \<or> r = - 1 \<and> length pkt < 14 + 4 * 15 + 20)"
  using unat_ihl_le [of "le_word (slice 14 1 pkt)"]
  by (auto simp: set_flow_tuple4_eq [OF assms] Let_def)

theorem flow_tuple4_safe_witness:
  "wire_layout amd64_offset \<and>
   (\<exists>r t. set_flow_tuple4 amd64_offset [0x45, 0, 0] zero_flow_tuple True = Some (r, t) \<and>
      (r = 0 \<or> r = - 1 \<and> length [0x45, 0, 0 :: u8] < 14 + 4 * 15 + 20))"
  using flow_tuple4_safe [OF wire_layout_vmlinux(1)] wire_layout_vmlinux(1) by blast

text \<open>An Ethernet frame with an IPv4 packet: addresses, type, header, options and the rest.\<close>

definition ipv4_frame :: "bytes \<Rightarrow> bytes \<Rightarrow> bytes \<Rightarrow> bytes \<Rightarrow> bytes" where
  "ipv4_frame macs hdr opts seg = macs @ word_be ETH_P_IP @ hdr @ opts @ seg"

lemma ipv4_frame_slices:
  assumes "length macs = 12" and "length hdr = 20"
  shows "slice 12 2 (ipv4_frame macs hdr opts seg) = word_be ETH_P_IP"
    and "i + n \<le> 20 \<Longrightarrow> slice (14 + i) n (ipv4_frame macs hdr opts seg) = slice i n hdr"
    and "slice (34 + length opts + j) n (ipv4_frame macs hdr opts seg) = slice j n seg"
    and "length (ipv4_frame macs hdr opts seg) = 34 + length opts + length seg"
  using assms by (simp_all add: ipv4_frame_def slice_def)

lemma set_flow_tuple4_v4:
  assumes "wire_layout off" and "length macs = 12" and "length mid = 8" and "length opts \<le> 40"
    and "unat (vihl AND 15) * 4 = 20 + length opts"
    and "proto = IPPROTO_TCP \<and> 16 \<le> length rest \<or> proto = IPPROTO_UDP \<and> 4 \<le> length rest"
  shows "set_flow_tuple4 off
      (ipv4_frame macs (ipv4_header vihl mid proto check s d) opts (ports_bytes sp dp @ rest))
      zero_flow_tuple port =
    Some (0, \<lparr>ft_proto = proto, ft_src = builtin_bswap32 s, ft_dst = builtin_bswap32 d,
              ft_sport = if port then builtin_bswap16 sp else 0,
              ft_dport = if port then builtin_bswap16 dp else 0\<rparr>)"
proof -
  define hdr where "hdr = ipv4_header vihl mid proto check s d"
  have hdr: "length hdr = 20" "slice 0 1 hdr = [vihl]" "slice 9 1 hdr = [proto]"
    "slice 12 4 hdr = word_be s" "slice 16 4 hdr = word_be d"
    using assms(3) ipv4_header_members by (auto simp: hdr_def)
  define l4 where "l4 = ports_bytes sp dp @ rest"
  have ports: "slice 0 2 l4 = word_be sp" "slice 2 2 l4 = word_be dp" "length l4 = 4 + length rest"
    by (simp_all add: l4_def ports_bytes_def slice_def)
  note frame = ipv4_frame_slices [OF assms(2) hdr(1), where opts = opts and seg = l4]
  have be: "le_word (word_be x) = builtin_bswap16 x" "le_word (word_be y) = builtin_bswap32 y" for x y
    by (simp_all add: builtin_bswap16_def builtin_bswap32_def word_be_def)
  show ?thesis
    using assms(4-6) hdr ports frame(2) [of 0 1] frame(2) [of 9 1] frame(2) [of 12 4] frame(2) [of 16 4]
      frame(3) [of 0 2] frame(3) [of 2 2]
    unfolding hdr_def [symmetric] l4_def [symmetric]
    by (auto simp: set_flow_tuple4_eq [OF assms(1)] frame be Let_def zero_flow_tuple_def
        algebra_simps)
qed

text \<open>
  C35: the key of a TCP or UDP frame over IPv4, with any IP options, has the
  protocol and the addresses of the packet in network byte order, and the ports too when they are
  enabled, zero otherwise. Frames of different flows therefore get different keys and frames of
  one flow the same key.
\<close>

theorem flow_tuple4_ipv4:
  assumes "wire_layout off" and "length macs = 12" and "length mid = 8" and "length opts \<le> 40"
    and "unat (vihl AND 15) * 4 = 20 + length opts"
    and "proto = IPPROTO_TCP \<and> 16 \<le> length rest \<or> proto = IPPROTO_UDP \<and> 4 \<le> length rest"
  shows "set_flow_tuple4 off
      (ipv4_frame macs (ipv4_header vihl mid proto check s d) opts (ports_bytes sp dp @ rest))
      zero_flow_tuple port =
    Some (0, \<lparr>ft_proto = proto, ft_src = builtin_bswap32 s, ft_dst = builtin_bswap32 d,
              ft_sport = if port then builtin_bswap16 sp else 0,
              ft_dport = if port then builtin_bswap16 dp else 0\<rparr>)"
  by (rule set_flow_tuple4_v4 [OF assms])

theorem flow_tuple4_ipv4_witness:
  "wire_layout amd64_offset \<and>
   set_flow_tuple4 amd64_offset
     (ipv4_frame (replicate 12 0) (ipv4_header 0x46 (replicate 8 0) IPPROTO_UDP 0 0x0a000001 0x0a000002)
        (replicate 4 0) (ports_bytes 53 4000 @ replicate 4 0))
     zero_flow_tuple True =
   Some (0, \<lparr>ft_proto = IPPROTO_UDP, ft_src = builtin_bswap32 0x0a000001,
             ft_dst = builtin_bswap32 0x0a000002, ft_sport = builtin_bswap16 53,
             ft_dport = builtin_bswap16 4000\<rparr>)"
  using flow_tuple4_ipv4 [OF wire_layout_vmlinux(1), of "replicate 12 0" "replicate 8 0" "replicate 4 0"
      "0x46" IPPROTO_UDP "replicate 4 0" 0 "0x0a000001" "0x0a000002" 53 4000 True]
    wire_layout_vmlinux(1)
  by simp

section \<open>Sockets\<close>

lemma sock_member_offsets:
  "offsetof amd64_sock [''sk_protocol''] = 529" "offsetof amd64_sock [''sk_type''] = 530"
  "offsetof arm64_sock [''sk_type''] = 530" "offsetof arm64_sock [''sk_protocol''] = 532"
  unfolding offsetof_def by (simp_all add: layout_simps cong: layout_congs)

lemma sock_protocol_byte:
  assumes "fetch k (field_addr k sk Sk_gso_max_segs - 3) 1 = Some [b]"
  shows "get_sock_protocol k sk = ucast b"
proof -
  have "snd (bpf_probe_read k (word_le (0 :: u16)) 1 (field_addr k sk Sk_gso_max_segs - 3)) = [b, 0]"
    using assms by (simp add: probe_bytes_read word_le_def upt_rec)
  then show ?thesis
    by (simp add: get_sock_protocol_def byte_simps)
qed

text \<open>
  Going back three bytes from the segment limit finds the protocol of
  the socket in the layout of the amd64 header, where the protocol is the byte there; in the
  layout of the arm64 header, in which the protocol is a 16-bit member of its own, the same
  address is the high byte of the socket type, so the function returns that byte and not the
  protocol.
\<close>

lemma sock_protocol_layouts:
  assumes "k_off k Sk_gso_max_segs = amd64_offset Sk_gso_max_segs"
    and "fetch k (sk + of_nat (offsetof amd64_sock [''sk_protocol''])) 1 = Some [proto]"
    and "k_off k' Sk_gso_max_segs = arm64_offset Sk_gso_max_segs"
    and "fetch k' (sk' + of_nat (offsetof arm64_sock [''sk_type''])) 4 = Some (word_le sk_type @ word_le sk_proto)"
  shows "get_sock_protocol k sk = ucast (proto :: u8) \<and>
         get_sock_protocol k' sk' = drop_bit 8 (sk_type :: u16)"
proof
  have "field_addr k sk Sk_gso_max_segs - 3 = sk + of_nat (offsetof amd64_sock [''sk_protocol''])"
    using assms(1) by (simp add: field_addr_def amd64_offset_eval sock_member_offsets)
  with assms(2) show "get_sock_protocol k sk = ucast proto"
    by (intro sock_protocol_byte) simp
  have addr: "field_addr k' sk' Sk_gso_max_segs - 3 =
      (sk' + of_nat (offsetof arm64_sock [''sk_type''])) + of_nat 1"
    using assms(3) by (simp add: field_addr_def arm64_offset_eval sock_member_offsets)
  have "fetch k' (field_addr k' sk' Sk_gso_max_segs - 3) 1 =
      Some (slice 1 1 (word_le sk_type @ word_le sk_proto))"
    unfolding addr by (rule fetch_slice [OF assms(4)]) simp
  also have "slice 1 1 (word_le sk_type @ word_le sk_proto) = [ucast (drop_bit 8 sk_type)]"
    by (simp add: slice_def word_le_def upt_rec)
  finally have "get_sock_protocol k' sk' = ucast (ucast (drop_bit 8 sk_type) :: u8)"
    by (rule sock_protocol_byte)
  also have "\<dots> = drop_bit 8 sk_type"
    by (rule bit_word_eqI) (auto simp: bit_simps dest: bit_imp_le_length)
  finally show "get_sock_protocol k' sk' = drop_bit 8 sk_type" .
qed

text \<open>The arm64 layout with a stream socket (type 1) of protocol 6: the function returns 0.\<close>

lemma sock_protocol_layouts_witness:
  "get_sock_protocol (sample_kernel\<lparr>k_mem := mem_of [(4096 + 529, [6])]\<rparr>) 4096 = 6 \<and>
   get_sock_protocol
     (sample_kernel\<lparr>k_off := arm64_offset,
        k_mem := mem_of [(4096 + 530, word_le (1 :: u16) @ word_le (6 :: u16))]\<rparr>) 4096 = 0"
proof -
  define k where "k = sample_kernel\<lparr>k_mem := mem_of [(4096 + 529, [6])]\<rparr>"
  define k' where "k' = sample_kernel\<lparr>k_off := arm64_offset,
    k_mem := mem_of [(4096 + 530, word_le (1 :: u16) @ word_le (6 :: u16))]\<rparr>"
  have "holds k (4096 + 529) [6]"
    unfolding k_def by (simp add: holds_mem_of slice_def)
  moreover have "holds k' (4096 + 530) (word_le (1 :: u16) @ word_le (6 :: u16))"
    unfolding k'_def by (simp add: holds_mem_of slice_def)
  ultimately have "get_sock_protocol k 4096 = ucast (6 :: u8) \<and> get_sock_protocol k' 4096 = drop_bit 8 1"
    by (intro sock_protocol_layouts [where sk_proto = 6])
      (simp_all add: holds_def sock_member_offsets k_def k'_def)
  then show ?thesis by (simp add: k_def k'_def)
qed

section \<open>Tuples of sockets\<close>

lemma le_word_word_be16: "(le_word (word_be x) :: u16) = builtin_bswap16 x"
  using bswap_involution(1) [of "le_word (word_be x)"] by simp

lemma ucast_u8_u16_u8 [simp]: "ucast (ucast (b :: u8) :: u16) = b"
  by (rule bit_word_eqI) (auto simp: bit_simps)

text \<open>
  For an IPv4 socket \<open>set_tuple_sock\<close> gives the addresses as on the wire,
  zero-padded, and the protocol byte. The local port is in host byte order, as the socket keeps it; the
  port of the peer stays in network byte order, unlike the ports of \<open>set_tuple\<close>.
\<close>

lemma sock_tuple_ipv4:
  assumes "kernel_ok k"
    and "holds k (field_addr k sk Sk_skc_family) (word_le fam)" and "fam \<noteq> PF_INET6"
    and "holds k (field_addr k sk Sk_skc_rcv_saddr) (word_be (s :: u32))"
    and "holds k (field_addr k sk Sk_skc_daddr) (word_be (d :: u32))"
    and "holds k (field_addr k sk Sk_skc_num) (word_le (lport :: u16))"
    and "holds k (field_addr k sk Sk_skc_dport) (word_be (pport :: u16))"
    and "holds k (field_addr k sk Sk_gso_max_segs - 3) [proto]"
  shows "set_tuple_sock k sk zero_tuple =
    \<lparr>saddr = word_be s @ replicate 12 0, daddr = word_be d @ replicate 12 0, sport = lport,
     dport = builtin_bswap16 pport, l3_proto = ETH_P_IP, l4_proto = proto, tuple_pad = 0\<rparr>"
proof -
  have words: "core_word k sk [Sk_skc_family] = fam" "core_word k sk [Sk_skc_num] = lport"
    using assms(1,2,6) by (simp_all add: core_word_word)
  have "core_word k sk [Sk_skc_dport] = builtin_bswap16 pport"
    using assms(1,7) core_word_read [of k sk Sk_skc_dport "word_be pport", where 'a = 16]
    by (simp add: holds_def le_word_word_be16)
  moreover have "get_sock_protocol k sk = ucast proto"
    using assms(8) by (intro sock_protocol_byte) (simp add: holds_def)
  moreover have "snd (bpf_probe_read k (replicate 16 0) 4 (field_addr k sk Sk_skc_rcv_saddr)) =
      word_be s @ replicate 12 0"
    "snd (bpf_probe_read k (replicate 16 0) 4 (field_addr k sk Sk_skc_daddr)) = word_be d @ replicate 12 0"
    using assms(4,5) by (simp_all add: holds_def probe_bytes_read)
  ultimately show ?thesis
    using assms(3) by (simp add: set_tuple_sock_def zero_tuple_def words Let_def)
qed

text \<open>A TCP socket at 4096 with local port 8080 and the peer 10.0.0.2:443.\<close>

lemma sock_tuple_ipv4_witness:
  "set_tuple_sock (sample_kernel\<lparr>k_mem := mem_of
      [(4096, word_be (0x0a000002 :: u32) @ word_be (0x0a000001 :: u32) @ replicate 4 0 @
              word_be (443 :: u16) @ word_le (8080 :: u16) @ word_le (2 :: u16)),
       (4096 + 529, [IPPROTO_TCP])]\<rparr>) 4096 zero_tuple =
    \<lparr>saddr = word_be (0x0a000001 :: u32) @ replicate 12 0,
     daddr = word_be (0x0a000002 :: u32) @ replicate 12 0, sport = 8080,
     dport = builtin_bswap16 443, l3_proto = ETH_P_IP, l4_proto = IPPROTO_TCP, tuple_pad = 0\<rparr>"
proof (rule sock_tuple_ipv4 [where fam = 2])
  show "kernel_ok (sample_kernel\<lparr>k_mem := mem_of
      [(4096, word_be (0x0a000002 :: u32) @ word_be (0x0a000001 :: u32) @ replicate 4 0 @
              word_be (443 :: u16) @ word_le (8080 :: u16) @ word_le (2 :: u16)),
       (4096 + 529, [IPPROTO_TCP])]\<rparr>)"
    using sample_kernel_ok by (simp add: kernel_ok_def)
qed (simp_all add: PF_INET6_def holds_mem_of field_addr_def amd64_offset_eval slice_def)

section \<open>Network namespaces\<close>

text \<open>
  A socket buffer without a device reads its namespace from the socket, and one without either has
  namespace 0, provided faulting reads clear their destination and the null page is not mapped.
\<close>

definition null_unmapped :: "kenv \<Rightarrow> bool" where
  "null_unmapped k \<longleftrightarrow> (\<forall>f n. 0 < n \<longrightarrow> fetch k (of_nat (k_off k f)) n = None)"

lemma le_word_zeros [simp]: "le_word (replicate n 0) = 0"
  by (rule bit_word_eqI) (simp add: bit_le_word)

lemma core_word_null:
  assumes "kernel_ok k" and "zero_fill k" and "null_unmapped k" and "8 \<le> LENGTH('a::len)"
  shows "(core_word k 0 [f, g] :: 'a word) = 0"
proof -
  have "0 < LENGTH('a) div 8" using assms(4) by (simp add: div_greater_zero_iff)
  with assms show ?thesis
    by (simp add: core_word_def BPF_CORE_READ_def bpf_core_read_def probe_read_kernel_eq
        bpf_probe_read_def null_unmapped_def zero_fill_def overlay_def kernel_ok_def)
qed

lemma core_word_chase:
  assumes "kernel_ok k" and "holds k (field_addr k p f) (word_le (q :: u64))"
    and "holds k (field_addr k q g) (word_le (w :: 'a::len word))" and "8 dvd LENGTH('a)"
  shows "(core_word k p [f, g] :: 'a word) = w"
  using assms core_word_follow [OF assms(1,2), of g, where 'a = 'a]
  by (simp add: holds_def probe_bytes_read kernel_ok_def le_word_word_le)

text \<open>
  The namespace of a socket buffer is the one of its device; when the
  device pointer is not set, it is the one of its socket; and it is 0 when there is neither.
\<close>

lemma get_netns_fallback:
  assumes "kernel_ok k" and "zero_fill k" and "null_unmapped k"
    and "holds k (field_addr k skb Skb_dev) (word_le dev)"
    and "holds k (field_addr k skb Skb_sk) (word_le sk)"
    and "dev \<noteq> 0 \<longrightarrow> holds k (field_addr k dev Dev_nd_net_net) (word_le net) \<and>
                     holds k (field_addr k net Net_ns_inum) (word_le inum) \<and> inum \<noteq> 0"
    and "sk \<noteq> 0 \<longrightarrow> holds k (field_addr k sk Sk_skc_net_net) (word_le (sknet :: u64)) \<and>
                    holds k (field_addr k sknet Net_ns_inum) (word_le skinum)"
  shows "get_netns k skb =
    (if dev \<noteq> (0 :: u64) then (inum :: u32) else if sk \<noteq> (0 :: u64) then skinum else 0)"
proof -
  have reads: "core_word k skb [Skb_dev] = dev" "core_word k skb [Skb_sk] = sk"
    using assms(1,4,5) by (simp_all add: core_word_word)
  have "(core_word k dev [Dev_nd_net_net, Net_ns_inum] :: u32) = (if dev = 0 then 0 else inum)"
    using assms(6) core_word_null [OF assms(1-3), where 'a = 32]
      core_word_chase [OF assms(1), of dev Dev_nd_net_net net Net_ns_inum inum]
    by auto
  moreover have "(core_word k sk [Sk_skc_net_net, Net_ns_inum] :: u32) = skinum" if "sk \<noteq> 0"
    using that assms(7) core_word_chase [OF assms(1), of sk Sk_skc_net_net sknet Net_ns_inum skinum]
    by auto
  ultimately show ?thesis
    using assms(6) by (auto simp: get_netns_def reads Let_def)
qed

text \<open>A buffer at 4096 without device whose socket at 8192 is in namespace 77.\<close>

lemma get_netns_fallback_witness:
  "get_netns (sample_kernel\<lparr>k_mem := mem_of
     [(4096 + 16, word_le (0 :: u64)), (4096 + 24, word_le (8192 :: u64)),
      (8192 + 48, word_le (16384 :: u64)), (16384 + 136, word_le (77 :: u32))]\<rparr>) 4096 = 77"
proof -
  define rs where "rs = [(4096 + 16 :: u64, word_le (0 :: u64)), (4096 + 24, word_le (8192 :: u64)),
      (8192 + 48, word_le (16384 :: u64)), (16384 + 136, word_le (77 :: u32))]"
  define k where "k = sample_kernel\<lparr>k_mem := mem_of rs\<rparr>"
  have ok: "kernel_ok k" "zero_fill k"
    using sample_kernel_ok by (simp_all add: k_def kernel_ok_def zero_fill_def)
  have "k_mem k (of_nat (amd64_offset f)) = None" for f
    by (cases f) (simp_all add: k_def rs_def amd64_offset_eval)
  then have null: "null_unmapped k"
    by (auto simp: null_unmapped_def k_def fetch_def intro!: those_None [of 0])
  have "get_netns k 4096 = (if (0 :: u64) \<noteq> 0 then 0 else if (8192 :: u64) \<noteq> 0 then 77 else 0)"
    by (rule get_netns_fallback [OF ok null, where sknet = 16384])
      (simp_all add: k_def rs_def field_addr_def amd64_offset_eval slice_def holds_mem_of)
  then show ?thesis by (simp add: k_def rs_def)
qed

end
