(* ===== verification/Latency.thy ===== *)
theory Latency
  imports Maps
begin

text \<open>
  The contract shared by the latency probes. Such a probe makes a time-stamped note of a start
  event under a key, and at an end event for the key writes a report when the time passed since
  the stamp exceeds a threshold. \<open>latency_probe\<close> states what each step may do; the lemmas trace
  every report of a run back to the start and end events it measures. \<open>exact_probe\<close> adds the laws
  under which the start is the most recent one, and \<open>prompt_probe\<close> those under which no slow
  interval is missed. The probes interpret these locales on their handlers.
\<close>

section \<open>Runs\<close>

text \<open>A run applies the handlers of a sequence of events, each in the kernel it happens in.\<close>

primrec run_probe :: "(kenv \<Rightarrow> 'ev \<Rightarrow> 's \<Rightarrow> 's) \<Rightarrow> (kenv \<times> 'ev) list \<Rightarrow> 's \<Rightarrow> 's" where
  "run_probe step [] s = s"
| "run_probe step (x # xs) s = run_probe step xs (step (fst x) (snd x) s)"

lemma run_probe_append [simp]:
  "run_probe step (xs @ ys) s = run_probe step ys (run_probe step xs s)"
  by (induction xs arbitrary: s) auto

text \<open>A property that every step keeps holds after every run.\<close>

lemma run_probe_invariant:
  assumes "P s" and "\<And>k e s. (k, e) \<in> set xs \<Longrightarrow> P s \<Longrightarrow> P (step k e s)"
  shows "P (run_probe step xs s)"
  using assms
proof (induction xs arbitrary: s)
  case (Cons x xs)
  have "P (step (fst x) (snd x) s)" using Cons.prems by (cases x) auto
  with Cons show ?case by auto
qed simp

definition clock_monotone :: "(kenv \<times> 'ev) list \<Rightarrow> bool" where
  "clock_monotone xs \<longleftrightarrow> (\<forall>i j. i \<le> j \<longrightarrow> j < length xs \<longrightarrow> k_now (fst (xs ! i)) \<le> k_now (fst (xs ! j)))"

lemma clock_monotone_Cons:
  assumes "clock_monotone (x # xs)"
  shows "clock_monotone xs \<and> (\<forall>y \<in> set xs. k_now (fst x) \<le> k_now (fst y))"
proof
  show "clock_monotone xs"
    unfolding clock_monotone_def
  proof (intro allI impI)
    fix i j assume "i \<le> j" "j < length xs"
    then show "k_now (fst (xs ! i)) \<le> k_now (fst (xs ! j))"
      using assms [unfolded clock_monotone_def, rule_format, of "Suc i" "Suc j"] by simp
  qed
  show "\<forall>y \<in> set xs. k_now (fst x) \<le> k_now (fst y)"
  proof
    fix y assume "y \<in> set xs"
    then obtain j where "j < length xs" "y = xs ! j" by (auto simp: in_set_conv_nth)
    then show "k_now (fst x) \<le> k_now (fst y)"
      using assms [unfolded clock_monotone_def, rule_format, of 0 "Suc j"] by simp
  qed
qed

text \<open>
  Event \<open>i\<close> of a run opens and event \<open>j\<close> closes an interval for the key \<open>x\<close>; no event between them
  opens or clears one.
\<close>

definition interval ::
    "(kenv \<Rightarrow> 'ev \<Rightarrow> 'k option) \<Rightarrow> (kenv \<Rightarrow> 'ev \<Rightarrow> 'k option) \<Rightarrow> (kenv \<times> 'ev) list \<Rightarrow> nat \<Rightarrow> nat \<Rightarrow> 'k \<Rightarrow> bool" where
  "interval opens closes xs i j x \<longleftrightarrow> i < j \<and> j < length xs \<and>
     opens (fst (xs ! i)) (snd (xs ! i)) = Some x \<and> closes (fst (xs ! j)) (snd (xs ! j)) = Some x"

definition undisturbed ::
    "(kenv \<Rightarrow> 'ev \<Rightarrow> 'k option) \<Rightarrow> (kenv \<Rightarrow> 'ev \<Rightarrow> 'k option) \<Rightarrow> (kenv \<times> 'ev) list \<Rightarrow> nat \<Rightarrow> nat \<Rightarrow> 'k \<Rightarrow> bool" where
  "undisturbed opens clears xs i j x \<longleftrightarrow>
     (\<forall>m. i < m \<longrightarrow> m < j \<longrightarrow> opens (fst (xs ! m)) (snd (xs ! m)) \<noteq> Some x \<and>
        clears (fst (xs ! m)) (snd (xs ! m)) \<noteq> Some x)"

lemma interval_append: "interval opens closes ys i j x \<Longrightarrow> interval opens closes (ys @ zs) i j x"
  by (auto simp: interval_def nth_append)

lemma undisturbed_append:
  "j \<le> length ys \<Longrightarrow> undisturbed opens clears ys i j x \<Longrightarrow> undisturbed opens clears (ys @ zs) i j x"
  by (auto simp: undisturbed_def nth_append)

text \<open>With a clock that never goes back the difference is the elapsed time, without wrap-around.\<close>

lemma interval_elapsed:
  assumes "clock_monotone xs" and "interval opens closes xs i j x"
  shows "unat (k_now (fst (xs ! j)) - k_now (fst (xs ! i))) =
    unat (k_now (fst (xs ! j))) - unat (k_now (fst (xs ! i)))"
  using assms by (intro elapsed_unat) (simp add: interval_def clock_monotone_def)

text \<open>A difference above a threshold is not zero.\<close>

lemma slow_strict: "t \<le> n \<Longrightarrow> c < n - t \<Longrightarrow> (t :: 'a::len word) < n"
  by (cases "t = n") auto

section \<open>Every report measures an interval\<close>

locale latency_probe =
  fixes step :: "kenv \<Rightarrow> 'ev \<Rightarrow> 's \<Rightarrow> 's"
    and started :: "'s \<Rightarrow> 'k \<Rightarrow> 'v option"
    and reported :: "'s \<Rightarrow> 'r list"
    and opens :: "kenv \<Rightarrow> 'ev \<Rightarrow> 'k option"
    and closes :: "kenv \<Rightarrow> 'ev \<Rightarrow> 'k option"
    and noted :: "kenv \<Rightarrow> 'ev \<Rightarrow> 'v"
    and stamp :: "'v \<Rightarrow> u64"
    and report :: "kenv \<Rightarrow> 'ev \<Rightarrow> 'v \<Rightarrow> 'r"
    and thresh :: u64
  assumes started_step:
      "started (step k e s) x = Some v \<Longrightarrow>
         started s x = Some v \<or> opens k e = Some x \<and> v = noted k e"
    and reported_step:
      "reported (step k e s) = reported s \<or>
       (\<exists>x v. closes k e = Some x \<and> started s x = Some v \<and> thresh < k_now k - stamp v \<and>
          reported (step k e s) = reported s @ [report k e v])"
begin

definition measured :: "(kenv \<times> 'ev) list \<Rightarrow> nat \<Rightarrow> nat \<Rightarrow> 'r \<Rightarrow> bool" where
  "measured xs i j r \<longleftrightarrow>
     (let v = noted (fst (xs ! i)) (snd (xs ! i))
      in thresh < k_now (fst (xs ! j)) - stamp v \<and> r = report (fst (xs ! j)) (snd (xs ! j)) v)"

lemma measured_append: "i < length ys \<Longrightarrow> j < length ys \<Longrightarrow> measured ys i j r \<Longrightarrow> measured (ys @ zs) i j r"
  by (auto simp: measured_def nth_append)

lemma reported_cases:
  assumes "r \<in> set (reported (step k e s))"
  obtains "r \<in> set (reported s)"
  | x v where "closes k e = Some x" "started s x = Some v" "thresh < k_now k - stamp v"
      "r = report k e v"
  using assms reported_step [of k e s] by auto

lemma started_run:
  assumes "started s = Map.empty" and "started (run_probe step xs s) x = Some v"
  shows "\<exists>i < length xs. opens (fst (xs ! i)) (snd (xs ! i)) = Some x \<and>
    v = noted (fst (xs ! i)) (snd (xs ! i))"
  using assms
proof (induction xs rule: rev_induct)
  case (snoc y ys)
  have "started (step (fst y) (snd y) (run_probe step ys s)) x = Some v"
    using snoc.prems(2) by simp
  from started_step [OF this] show ?case
  proof
    assume "started (run_probe step ys s) x = Some v"
    from snoc.IH [OF snoc.prems(1) this] obtain i where "i < length ys"
      "opens (fst (ys ! i)) (snd (ys ! i)) = Some x" "v = noted (fst (ys ! i)) (snd (ys ! i))"
      by blast
    then show ?thesis by (intro exI [of _ i]) (simp add: nth_append)
  next
    assume "opens (fst y) (snd y) = Some x \<and> v = noted (fst y) (snd y)"
    then show ?thesis by (intro exI [of _ "length ys"]) simp
  qed
qed simp

lemma reported_run:
  assumes "started s = Map.empty" and "reported s = []" and "r \<in> set (reported (run_probe step xs s))"
  shows "\<exists>i j x. interval opens closes xs i j x \<and> measured xs i j r"
  using assms
proof (induction xs rule: rev_induct)
  case (snoc y ys)
  define s' where "s' = run_probe step ys s"
  from snoc.prems(3) have "r \<in> set (reported (step (fst y) (snd y) s'))" by (simp add: s'_def)
  then show ?case
  proof (cases rule: reported_cases)
    case 1
    from snoc.IH [OF snoc.prems(1,2) this [unfolded s'_def]]
    obtain i j x where m: "interval opens closes ys i j x" "measured ys i j r" by auto
    then have "measured (ys @ [y]) i j r" by (intro measured_append) (simp_all add: interval_def)
    then show ?thesis using m interval_append by meson
  next
    case (2 x v)
    from started_run [OF snoc.prems(1), of ys x v] 2 obtain i where i: "i < length ys"
      "opens (fst (ys ! i)) (snd (ys ! i)) = Some x" "v = noted (fst (ys ! i)) (snd (ys ! i))"
      unfolding s'_def by blast
    with 2 have "interval opens closes (ys @ [y]) i (length ys) x" "measured (ys @ [y]) i (length ys) r"
      by (simp_all add: interval_def measured_def nth_append)
    then show ?thesis by blast
  qed
qed simp

lemma reported_mono: "set (reported s) \<subseteq> set (reported (run_probe step xs s))"
proof (induction xs arbitrary: s)
  case (Cons y ys)
  have "set (reported s) \<subseteq> set (reported (step (fst y) (snd y) s))"
    using reported_step [of "fst y" "snd y" s] by auto
  with Cons [of "step (fst y) (snd y) s"] show ?case by simp
qed simp

end

section \<open>The interval begins at the most recent start\<close>

locale exact_probe = latency_probe step started reported opens closes noted stamp report thresh
  for step :: "kenv \<Rightarrow> 'ev \<Rightarrow> 's \<Rightarrow> 's"
    and started :: "'s \<Rightarrow> 'k \<Rightarrow> 'v option"
    and reported :: "'s \<Rightarrow> 'r list"
    and opens :: "kenv \<Rightarrow> 'ev \<Rightarrow> 'k option"
    and closes :: "kenv \<Rightarrow> 'ev \<Rightarrow> 'k option"
    and noted :: "kenv \<Rightarrow> 'ev \<Rightarrow> 'v"
    and stamp :: "'v \<Rightarrow> u64"
    and report :: "kenv \<Rightarrow> 'ev \<Rightarrow> 'v \<Rightarrow> 'r"
    and thresh :: u64 +
  fixes clears :: "kenv \<Rightarrow> 'ev \<Rightarrow> 'k option"
  assumes opens_overwrites:
      "opens k e = Some x \<Longrightarrow> started s x \<noteq> None \<Longrightarrow> started (step k e s) x = Some (noted k e)"
    and clears_removes: "clears k e = Some x \<Longrightarrow> started (step k e s) x = None"
begin

lemma started_run_latest:
  assumes "started s = Map.empty" and "started (run_probe step xs s) x = Some v"
  shows "\<exists>i < length xs. opens (fst (xs ! i)) (snd (xs ! i)) = Some x \<and>
    v = noted (fst (xs ! i)) (snd (xs ! i)) \<and> undisturbed opens clears xs i (length xs) x"
  using assms
proof (induction xs arbitrary: v rule: rev_induct)
  case (snoc y ys)
  define s' where "s' = run_probe step ys s"
  have now: "started (step (fst y) (snd y) s') x = Some v"
    using snoc.prems(2) by (simp add: s'_def)
  then have cl: "clears (fst y) (snd y) \<noteq> Some x" using clears_removes by fastforce
  show ?case
  proof (cases "opens (fst y) (snd y) = Some x \<and> v = noted (fst y) (snd y)")
    case True
    then show ?thesis by (intro exI [of _ "length ys"]) (simp add: undisturbed_def)
  next
    case False
    with started_step [OF now] have old: "started s' x = Some v" by blast
    with now False have op: "opens (fst y) (snd y) \<noteq> Some x"
      using opens_overwrites [of "fst y" "snd y" x s'] by auto
    from snoc.IH [OF snoc.prems(1) old [unfolded s'_def]] obtain i where i: "i < length ys"
      "opens (fst (ys ! i)) (snd (ys ! i)) = Some x" "v = noted (fst (ys ! i)) (snd (ys ! i))"
      "undisturbed opens clears ys i (length ys) x" by blast
    have "undisturbed opens clears (ys @ [y]) i (length (ys @ [y])) x"
      unfolding undisturbed_def
    proof (intro allI impI)
      fix m assume m: "i < m" "m < length (ys @ [y])"
      show "opens (fst ((ys @ [y]) ! m)) (snd ((ys @ [y]) ! m)) \<noteq> Some x \<and>
          clears (fst ((ys @ [y]) ! m)) (snd ((ys @ [y]) ! m)) \<noteq> Some x"
        using i(4) m op cl
        by (cases "m < length ys") (auto simp: undisturbed_def nth_append less_Suc_eq)
    qed
    with i show ?thesis by (intro exI [of _ i]) (simp add: nth_append)
  qed
qed simp

lemma reported_run_latest:
  assumes "started s = Map.empty" and "reported s = []" and "r \<in> set (reported (run_probe step xs s))"
  shows "\<exists>i j x. interval opens closes xs i j x \<and> undisturbed opens clears xs i j x \<and> measured xs i j r"
  using assms
proof (induction xs rule: rev_induct)
  case (snoc y ys)
  define s' where "s' = run_probe step ys s"
  from snoc.prems(3) have "r \<in> set (reported (step (fst y) (snd y) s'))" by (simp add: s'_def)
  then show ?case
  proof (cases rule: reported_cases)
    case 1
    from snoc.IH [OF snoc.prems(1,2) this [unfolded s'_def]]
    obtain i j x where m: "interval opens closes ys i j x" "undisturbed opens clears ys i j x"
      "measured ys i j r" by auto
    then have "measured (ys @ [y]) i j r" "undisturbed opens clears (ys @ [y]) i j x"
      by (auto intro: measured_append undisturbed_append simp: interval_def)
    then show ?thesis using m interval_append by meson
  next
    case (2 x v)
    from started_run_latest [OF snoc.prems(1), of ys x v] 2 obtain i where i: "i < length ys"
      "opens (fst (ys ! i)) (snd (ys ! i)) = Some x" "v = noted (fst (ys ! i)) (snd (ys ! i))"
      "undisturbed opens clears ys i (length ys) x"
      unfolding s'_def by blast
    with 2 have "interval opens closes (ys @ [y]) i (length ys) x" "measured (ys @ [y]) i (length ys) r"
      by (simp_all add: interval_def measured_def nth_append)
    then show ?thesis using undisturbed_append [OF order_refl i(4)] by blast
  qed
qed simp

end

section \<open>No slow interval is missed\<close>

locale prompt_probe = exact_probe step started reported opens closes noted stamp report thresh clears
  for step :: "kenv \<Rightarrow> 'ev \<Rightarrow> 's \<Rightarrow> 's"
    and started :: "'s \<Rightarrow> 'k \<Rightarrow> 'v option"
    and reported :: "'s \<Rightarrow> 'r list"
    and opens :: "kenv \<Rightarrow> 'ev \<Rightarrow> 'k option"
    and closes :: "kenv \<Rightarrow> 'ev \<Rightarrow> 'k option"
    and noted :: "kenv \<Rightarrow> 'ev \<Rightarrow> 'v"
    and stamp :: "'v \<Rightarrow> u64"
    and report :: "kenv \<Rightarrow> 'ev \<Rightarrow> 'v \<Rightarrow> 'r"
    and thresh :: u64
    and clears :: "kenv \<Rightarrow> 'ev \<Rightarrow> 'k option" +
  assumes started_keeps:
      "opens k e \<noteq> Some x \<Longrightarrow> clears k e \<noteq> Some x \<Longrightarrow> started (step k e s) x = started s x"
    and reports_slow:
      "closes k e = Some x \<Longrightarrow> started s x = Some v \<Longrightarrow> stamp v \<le> k_now k \<Longrightarrow>
         thresh < k_now k - stamp v \<Longrightarrow> 0 \<le> k_perf k \<Longrightarrow> report k e v \<in> set (reported (step k e s))"
begin

lemma started_kept:
  assumes "\<forall>(k, e) \<in> set xs. opens k e \<noteq> Some x \<and> clears k e \<noteq> Some x"
  shows "started (run_probe step xs s) x = started s x"
  using assms
proof (induction xs arbitrary: s)
  case (Cons y ys)
  have "started (step (fst y) (snd y) s) x = started s x"
    using Cons.prems by (intro started_keeps) (auto split: prod.splits)
  with Cons show ?case by auto
qed simp

lemma slow_interval_reported:
  assumes "started (run_probe step xs s) x = Some v"
    and "\<forall>(k, e) \<in> set ys. opens k e \<noteq> Some x \<and> clears k e \<noteq> Some x"
    and "closes k e = Some x" and "stamp v \<le> k_now k" and "thresh < k_now k - stamp v"
    and "0 \<le> k_perf k"
  shows "report k e v \<in> set (reported (run_probe step (xs @ ys @ (k, e) # zs) s))"
proof -
  have "started (run_probe step (xs @ ys) s) x = Some v"
    using assms(1,2) by (simp add: started_kept)
  from reports_slow [OF assms(3) this assms(4-6)]
  have "report k e v \<in> set (reported (step k e (run_probe step (xs @ ys) s)))" .
  then show ?thesis
    using reported_mono [of "step k e (run_probe step (xs @ ys) s)" zs] by auto
qed

end

end
