(* ===== verification/Flow.thy ===== *)
theory Flow
  imports Inspector Latency
begin

text \<open>
  The flow metrics, \<^verbatim>\<open>src/bpf/flow.c\<close>: a traffic-control program on ingress and egress that
  counts packets and bytes per flow in an LRU per-CPU hash table. \<open>evict\<close> is the choice of the
  entries a full LRU table drops, \<open>fresh\<close> what a new entry holds for the other CPUs.
\<close>

section \<open>State and handlers\<close>

definition TC_ACT_OK :: int where "TC_ACT_OK = 0"

record flow_metrics =
  packets :: u64
  nbytes :: u64
  drops :: u32
  retrans :: u32

definition zero_flow_metrics :: flow_metrics where
  "zero_flow_metrics = \<lparr>packets = 0, nbytes = 0, drops = 0, retrans = 0\<rparr>"

lemma zero_flow_metrics_fields [simp]:
  "packets zero_flow_metrics = 0" "nbytes zero_flow_metrics = 0"
  by (simp_all add: zero_flow_metrics_def)

definition insp_flow4_metrics_def :: bpf_map_def where
  "insp_flow4_metrics_def = \<lparr>map_type = BPF_MAP_TYPE_LRU_PERCPU_HASH, key_size = 16, value_size = 24,
     max_entries = 65535, map_flags = 0\<rparr>"

text \<open>What the program sees of a packet: its length and its linear data.\<close>

record tc_skb =
  tc_len :: u32
  tc_data :: bytes

record flow =
  insp_flow4_metrics :: "(flow_tuple_4, flow_metrics) bpf_percpu"
  insp_flow_feature_switch :: feature_switch

type_synonym lru_choice = "(flow_tuple_4 \<times> (u32 \<Rightarrow> flow_metrics)) list \<Rightarrow> flow_tuple_4 \<Rightarrow> bool"

definition do_flow ::
    "lru_choice \<Rightarrow> (u32 \<Rightarrow> flow_metrics) \<Rightarrow> kenv \<Rightarrow> tc_skb \<Rightarrow> flow \<Rightarrow> (int \<times> flow) option" where
  "do_flow evict fresh k skb s =
     (let flow_port_key = 0;
          enable_flow_port = is_enable k (insp_flow_feature_switch s) flow_port_key
      in case set_flow_tuple4 (k_off k) (tc_data skb) zero_flow_tuple enable_flow_port of
           None \<Rightarrow> None
         | Some (r, tuple) \<Rightarrow>
             if r < 0 then Some (TC_ACT_OK, s)
             else
               (case percpu_lookup k (insp_flow4_metrics s) tuple of
                  Some metric \<Rightarrow>
                    Some (TC_ACT_OK, s\<lparr>insp_flow4_metrics :=
                      percpu_modify k (\<lambda>m. m\<lparr>packets := packets m + 1,
                                             nbytes := nbytes m + ucast (tc_len skb)\<rparr>)
                        tuple (insp_flow4_metrics s)\<rparr>)
                | None \<Rightarrow>
                    (let m = \<lparr>packets = 1, nbytes = ucast (tc_len skb), drops = 0, retrans = 0\<rparr>
                     in Some (TC_ACT_OK, s\<lparr>insp_flow4_metrics :=
                          snd (lru_percpu_update evict fresh k (insp_flow4_metrics s) tuple m BPF_ANY)\<rparr>))))"

definition tc_ingress ::
    "lru_choice \<Rightarrow> (u32 \<Rightarrow> flow_metrics) \<Rightarrow> kenv \<Rightarrow> tc_skb \<Rightarrow> flow \<Rightarrow> (int \<times> flow) option" where
  "tc_ingress evict fresh k skb s = do_flow evict fresh k skb s"

definition tc_egress ::
    "lru_choice \<Rightarrow> (u32 \<Rightarrow> flow_metrics) \<Rightarrow> kenv \<Rightarrow> tc_skb \<Rightarrow> flow \<Rightarrow> (int \<times> flow) option" where
  "tc_egress evict fresh k skb s = do_flow evict fresh k skb s"

datatype flow_call = Ingress tc_skb | Egress tc_skb

fun flow_step :: "lru_choice \<Rightarrow> (u32 \<Rightarrow> flow_metrics) \<Rightarrow> kenv \<Rightarrow> flow_call \<Rightarrow> flow \<Rightarrow> flow option" where
  "flow_step evict fresh k (Ingress skb) s = map_option snd (tc_ingress evict fresh k skb s)"
| "flow_step evict fresh k (Egress skb) s = map_option snd (tc_egress evict fresh k skb s)"

fun flow_skb :: "flow_call \<Rightarrow> tc_skb" where
  "flow_skb (Ingress skb) = skb"
| "flow_skb (Egress skb) = skb"

fun flow_run ::
    "lru_choice \<Rightarrow> (u32 \<Rightarrow> flow_metrics) \<Rightarrow> (kenv \<times> flow_call) list \<Rightarrow> flow \<Rightarrow> flow option" where
  "flow_run evict fresh [] s = Some s"
| "flow_run evict fresh ((k, e) # xs) s =
     (case flow_step evict fresh k e s of None \<Rightarrow> None | Some s' \<Rightarrow> flow_run evict fresh xs s')"

section \<open>Totals\<close>

text \<open>The key under which a packet is counted, if it is.\<close>

definition flow_key :: "kenv \<Rightarrow> feature_switch \<Rightarrow> flow_call \<Rightarrow> flow_tuple_4 option" where
  "flow_key k sw e =
     (case set_flow_tuple4 (k_off k) (tc_data (flow_skb e)) zero_flow_tuple (is_enable k sw 0) of
        Some (r, tuple) \<Rightarrow> if r < 0 then None else Some tuple
      | None \<Rightarrow> None)"

text \<open>The sums over the CPUs, as the user-space reader computes them.\<close>

definition total_packets :: "flow \<Rightarrow> flow_tuple_4 \<Rightarrow> u64" where
  "total_packets s key =
     (case hash_lookup (insp_flow4_metrics s) key of None \<Rightarrow> 0 | Some v \<Rightarrow> \<Sum>c\<in>UNIV. packets (v c))"

definition total_bytes :: "flow \<Rightarrow> flow_tuple_4 \<Rightarrow> u64" where
  "total_bytes s key =
     (case hash_lookup (insp_flow4_metrics s) key of None \<Rightarrow> 0 | Some v \<Rightarrow> \<Sum>c\<in>UNIV. nbytes (v c))"

text \<open>The table part of the handler.\<close>

definition flow_count ::
    "lru_choice \<Rightarrow> (u32 \<Rightarrow> flow_metrics) \<Rightarrow> kenv \<Rightarrow> flow_tuple_4 \<Rightarrow> u64 \<Rightarrow>
       (flow_tuple_4, flow_metrics) bpf_percpu \<Rightarrow> (flow_tuple_4, flow_metrics) bpf_percpu" where
  "flow_count evict fresh k key n m =
     (if hash_lookup m key = None
      then snd (lru_percpu_update evict fresh k m key \<lparr>packets = 1, nbytes = n, drops = 0, retrans = 0\<rparr>
                  BPF_ANY)
      else percpu_modify k (\<lambda>x. x\<lparr>packets := packets x + 1, nbytes := nbytes x + n\<rparr>) key m)"

lemma do_flow_eq:
  assumes "wire_layout (k_off k)"
  shows "flow_step evict fresh k e s =
    Some (case flow_key k (insp_flow_feature_switch s) e of
            None \<Rightarrow> s
          | Some key \<Rightarrow> s\<lparr>insp_flow4_metrics :=
              flow_count evict fresh k key (ucast (tc_len (flow_skb e))) (insp_flow4_metrics s)\<rparr>)"
proof -
  obtain r t where r: "set_flow_tuple4 (k_off k) (tc_data (flow_skb e)) zero_flow_tuple
      (is_enable k (insp_flow_feature_switch s) 0) = Some (r, t)"
    using set_flow_tuple4_total [OF assms] by blast
  show ?thesis
    using r by (cases e; cases "hash_lookup (insp_flow4_metrics s) t")
      (auto simp: tc_ingress_def tc_egress_def do_flow_def flow_key_def flow_count_def percpu_lookup_def
        Let_def)
qed

lemma sum_fun_upd:
  "(\<Sum>c\<in>UNIV. g ((f(x := y)) c)) = (\<Sum>c\<in>UNIV. g (f c)) - g (f x) + (g y :: u64)"
  for f :: "u32 \<Rightarrow> 'a"
proof -
  have "(\<Sum>c\<in>UNIV. g ((f(x := y)) c)) = g y + (\<Sum>c\<in>UNIV - {x}. g (f c))"
    by (subst sum.remove [of _ x]) auto
  moreover have "(\<Sum>c\<in>UNIV. g (f c)) = g (f x) + (\<Sum>c\<in>UNIV - {x}. g (f c))"
    by (subst sum.remove [of _ x]) auto
  ultimately show ?thesis by simp
qed

lemma hash_ents_count_existing:
  assumes "hash_lookup m key = Some v"
  shows "hash_lookup (flow_count evict fresh k key n m) =
    (hash_lookup m)(key \<mapsto> v(k_cpu k := (v (k_cpu k))\<lparr>packets := packets (v (k_cpu k)) + 1,
                                                    nbytes := nbytes (v (k_cpu k)) + n\<rparr>))"
  using assms by (simp add: flow_count_def percpu_modify_def)

lemma hash_ents_count_new:
  assumes "hash_lookup m key = None" and "room_accepted k"
    and "length (hash_ents m) < max_entries (hash_def m)"
  shows "hash_lookup (flow_count evict fresh k key n m) =
    (hash_lookup m)(key \<mapsto> fresh(k_cpu k := \<lparr>packets = 1, nbytes = n, drops = 0, retrans = 0\<rparr>))"
  using assms hash_accepts_room [OF assms(2,3)]
  by (simp add: flow_count_def lru_percpu_update_def percpu_update_def hash_lookup_update)

text \<open>
  A table that has room for one more key counts the packet: the totals of its key grow by one and
  by its length, the others do not change.
\<close>

lemma flow_count_totals:
  fixes evict :: lru_choice and n :: u64 and s :: flow
  assumes "room_accepted k"
    and "hash_lookup (insp_flow4_metrics s) key = None \<longrightarrow>
      length (hash_ents (insp_flow4_metrics s)) < max_entries (hash_def (insp_flow4_metrics s))"
  defines "s' \<equiv> s\<lparr>insp_flow4_metrics :=
      flow_count evict (\<lambda>c. zero_flow_metrics) k key n (insp_flow4_metrics s)\<rparr>"
  shows "total_packets s' x = total_packets s x + (if x = key then 1 else 0)"
    and "total_bytes s' x = total_bytes s x + (if x = key then n else 0)"
    and "dom (hash_lookup (insp_flow4_metrics s')) = insert key (dom (hash_lookup (insp_flow4_metrics s)))"
proof -
  have sums: "(\<Sum>c\<in>UNIV. packets (if c = j then w else v c)) =
      (\<Sum>c\<in>UNIV. packets (v c)) - packets (v j) + packets w"
    "(\<Sum>c\<in>UNIV. nbytes (if c = j then w else v c)) = (\<Sum>c\<in>UNIV. nbytes (v c)) - nbytes (v j) + nbytes w"
    for v :: "u32 \<Rightarrow> flow_metrics" and j w
    using sum_fun_upd [of packets v j w] sum_fun_upd [of nbytes v j w] by (simp_all add: fun_upd_def)
  have "total_packets s' x = total_packets s x + (if x = key then 1 else 0) \<and>
    total_bytes s' x = total_bytes s x + (if x = key then n else 0) \<and>
    dom (hash_lookup (insp_flow4_metrics s')) = insert key (dom (hash_lookup (insp_flow4_metrics s)))"
  proof (cases "hash_lookup (insp_flow4_metrics s) key")
    case None
    with assms(2) have "length (hash_ents (insp_flow4_metrics s)) <
        max_entries (hash_def (insp_flow4_metrics s))" by simp
    note new = hash_ents_count_new [OF None assms(1) this, of evict "\<lambda>c. zero_flow_metrics" n]
    show ?thesis
      unfolding s'_def total_packets_def total_bytes_def using None
      by (simp add: new sums)
  next
    case (Some v)
    note old = hash_ents_count_existing [OF Some, of evict "\<lambda>c. zero_flow_metrics" k n]
    show ?thesis
      unfolding s'_def total_packets_def total_bytes_def using Some
      by (simp add: old sums insert_absorb domI)
  qed
  then show "total_packets s' x = total_packets s x + (if x = key then 1 else 0)"
    "total_bytes s' x = total_bytes s x + (if x = key then n else 0)"
    "dom (hash_lookup (insp_flow4_metrics s')) = insert key (dom (hash_lookup (insp_flow4_metrics s)))"
    by simp_all
qed

section \<open>Properties\<close>

definition flow_init :: "feature_switch \<Rightarrow> flow" where
  "flow_init sw = \<lparr>insp_flow4_metrics = hash_empty insp_flow4_metrics_def,
     insp_flow_feature_switch = sw\<rparr>"

text \<open>The keys of the packets of a run that are counted, with their lengths.\<close>

definition counted :: "feature_switch \<Rightarrow> (kenv \<times> flow_call) list \<Rightarrow> (flow_tuple_4 \<times> u64) list" where
  "counted sw xs =
     concat (map (\<lambda>(k, e). case flow_key k sw e of
                             None \<Rightarrow> [] | Some key \<Rightarrow> [(key, ucast (tc_len (flow_skb e)))]) xs)"

definition counted_packets :: "(flow_tuple_4 \<times> u64) list \<Rightarrow> flow_tuple_4 \<Rightarrow> nat" where
  "counted_packets cs key = length (filter (\<lambda>c. fst c = key) cs)"

definition counted_bytes :: "(flow_tuple_4 \<times> u64) list \<Rightarrow> flow_tuple_4 \<Rightarrow> u64" where
  "counted_bytes cs key = sum_list (map snd (filter (\<lambda>c. fst c = key) cs))"

text \<open>
  While the distinct flows fit into the table, the totals of every key are those of the packets
  counted so far.
\<close>

definition flow_inv :: "feature_switch \<Rightarrow> (flow_tuple_4 \<times> u64) list \<Rightarrow> flow \<Rightarrow> bool" where
  "flow_inv sw cs s \<longleftrightarrow>
     insp_flow_feature_switch s = sw \<and> hash_def (insp_flow4_metrics s) = insp_flow4_metrics_def \<and>
     distinct (map fst (hash_ents (insp_flow4_metrics s))) \<and>
     dom (hash_lookup (insp_flow4_metrics s)) = fst ` set cs \<and>
     (\<forall>key. total_packets s key = of_nat (counted_packets cs key) \<and>
            total_bytes s key = counted_bytes cs key)"

lemma distinct_flow_count:
  "distinct (map fst (hash_ents m)) \<Longrightarrow>
     distinct (map fst (hash_ents (flow_count evict fresh k key n m)))"
  by (auto simp: flow_count_def lru_percpu_update_def percpu_update_def percpu_modify_def hash_update_eq
      hash_modify_def distinct_map_filter Let_def split: option.splits)

lemma hash_def_flow_count [simp]: "hash_def (flow_count evict fresh k key n m) = hash_def m"
  by (simp add: flow_count_def lru_percpu_update_def Let_def)

lemma flow_inv_count:
  assumes "flow_inv sw cs s" and "room_accepted k" and "card (insert key (fst ` set cs)) \<le> 65535"
  shows "flow_inv sw (cs @ [(key, n)])
    (s\<lparr>insp_flow4_metrics :=
       flow_count evict (\<lambda>c. zero_flow_metrics) k key n (insp_flow4_metrics s)\<rparr>)"
proof -
  note inv = assms(1) [unfolded flow_inv_def]
  have room: "hash_lookup (insp_flow4_metrics s) key = None \<longrightarrow>
      length (hash_ents (insp_flow4_metrics s)) < max_entries (hash_def (insp_flow4_metrics s))"
  proof
    assume "hash_lookup (insp_flow4_metrics s) key = None"
    then have "key \<notin> fst ` set cs" using inv by auto
    then have "card (fst ` set cs) < 65535" using assms(3) by simp
    then show "length (hash_ents (insp_flow4_metrics s)) < max_entries (hash_def (insp_flow4_metrics s))"
      using inv by (simp add: hash_ents_card insp_flow4_metrics_def_def)
  qed
  note totals = flow_count_totals [OF assms(2) room, of evict n]
  show ?thesis
    unfolding flow_inv_def
    using inv totals
    by (auto simp: distinct_flow_count counted_packets_def counted_bytes_def)
qed

lemma flow_run_inv:
  assumes "flow_inv sw cs s" and "\<forall>(k, e) \<in> set xs. wire_layout (k_off k) \<and> room_accepted k"
    and "card (fst ` set (cs @ counted sw xs)) \<le> 65535"
  shows "\<exists>s'. flow_run evict (\<lambda>c. zero_flow_metrics) xs s = Some s' \<and>
    flow_inv sw (cs @ counted sw xs) s'"
  using assms
proof (induction xs arbitrary: cs s)
  case Nil
  then show ?case by (simp add: counted_def)
next
  case (Cons x xs)
  obtain k e where x: "x = (k, e)" by (cases x)
  with Cons.prems(2) have k: "wire_layout (k_off k)" "room_accepted k" by auto
  have sw: "insp_flow_feature_switch s = sw" using Cons.prems(1) by (simp add: flow_inv_def)
  show ?case
  proof (cases "flow_key k sw e")
    case None
    then show ?thesis
      using Cons.IH [OF Cons.prems(1)] Cons.prems(2,3) sw
      by (simp add: x do_flow_eq [OF k(1)] counted_def)
  next
    case (Some key)
    define n :: u64 where "n = ucast (tc_len (flow_skb e))"
    have cs: "counted sw (x # xs) = (key, n) # counted sw xs"
      using Some by (simp add: counted_def x n_def)
    have "insert key (fst ` set cs) \<subseteq> fst ` set (cs @ counted sw (x # xs))" by (auto simp: cs)
    then have "card (insert key (fst ` set cs)) \<le> card (fst ` set (cs @ counted sw (x # xs)))"
      by (intro card_mono) auto
    also have "\<dots> \<le> 65535" by (rule Cons.prems(3))
    finally have "card (insert key (fst ` set cs)) \<le> 65535" .
    from flow_inv_count [OF Cons.prems(1) k(2) this, of n evict]
    have "\<exists>s'. flow_run evict (\<lambda>c. zero_flow_metrics) xs
        (s\<lparr>insp_flow4_metrics :=
           flow_count evict (\<lambda>c. zero_flow_metrics) k key n (insp_flow4_metrics s)\<rparr>) = Some s' \<and>
        flow_inv sw ((cs @ [(key, n)]) @ counted sw xs) s'"
      using Cons.prems(2,3) by (intro Cons.IH) (auto simp: cs)
    then show ?thesis
      using Some sw by (simp add: x do_flow_eq [OF k(1)] n_def [symmetric] cs [unfolded x])
  qed
qed

lemma flow_init_inv: "flow_inv sw [] (flow_init sw)"
  by (auto simp: flow_inv_def flow_init_def total_packets_def total_bytes_def counted_packets_def
      counted_bytes_def dom_def) (simp add: hash_empty_def)

lemma flow_exact:
  assumes "\<forall>(k, e) \<in> set xs. wire_layout (k_off k) \<and> room_accepted k"
    and "card (fst ` set (counted sw xs)) \<le> 65535"
  shows "\<exists>s. flow_run evict (\<lambda>c. zero_flow_metrics) xs (flow_init sw) = Some s \<and>
    (\<forall>key. total_packets s key = of_nat (counted_packets (counted sw xs) key) \<and>
           total_bytes s key = counted_bytes (counted sw xs) key)"
  using flow_run_inv [OF flow_init_inv [of sw] assms(1), of evict] assms(2) by (auto simp: flow_inv_def)

text \<open>
  C14: flow accounting is exact. On kernels that clear new per-CPU entries and have memory
  for them, after any sequence of packets on any CPUs with at most 65535 different flows, the
  program has made no invalid access, and for every flow key the sums over the CPUs are the
  number of packets counted under it and the total of their lengths, modulo the width of the counters.
\<close>

theorem flow_accounting:
  assumes "\<forall>(k, e) \<in> set xs. wire_layout (k_off k) \<and> room_accepted k"
    and "card (fst ` set (counted sw xs)) \<le> 65535"
  shows "\<exists>s. flow_run evict (\<lambda>c. zero_flow_metrics) xs (flow_init sw) = Some s \<and>
    (\<forall>key. total_packets s key = of_nat (counted_packets (counted sw xs) key) \<and>
           total_bytes s key = counted_bytes (counted sw xs) key)"
  by (rule flow_exact [OF assms])

definition empty_frame :: tc_skb where
  "empty_frame = \<lparr>tc_len = 100, tc_data = replicate 14 0\<rparr>"

theorem flow_accounting_witness:
  "\<exists>s. flow_run (\<lambda>ents key. False) (\<lambda>c. zero_flow_metrics)
      [(sample_kernel, Ingress empty_frame), (sample_kernel\<lparr>k_cpu := 1\<rparr>, Egress empty_frame)] (flow_init []) =
      Some s \<and>
    (\<forall>key. total_packets s key =
        of_nat (counted_packets (counted [] [(sample_kernel, Ingress empty_frame),
          (sample_kernel\<lparr>k_cpu := 1\<rparr>, Egress empty_frame)]) key) \<and>
      total_bytes s key =
        counted_bytes (counted [] [(sample_kernel, Ingress empty_frame),
          (sample_kernel\<lparr>k_cpu := 1\<rparr>, Egress empty_frame)]) key)"
proof (rule flow_accounting)
  show "\<forall>(k, e) \<in> set [(sample_kernel, Ingress empty_frame), (sample_kernel\<lparr>k_cpu := 1\<rparr>, Egress empty_frame)].
      wire_layout (k_off k) \<and> room_accepted k"
    by (simp add: wire_layout_vmlinux room_accepted_def)
  have "builtin_bswap16 ETH_P_IP \<noteq> 0"
    by (simp add: ETH_P_IP_def builtin_bswap16_def word_le_def upt_rec byte_simps)
  then have "counted [] [(sample_kernel, Ingress empty_frame), (sample_kernel\<lparr>k_cpu := 1\<rparr>, Egress empty_frame)] =
      [(zero_flow_tuple, 100), (zero_flow_tuple, 100)]"
    by (simp add: counted_def flow_key_def empty_frame_def set_flow_tuple4_eq wire_layout_vmlinux
        slice_def)
  then show "card (fst ` set (counted [] [(sample_kernel, Ingress empty_frame),
      (sample_kernel\<lparr>k_cpu := 1\<rparr>, Egress empty_frame)])) \<le> 65535"
    by simp
qed

lemma flow_key_non_ip:
  assumes "wire_layout (k_off k)" and "14 \<le> length (tc_data (flow_skb e))"
    and "slice 12 2 (tc_data (flow_skb e)) \<noteq> word_be ETH_P_IP"
  shows "flow_key k sw e = Some zero_flow_tuple"
proof -
  have "length (slice 12 2 (tc_data (flow_skb e))) = 2" using assms(2) by simp
  then have "word_le (le_word (slice 12 2 (tc_data (flow_skb e))) :: u16) = slice 12 2 (tc_data (flow_skb e))"
    by (intro word_le_le_word) simp
  then have "(le_word (slice 12 2 (tc_data (flow_skb e))) :: u16) \<noteq> builtin_bswap16 ETH_P_IP"
    using assms(3) by (metis word_le_bswap_widths(1))
  with assms(1,2) show ?thesis
    by (simp add: flow_key_def set_flow_tuple4_eq)
qed

text \<open>
  Frames that are not IPv4, IPv6 among them, are counted too, all under the key of
  zeros: such a frame adds one packet and its length to the totals of that key and changes no other.
\<close>

lemma flow_non_ip:
  assumes "wire_layout (k_off k)" and "14 \<le> length (tc_data (flow_skb e))"
    and "slice 12 2 (tc_data (flow_skb e)) \<noteq> word_be ETH_P_IP"
    and "room_accepted k"
    and "length (hash_ents (insp_flow4_metrics s)) < max_entries (hash_def (insp_flow4_metrics s))"
  shows "\<exists>s'. flow_step evict (\<lambda>c. zero_flow_metrics) k e s = Some s' \<and>
    (\<forall>key. total_packets s' key = total_packets s key + (if key = zero_flow_tuple then 1 else 0) \<and>
           total_bytes s' key =
             total_bytes s key + (if key = zero_flow_tuple then ucast (tc_len (flow_skb e)) else 0))"
  using flow_count_totals(1,2) [OF assms(4), where s = s and key = zero_flow_tuple and evict = evict] assms(5)
  by (simp add: do_flow_eq [OF assms(1)] flow_key_non_ip [OF assms(1-3)])

lemma flow_non_ip_witness:
  "\<exists>s'. flow_step (\<lambda>ents key. False) (\<lambda>c. zero_flow_metrics) sample_kernel
      (Ingress \<lparr>tc_len = 14, tc_data = replicate 12 0 @ [0x86, 0xdd]\<rparr>) (flow_init []) = Some s' \<and>
    (\<forall>key. total_packets s' key =
             total_packets (flow_init []) key + (if key = zero_flow_tuple then 1 else 0) \<and>
           total_bytes s' key = total_bytes (flow_init []) key +
             (if key = zero_flow_tuple
              then ucast (tc_len (flow_skb (Ingress \<lparr>tc_len = 14, tc_data = replicate 12 0 @ [0x86, 0xdd]\<rparr>)))
              else 0))"
  by (rule flow_non_ip)
    (simp_all add: wire_layout_vmlinux slice_def ETH_P_IP_def word_be_def word_le_def upt_rec
      room_accepted_def flow_init_def insp_flow4_metrics_def_def, simp add: hash_empty_def)

end
