(* ===== verification/Golang.thy ===== *)
theory Golang
  imports Prelude
begin

text \<open>
  What the programs in Go under \<^verbatim>\<open>src/pkg\<close> use of the language: the result of a call that may
  panic or run forever, and lists and maps as the code has them.
\<close>

section \<open>Results of calls\<close>

text \<open>A call returns, panics, or does not return.\<close>

datatype 'a go = Ret 'a | Panic | Diverge

fun go_bind :: "'a go \<Rightarrow> ('a \<Rightarrow> 'b go) \<Rightarrow> 'b go" where
  "go_bind (Ret x) f = f x"
| "go_bind Panic f = Panic"
| "go_bind Diverge f = Diverge"

lemma go_bind_Ret_iff: "go_bind m f = Ret y \<longleftrightarrow> (\<exists>x. m = Ret x \<and> f x = Ret y)"
  by (cases m) auto

lemma go_bind_assoc: "go_bind (go_bind m f) g = go_bind m (\<lambda>x. go_bind (f x) g)"
  by (cases m) auto

text \<open>A loop over a slice whose body may panic.\<close>

fun go_foldl :: "('s \<Rightarrow> 'a \<Rightarrow> 's go) \<Rightarrow> 's \<Rightarrow> 'a list \<Rightarrow> 's go" where
  "go_foldl f s [] = Ret s"
| "go_foldl f s (x # xs) = go_bind (f s x) (\<lambda>s'. go_foldl f s' xs)"

lemma go_foldl_invariant:
  assumes "go_foldl f s xs = Ret s'" and "P s"
    and "\<And>s x s'. x \<in> set xs \<Longrightarrow> P s \<Longrightarrow> f s x = Ret s' \<Longrightarrow> P s'"
  shows "P s'"
  using assms by (induction xs arbitrary: s) (auto simp: go_bind_Ret_iff)

lemma go_foldl_returns:
  assumes "P s" and "\<And>s x. x \<in> set xs \<Longrightarrow> P s \<Longrightarrow> \<exists>s'. f s x = Ret s' \<and> P s'"
  shows "\<exists>s'. go_foldl f s xs = Ret s' \<and> P s'"
  using assms
proof (induction xs arbitrary: s)
  case (Cons x xs)
  from Cons.prems obtain s1 where "f s x = Ret s1" "P s1" by fastforce
  moreover from Cons.IH [OF this(2)] Cons.prems(2) obtain s2 where
    "go_foldl f s1 xs = Ret s2" "P s2" by auto
  ultimately show ?case by auto
qed auto

lemma go_foldl_Ret: "go_foldl (\<lambda>s x. Ret (f s x)) s xs = Ret (foldl f s xs)"
  by (induction xs arbitrary: s) auto


section \<open>Stable sorting\<close>

text \<open>
  \<^verbatim>\<open>sort.SliceStable\<close>: for a comparison that orders by a key, the sorted slice in which equal
  elements keep their order.
\<close>

fun insert_before :: "('a \<Rightarrow> 'a \<Rightarrow> bool) \<Rightarrow> 'a \<Rightarrow> 'a list \<Rightarrow> 'a list" where
  "insert_before lt x [] = [x]"
| "insert_before lt x (y # ys) = (if lt y x then y # insert_before lt x ys else x # y # ys)"

definition SliceStable :: "('a \<Rightarrow> 'a \<Rightarrow> bool) \<Rightarrow> 'a list \<Rightarrow> 'a list" where
  "SliceStable lt xs = foldr (insert_before lt) xs []"

lemma SliceStable_sort_key:
  fixes f :: "'a \<Rightarrow> 'k::linorder"
  assumes "\<And>x y. lt x y \<longleftrightarrow> f x < f y"
  shows "SliceStable lt xs = sort_key f xs"
proof -
  have "insert_before lt x ys = insort_key f x ys" for x ys
    using assms by (induction ys) (auto simp: not_le)
  then have "insert_before lt = insort_key f" by blast
  then show ?thesis by (simp add: SliceStable_def sort_key_def)
qed

text \<open>The first element of the sorted slice is the first one with the least key.\<close>

lemma hd_sort_key:
  fixes f :: "'a \<Rightarrow> 'k::linorder"
  assumes "xs \<noteq> []"
  shows "\<exists>i < length xs. hd (sort_key f xs) = xs ! i \<and> (\<forall>j < length xs. f (xs ! i) \<le> f (xs ! j)) \<and>
    (\<forall>j < i. f (xs ! i) < f (xs ! j))"
  using assms
proof (induction xs)
  case (Cons x xs)
  show ?case
  proof (cases "xs = []")
    case False
    with Cons.IH obtain i where i: "i < length xs" "hd (sort_key f xs) = xs ! i"
      "\<forall>j < length xs. f (xs ! i) \<le> f (xs ! j)" "\<forall>j < i. f (xs ! i) < f (xs ! j)" by blast
    have ne: "sort_key f xs \<noteq> []" using False by (metis length_0_conv length_sort)
    have hd: "hd (sort_key f (x # xs)) = (if f x \<le> f (xs ! i) then x else xs ! i)"
      using ne i(2) by (cases "sort_key f xs") auto
    show ?thesis
    proof (cases "f x \<le> f (xs ! i)")
      case True
      have "\<forall>j < Suc (length xs). f x \<le> f ((x # xs) ! j)"
        using True i(3) by (auto simp: less_Suc_eq_0_disj intro: order_trans)
      then show ?thesis using hd True by (intro exI [of _ 0]) auto
    next
      case lt: False
      then show ?thesis
        using hd i by (intro exI [of _ "Suc i"]) (auto simp: less_Suc_eq_0_disj not_le)
    qed
  qed auto
qed simp


end
