(* ===== verification/Ipcache.thy ===== *)
theory Ipcache
  imports Golang
begin

text \<open>
  The address cache of the controller, \<^verbatim>\<open>src/pkg/controller/ipcache/ipcache.go\<close>. Informers
  report pods and nodes; each change of an address becomes a numbered log entry, and one goroutine,
  \<^verbatim>\<open>syncControl\<close>, hands the log to the clients that watch it. A client is served by a goroutine
  of its own that moves entries from a bounded channel to the connection.

  The state is the service with the heap of its client objects and, for each client, the revision its
  request named and the responses sent on its connection. The channel \<^verbatim>\<open>logChan\<close> is an unbounded
  queue: a producer that waits for room has already numbered its entry and holds the lock, so the
  entries arrive in the same order. Revisions are natural numbers; the counter of the code has 64 bits
  and counts single changes.
\<close>

section \<open>Data\<close>

datatype opcode = OpCode_Set | OpCode_Del | OpCode_Other int

datatype entry_meta = CacheEntry_Pod string string | CacheEntry_Node string | CacheEntry_None

record cache_entry =
  ce_IP :: string
  ce_Meta :: entry_meta

record changeLog =
  cl_revision :: nat
  cl_opcode :: opcode
  cl_entry :: cache_entry

datatype clientstate = stale | uptodate | blocking

record watch_client =
  wc_revision :: nat
  wc_closed :: bool
  wc_state :: clientstate
  wc_ch :: "changeLog list"
  wc_ch_closed :: bool

record ipcache_service =
  storage_revision :: nat
  snapshot_revision :: nat
  snapshot_entries :: "string \<rightharpoonup> cache_entry"
  storage_log :: "changeLog list"
  clients :: "nat list"
  client_at :: "nat \<Rightarrow> watch_client"
  next_client :: nat
  request_revision :: "nat \<Rightarrow> nat"
  responses :: "nat \<Rightarrow> changeLog list"
  period :: string
  logChan :: "changeLog list"
  pendingLogs :: "changeLog list"
  maxSyncedRevision :: nat

definition MaxSyncBatchSize :: nat where "MaxSyncBatchSize = 20"

definition CompactThreshold :: nat where "CompactThreshold = 10240"

text \<open>The capacity of the channel of a client.\<close>

definition client_channel :: nat where "client_channel = 4 * 1024"

definition NewService :: "string \<Rightarrow> ipcache_service" where
  "NewService uuid =
     \<lparr>storage_revision = 0, snapshot_revision = 0, snapshot_entries = Map.empty, storage_log = [],
      clients = [],
      client_at = (\<lambda>_. \<lparr>wc_revision = 0, wc_closed = False, wc_state = stale, wc_ch = [],
                        wc_ch_closed = False\<rparr>),
      next_client = 0, request_revision = (\<lambda>_. 0), responses = (\<lambda>_. []), period = uuid, logChan = [],
      pendingLogs = [], maxSyncedRevision = 0\<rparr>"

text \<open>Update of one client object.\<close>

abbreviation upd_client :: "nat \<Rightarrow> (watch_client \<Rightarrow> watch_client) \<Rightarrow> ipcache_service \<Rightarrow> ipcache_service" where
  "upd_client c f s \<equiv> s\<lparr>client_at := (client_at s)(c := f (client_at s c))\<rparr>"

section \<open>Changes reported by the informers\<close>

record pod =
  pod_Namespace :: string
  pod_Name :: string
  pod_ResourceVersion :: string
  pod_HostNetwork :: bool
  pod_PodIPs :: "string list option"
  pod_PodIP :: string

datatype address_type = NodeInternalIP | NodeExternalIP | NodeOtherAddress

record node =
  node_Name :: string
  node_ResourceVersion :: string
  node_Addresses :: "(address_type \<times> string) list"

definition allPodIPs :: "pod \<Rightarrow> string list" where
  "allPodIPs p =
     (case pod_PodIPs p of
        Some ips \<Rightarrow> ips
      | None \<Rightarrow> if pod_PodIP p \<noteq> '''' then [pod_PodIP p] else [])"

definition createCacheEntries4Pod :: "pod \<Rightarrow> cache_entry list" where
  "createCacheEntries4Pod p =
     (if pod_HostNetwork p then []
      else map (\<lambda>ip. \<lparr>ce_IP = ip, ce_Meta = CacheEntry_Pod (pod_Namespace p) (pod_Name p)\<rparr>)
             (allPodIPs p))"

definition allNodeIPs :: "node \<Rightarrow> string list" where
  "allNodeIPs n =
     map snd (filter (\<lambda>a. fst a = NodeInternalIP \<or> fst a = NodeExternalIP) (node_Addresses n))"

definition createCacheEntries4Node :: "node \<Rightarrow> cache_entry list" where
  "createCacheEntries4Node n =
     map (\<lambda>ip. \<lparr>ce_IP = ip, ce_Meta = CacheEntry_Node (node_Name n)\<rparr>) (allNodeIPs n)"

fun log_one :: "opcode \<Rightarrow> ipcache_service \<Rightarrow> cache_entry \<Rightarrow> ipcache_service" where
  "log_one op s e =
     (let revision = storage_revision s + 1
      in s\<lparr>storage_revision := revision,
           logChan := logChan s @ [\<lparr>cl_revision = revision, cl_opcode = op, cl_entry = e\<rparr>]\<rparr>)"

definition logChange :: "opcode \<Rightarrow> cache_entry list \<Rightarrow> ipcache_service \<Rightarrow> ipcache_service" where
  "logChange op entries s = (if entries = [] then s else foldl (log_one op) s entries)"

definition onAddPod :: "pod \<Rightarrow> ipcache_service \<Rightarrow> ipcache_service" where
  "onAddPod p s =
     (let entries = createCacheEntries4Pod p
      in if 0 < length entries then logChange OpCode_Set entries s else s)"

text \<open>
  The argument of a delete handler is the object, a tombstone that holds the last known object, or
  something else, which is reported and ignored.
\<close>

datatype 'a deleted = Deleted 'a | Tombstone 'a | TombstoneOther | DeletedOther

fun deleted_object :: "'a deleted \<Rightarrow> 'a option" where
  "deleted_object (Deleted x) = Some x"
| "deleted_object (Tombstone x) = Some x"
| "deleted_object TombstoneOther = None"
| "deleted_object DeletedOther = None"

definition onDeletePod :: "pod deleted \<Rightarrow> ipcache_service \<Rightarrow> ipcache_service" where
  "onDeletePod obj s =
     (case deleted_object obj of
        None \<Rightarrow> s
      | Some p \<Rightarrow>
          (let entries = createCacheEntries4Pod p
           in if length entries = 0 then s else logChange OpCode_Del entries s))"

definition onUpdatePod :: "pod \<Rightarrow> pod \<Rightarrow> ipcache_service \<Rightarrow> ipcache_service" where
  "onUpdatePod oldPod newPod s =
     (if pod_ResourceVersion newPod = pod_ResourceVersion oldPod then s
      else if allPodIPs oldPod = allPodIPs newPod then s
      else
        let toRemove = createCacheEntries4Pod oldPod;
            s = (if 0 < length toRemove then logChange OpCode_Del toRemove s else s);
            toAdd = createCacheEntries4Pod newPod
        in if 0 < length toAdd then logChange OpCode_Set toAdd s else s)"

definition onAddNode :: "node \<Rightarrow> ipcache_service \<Rightarrow> ipcache_service" where
  "onAddNode n s =
     (let entries = createCacheEntries4Node n
      in if 0 < length entries then logChange OpCode_Set entries s else s)"

definition onDeleteNode :: "node deleted \<Rightarrow> ipcache_service \<Rightarrow> ipcache_service" where
  "onDeleteNode obj s =
     (case deleted_object obj of
        None \<Rightarrow> s
      | Some n \<Rightarrow>
          (let entries = createCacheEntries4Node n
           in if 0 < length entries then logChange OpCode_Del entries s else s))"

definition onUpdateNode :: "node \<Rightarrow> node \<Rightarrow> ipcache_service \<Rightarrow> ipcache_service" where
  "onUpdateNode oldNode newNode s =
     (if node_ResourceVersion newNode = node_ResourceVersion oldNode then s
      else if allNodeIPs oldNode = allNodeIPs newNode then s
      else
        let toRemove = createCacheEntries4Node oldNode;
            s = (if 0 < length toRemove then logChange OpCode_Del toRemove s else s);
            toAdd = createCacheEntries4Node newNode
        in if 0 < length toAdd then logChange OpCode_Set toAdd s else s)"

section \<open>Requests of the clients\<close>

record list_response =
  lr_Period :: string
  lr_Revision :: nat
  lr_Entries :: "string \<rightharpoonup> cache_entry"

text \<open>The entries of the response are the values of the map, in some order.\<close>

definition ListCache :: "ipcache_service \<Rightarrow> list_response" where
  "ListCache s =
     \<lparr>lr_Period = period s, lr_Revision = snapshot_revision s, lr_Entries = snapshot_entries s\<rparr>"

datatype watch_error = InvalidArgument | DataLoss

definition WatchCache :: "string \<Rightarrow> nat \<Rightarrow> ipcache_service \<Rightarrow> watch_error + nat \<times> ipcache_service" where
  "WatchCache req_period req_revision s =
     (if req_period \<noteq> period s then Inl InvalidArgument
      else if req_revision < snapshot_revision s then Inl DataLoss
      else
        let c = next_client s
        in Inr (c, s\<lparr>client_at := (client_at s)
                       (c := \<lparr>wc_revision = req_revision, wc_closed = False, wc_state = stale,
                              wc_ch = [], wc_ch_closed = False\<rparr>),
                     next_client := Suc c, request_revision := (request_revision s)(c := req_revision),
                     responses := (responses s)(c := []), clients := clients s @ [c]\<rparr>))"

text \<open>
  The loop of \<^verbatim>\<open>WatchCache\<close>: it sends the next entry of the channel, or ends because the
  connection is gone or a send fails. \<open>watch_take\<close> is \<open>n\<close> rounds of it.
\<close>

definition watch_send :: "nat \<Rightarrow> ipcache_service \<Rightarrow> ipcache_service" where
  "watch_send c s =
     (case wc_ch (client_at s c) of
        [] \<Rightarrow> s
      | cl # ch \<Rightarrow>
          if wc_closed (client_at s c) then s
          else (upd_client c (\<lambda>x. x\<lparr>wc_ch := ch\<rparr>) s)
                 \<lparr>responses := (responses s)(c := responses s c @ [cl])\<rparr>)"

definition watch_send_fails :: "nat \<Rightarrow> ipcache_service \<Rightarrow> ipcache_service" where
  "watch_send_fails c s =
     (case wc_ch (client_at s c) of
        [] \<Rightarrow> s
      | cl # ch \<Rightarrow>
          if wc_closed (client_at s c) then s
          else upd_client c (\<lambda>x. x\<lparr>wc_ch := ch, wc_closed := True\<rparr>) s)"

definition watch_done :: "nat \<Rightarrow> ipcache_service \<Rightarrow> ipcache_service" where
  "watch_done c s = upd_client c (\<lambda>x. x\<lparr>wc_closed := True\<rparr>) s"

fun watch_take :: "nat \<Rightarrow> nat \<Rightarrow> ipcache_service \<Rightarrow> ipcache_service" where
  "watch_take 0 c s = s"
| "watch_take (Suc n) c s = watch_take n c (watch_send c s)"

section \<open>The log\<close>

text \<open>The index of the first entry with a revision above the target, by bisection, or \<open>-1\<close>.\<close>

function findNext_loop :: "changeLog list \<Rightarrow> nat \<Rightarrow> int \<Rightarrow> int \<Rightarrow> int \<Rightarrow> int" where
  "findNext_loop sl target start end ret =
     (if start \<le> end then
        let mid = (start + end) div 2
        in if cl_revision (sl ! nat mid) \<le> target then findNext_loop sl target (mid + 1) end ret
           else findNext_loop sl target start (mid - 1) mid
      else ret)"
  by pat_completeness auto
termination
  by (relation "measure (\<lambda>(sl, target, start, end, ret). nat (end - start + 1))") auto

declare findNext_loop.simps [simp del]

definition findNext :: "changeLog list \<Rightarrow> nat \<Rightarrow> int" where
  "findNext sl target = findNext_loop sl target 0 (int (length sl) - 1) (- 1)"

fun apply_change :: "(string \<rightharpoonup> cache_entry) \<Rightarrow> changeLog \<Rightarrow> (string \<rightharpoonup> cache_entry)" where
  "apply_change m cl =
     (case cl_opcode cl of
        OpCode_Set \<Rightarrow> m(ce_IP (cl_entry cl) \<mapsto> cl_entry cl)
      | OpCode_Del \<Rightarrow> m(ce_IP (cl_entry cl) := None)
      | OpCode_Other _ \<Rightarrow> m)"

text \<open>
  The loop of \<^verbatim>\<open>compactLog\<close> never advances its index: it ends only if the first entry is above
  the revision.
\<close>

partial_function (option) compact_loop ::
    "nat \<Rightarrow> ipcache_service \<Rightarrow> ipcache_service option" where
  "compact_loop minRevision s =
     (case storage_log s of
        [] \<Rightarrow> Some s
      | cl # _ \<Rightarrow>
          if minRevision < cl_revision cl then Some s
          else compact_loop minRevision
                 (s\<lparr>snapshot_entries := apply_change (snapshot_entries s) cl,
                    snapshot_revision := cl_revision cl\<rparr>))"

fun min_revision :: "(nat \<Rightarrow> watch_client) \<Rightarrow> nat list \<Rightarrow> nat \<Rightarrow> nat" where
  "min_revision h [] m = m"
| "min_revision h (e # es) m =
     min_revision h es
       (if wc_closed (h e) then m else if wc_revision (h e) < m then wc_revision (h e) else m)"

definition compactLog :: "ipcache_service \<Rightarrow> ipcache_service go" where
  "compactLog s =
     (let minRevision = min_revision (client_at s) (clients s) 0
      in if minRevision = 0 then Ret s
         else (case compact_loop minRevision s of Some s' \<Rightarrow> Ret s' | None \<Rightarrow> Diverge))"

section \<open>Synchronisation\<close>

text \<open>
  The walk over the list of clients. A closed client is removed from the list, and the successor of
  a removed element is \<^verbatim>\<open>nil\<close>, so the walk ends there. The result is the clients found, the
  element removed and the list that remains.
\<close>

fun copy_walk ::
    "(nat \<Rightarrow> watch_client) \<Rightarrow> clientstate list \<Rightarrow> nat list \<Rightarrow> nat list \<times> nat option \<times> nat list" where
  "copy_walk h flt [] = ([], None, [])"
| "copy_walk h flt (e # es) =
     (if wc_closed (h e) then ([], Some e, es)
      else
        let (found, removed, rest) = copy_walk h flt es
        in (if flt = [] \<or> wc_state (h e) \<in> set flt then e # found else found, removed, e # rest))"

definition copyClients :: "clientstate list \<Rightarrow> ipcache_service \<Rightarrow> nat list \<times> ipcache_service" where
  "copyClients flt s =
     (let (found, removed, rest) = copy_walk (client_at s) flt (clients s);
          s = (case removed of
                 None \<Rightarrow> s
               | Some e \<Rightarrow> upd_client e (\<lambda>x. x\<lparr>wc_ch_closed := True\<rparr>) s)
      in (found, s\<lparr>clients := rest\<rparr>))"

text \<open>
  A non-blocking send. While \<^verbatim>\<open>syncControl\<close> runs, the goroutine of the client may empty the
  channel: \<open>d c r\<close> is the number of entries it takes before the entry with the revision \<open>r\<close> is
  offered to the client \<open>c\<close>. The second result tells whether the channel had room.
\<close>

definition offer :: "(nat \<Rightarrow> nat \<Rightarrow> nat) \<Rightarrow> nat \<Rightarrow> changeLog \<Rightarrow> ipcache_service \<Rightarrow> ipcache_service \<times> bool" where
  "offer d c cl s =
     (let s = watch_take (d c (cl_revision cl)) c s
      in if length (wc_ch (client_at s c)) < client_channel
         then (upd_client c (\<lambda>x. x\<lparr>wc_ch := wc_ch x @ [cl], wc_revision := cl_revision cl\<rparr>) s, True)
         else (s, False))"

fun syncOneUpdateToDateClient ::
    "(nat \<Rightarrow> nat \<Rightarrow> nat) \<Rightarrow> nat \<Rightarrow> changeLog list \<Rightarrow> ipcache_service \<Rightarrow> ipcache_service" where
  "syncOneUpdateToDateClient d c [] s = upd_client c (\<lambda>x. x\<lparr>wc_state := uptodate\<rparr>) s"
| "syncOneUpdateToDateClient d c (cl # cls) s =
     (case offer d c cl s of
        (s', True) \<Rightarrow> syncOneUpdateToDateClient d c cls s'
      | (s', False) \<Rightarrow> upd_client c (\<lambda>x. x\<lparr>wc_state := blocking\<rparr>) s')"

definition syncUpToDateClients ::
    "(nat \<Rightarrow> nat \<Rightarrow> nat) \<Rightarrow> changeLog list \<Rightarrow> nat \<Rightarrow> ipcache_service \<Rightarrow> ipcache_service go" where
  "syncUpToDateClients d cls upToDateRevision s =
     (let (cs, s) = copyClients [uptodate] s
      in go_foldl (\<lambda>s c. if wc_revision (client_at s c) \<noteq> upToDateRevision then Panic
                         else Ret (syncOneUpdateToDateClient d c cls s)) s cs)"

fun syncOne_loop ::
    "(nat \<Rightarrow> nat \<Rightarrow> nat) \<Rightarrow> nat \<Rightarrow> nat \<Rightarrow> changeLog list \<Rightarrow> ipcache_service \<Rightarrow> ipcache_service" where
  "syncOne_loop d c upToDateRevision [] s = s"
| "syncOne_loop d c upToDateRevision (cl # cls) s =
     (case offer d c cl s of
        (s', True) \<Rightarrow>
          if cl_revision cl = upToDateRevision then upd_client c (\<lambda>x. x\<lparr>wc_state := uptodate\<rparr>) s'
          else if upToDateRevision < cl_revision cl then upd_client c (\<lambda>x. x\<lparr>wc_state := stale\<rparr>) s'
          else syncOne_loop d c upToDateRevision cls s'
      | (s', False) \<Rightarrow> upd_client c (\<lambda>x. x\<lparr>wc_state := blocking\<rparr>) s')"

definition syncOne :: "(nat \<Rightarrow> nat \<Rightarrow> nat) \<Rightarrow> nat \<Rightarrow> ipcache_service \<Rightarrow> nat \<Rightarrow> ipcache_service" where
  "syncOne d upToDateRevision s c =
     (let index = findNext (storage_log s) (wc_revision (client_at s c))
      in if index = - 1 then s
         else syncOne_loop d c upToDateRevision (drop (nat index) (storage_log s)) s)"

definition syncClients :: "(nat \<Rightarrow> nat \<Rightarrow> nat) \<Rightarrow> nat \<Rightarrow> ipcache_service \<Rightarrow> ipcache_service" where
  "syncClients d upToDateRevision s =
     (let (cs, s) = copyClients [stale, blocking] s in foldl (syncOne d upToDateRevision) s cs)"

text \<open>The two cases of the loop of \<^verbatim>\<open>syncControl\<close>: an entry of the log and the ticker.\<close>

definition flush_pending :: "(nat \<Rightarrow> nat \<Rightarrow> nat) \<Rightarrow> ipcache_service \<Rightarrow> ipcache_service go" where
  "flush_pending d s =
     go_bind (syncUpToDateClients d (pendingLogs s) (maxSyncedRevision s) s)
       (\<lambda>s'. Ret (s'\<lparr>maxSyncedRevision := cl_revision (last (pendingLogs s)), pendingLogs := []\<rparr>))"

definition syncControl_log :: "(nat \<Rightarrow> nat \<Rightarrow> nat) \<Rightarrow> ipcache_service \<Rightarrow> ipcache_service go" where
  "syncControl_log d s =
     (case logChan s of
        [] \<Rightarrow> Ret s
      | cl # rest \<Rightarrow>
          (let s = s\<lparr>logChan := rest, storage_log := storage_log s @ [cl]\<rparr>
           in go_bind (if CompactThreshold < length (storage_log s) then compactLog s else Ret s)
                (\<lambda>s. let s = s\<lparr>pendingLogs := pendingLogs s @ [cl]\<rparr>
                     in if MaxSyncBatchSize < length (pendingLogs s) then flush_pending d s else Ret s)))"

definition syncControl_tick :: "(nat \<Rightarrow> nat \<Rightarrow> nat) \<Rightarrow> ipcache_service \<Rightarrow> ipcache_service go" where
  "syncControl_tick d s =
     go_bind (if 0 < length (pendingLogs s) then flush_pending d s else Ret s)
       (\<lambda>s. Ret (syncClients d (maxSyncedRevision s) s))"

section \<open>Runs\<close>

text \<open>
  A run is a sequence of steps of the informers, the connections and \<^verbatim>\<open>syncControl\<close>. A refused
  request changes nothing; a step of a client that does not exist changes nothing either.
\<close>

datatype ipcache_event =
    AddPod pod | DeletePod "pod deleted" | UpdatePod pod pod
  | AddNode node | DeleteNode "node deleted" | UpdateNode node node
  | Watch string nat | Send nat | SendFails nat | Done nat
  | TakeLog "nat \<Rightarrow> nat \<Rightarrow> nat" | Tick "nat \<Rightarrow> nat \<Rightarrow> nat"

fun ipcache_step :: "ipcache_event \<Rightarrow> ipcache_service \<Rightarrow> ipcache_service go" where
  "ipcache_step (AddPod p) s = Ret (onAddPod p s)"
| "ipcache_step (DeletePod x) s = Ret (onDeletePod x s)"
| "ipcache_step (UpdatePod p q) s = Ret (onUpdatePod p q s)"
| "ipcache_step (AddNode n) s = Ret (onAddNode n s)"
| "ipcache_step (DeleteNode x) s = Ret (onDeleteNode x s)"
| "ipcache_step (UpdateNode n m) s = Ret (onUpdateNode n m s)"
| "ipcache_step (Watch p r) s = (case WatchCache p r s of Inl _ \<Rightarrow> Ret s | Inr (_, s') \<Rightarrow> Ret s')"
| "ipcache_step (Send c) s = Ret (if c \<in> set (clients s) then watch_send c s else s)"
| "ipcache_step (SendFails c) s = Ret (if c \<in> set (clients s) then watch_send_fails c s else s)"
| "ipcache_step (Done c) s = Ret (if c \<in> set (clients s) then watch_done c s else s)"
| "ipcache_step (TakeLog d) s = syncControl_log d s"
| "ipcache_step (Tick d) s = syncControl_tick d s"

fun ipcache_run :: "ipcache_event list \<Rightarrow> ipcache_service \<Rightarrow> ipcache_service go" where
  "ipcache_run [] s = Ret s"
| "ipcache_run (e # es) s = go_bind (ipcache_step e s) (ipcache_run es)"

end
