(* ===== verification/IpcacheSync.thy ===== *)
theory IpcacheSync
  imports Ipcache
begin

text \<open>
  What the address cache of the controller guarantees to the clients that watch it: bisection finds
  the next entry, every open client gets the entries after the revision it asked for, in order and
  without a gap, and a round of the ticker brings every client up to date. The guarantee that
  \<^verbatim>\<open>syncControl\<close> does not panic holds only while no client disconnects.
\<close>

section \<open>Bisection\<close>

definition next_entry :: "changeLog list \<Rightarrow> nat \<Rightarrow> int \<Rightarrow> bool" where
  "next_entry sl target i \<longleftrightarrow>
     (if i = - 1 then \<forall>cl \<in> set sl. cl_revision cl \<le> target
      else 0 \<le> i \<and> i < int (length sl) \<and> target < cl_revision (sl ! nat i) \<and>
        (\<forall>j < nat i. cl_revision (sl ! j) \<le> target))"

lemma findNext_loop_correct:
  assumes "sorted (map cl_revision sl)"
    and "0 \<le> start" and "start \<le> end + 1" and "end < int (length sl)"
    and "\<forall>j < nat start. cl_revision (sl ! j) \<le> target"
    and "if ret = - 1 then end = int (length sl) - 1
         else ret = end + 1 \<and> ret < int (length sl) \<and> target < cl_revision (sl ! nat ret)"
  shows "next_entry sl target (findNext_loop sl target start end ret)"
  using assms
proof (induction sl target start "end" ret rule: findNext_loop.induct)
  case (1 sl target start "end" ret)
  show ?case
  proof (cases "start \<le> end")
    case True
    define mid where "mid = (start + end) div 2"
    have mid: "start \<le> mid" "mid \<le> end" "0 \<le> mid" "nat mid < length sl"
      using True "1.prems" by (auto simp: mid_def)
    show ?thesis
    proof (cases "cl_revision (sl ! nat mid) \<le> target")
      case le: True
      have "cl_revision (sl ! j) \<le> target" if "j < nat (mid + 1)" for j
      proof -
        have "j \<le> nat mid" using that mid by linarith
        then have "cl_revision (sl ! j) \<le> cl_revision (sl ! nat mid)"
          using "1.prems"(1) mid(4) by (auto simp: sorted_iff_nth_mono)
        with le show ?thesis by simp
      qed
      with "1.IH"(1) [OF True mid_def le] "1.prems" mid show ?thesis
        by (subst findNext_loop.simps) (simp add: True le mid_def [symmetric])
    next
      case gt: False
      with "1.IH"(2) [OF True mid_def gt] "1.prems" mid show ?thesis
        by (subst findNext_loop.simps) (simp add: True mid_def [symmetric])
    qed
  next
    case False
    then have "start = end + 1" using "1.prems" by linarith
    with "1.prems" have "next_entry sl target ret"
      by (auto simp: next_entry_def in_set_conv_nth nat_add_distrib split: if_splits)
    with False show ?thesis by (subst findNext_loop.simps) simp
  qed
qed

lemma findNext_next_entry: "sorted (map cl_revision sl) \<Longrightarrow> next_entry sl target (findNext sl target)"
  unfolding findNext_def by (rule findNext_loop_correct) auto

section \<open>The numbered log\<close>

definition numbered :: "changeLog list \<Rightarrow> bool" where
  "numbered l \<longleftrightarrow> map cl_revision l = [1..<Suc (length l)]"

lemma numbered_nth: "numbered l \<Longrightarrow> i < length l \<Longrightarrow> cl_revision (l ! i) = Suc i"
  unfolding numbered_def by (metis (no_types) add.commute diff_Suc_1 length_map length_upt nth_map nth_upt
      plus_1_eq_Suc less_diff_conv)

lemma numbered_snoc: "numbered (l @ [x]) \<longleftrightarrow> numbered l \<and> cl_revision x = Suc (length l)"
  by (auto simp: numbered_def)

lemma numbered_append: "numbered (l @ l') \<Longrightarrow> numbered l"
  by (induction l' rule: rev_induct) (auto simp: numbered_snoc simp flip: append_assoc)

lemma findNext_numbered:
  assumes "numbered l"
  shows "findNext l r = (if r < length l then int r else - 1)"
proof -
  have "sorted (map cl_revision l)" using assms by (simp add: numbered_def del: upt_Suc)
  then have n: "next_entry l r (findNext l r)" by (rule findNext_next_entry)
  show ?thesis
  proof (cases "findNext l r = - 1")
    case True
    with n have "\<forall>i < length l. cl_revision (l ! i) \<le> r" by (auto simp: next_entry_def)
    then have "\<forall>i < length l. Suc i \<le> r" using numbered_nth [OF assms] by auto
    then have "\<not> r < length l" by (metis not_less_eq_eq order_refl)
    with True show ?thesis by simp
  next
    case False
    define i where "i = nat (findNext l r)"
    with n False have i: "findNext l r = int i" "i < length l" "r < cl_revision (l ! i)"
      "\<forall>j < i. cl_revision (l ! j) \<le> r" by (auto simp: next_entry_def)
    with numbered_nth [OF assms] have "r \<le> i" "\<forall>j < i. Suc j \<le> r" by auto
    then have "i = r" by (metis Suc_le_lessD le_antisym not_less_eq_eq less_Suc_eq_le nat_neq_iff)
    with i show ?thesis by simp
  qed
qed

section \<open>One client\<close>

definition delivered :: "ipcache_service \<Rightarrow> nat \<Rightarrow> changeLog list" where
  "delivered s c = responses s c @ wc_ch (client_at s c)"

text \<open>
  A synchronisation step of the client \<open>c\<close> changes only its object and its connection: it appends
  \<open>new\<close> to what is delivered, moves the revision to that of the last new entry and leaves the client
  open or closed as it was.
\<close>

definition core :: "ipcache_service \<Rightarrow> ipcache_service" where
  "core s = s\<lparr>client_at := \<lambda>_. client_at (NewService '''') 0, responses := \<lambda>_. []\<rparr>"

lemma core_fields:
  assumes "core s' = core s"
  shows "storage_revision s' = storage_revision s" "snapshot_revision s' = snapshot_revision s"
    "snapshot_entries s' = snapshot_entries s" "storage_log s' = storage_log s" "clients s' = clients s"
    "next_client s' = next_client s" "request_revision s' = request_revision s" "period s' = period s"
    "logChan s' = logChan s" "pendingLogs s' = pendingLogs s" "maxSyncedRevision s' = maxSyncedRevision s"
  using assms by (cases s; cases s'; simp add: core_def)+

definition fed :: "nat \<Rightarrow> changeLog list \<Rightarrow> ipcache_service \<Rightarrow> ipcache_service \<Rightarrow> bool" where
  "fed c new s s' \<longleftrightarrow>
     core s' = core s \<and> (\<forall>c'. c' \<noteq> c \<longrightarrow> client_at s' c' = client_at s c' \<and> responses s' c' = responses s c') \<and>
     delivered s' c = delivered s c @ new \<and> wc_closed (client_at s' c) = wc_closed (client_at s c) \<and>
     wc_revision (client_at s' c) =
       (if new = [] then wc_revision (client_at s c) else cl_revision (last new))"

lemma fedD:
  assumes "fed c new s s'"
  shows "core s' = core s" "c' \<noteq> c \<Longrightarrow> client_at s' c' = client_at s c'"
    "c' \<noteq> c \<Longrightarrow> responses s' c' = responses s c'" "delivered s' c = delivered s c @ new"
    "wc_closed (client_at s' c) = wc_closed (client_at s c)"
    "wc_revision (client_at s' c) =
       (if new = [] then wc_revision (client_at s c) else cl_revision (last new))"
  using assms by (auto simp: fed_def)

lemma fed_refl: "fed c [] s s"
  by (auto simp: fed_def)

lemma fed_trans: "fed c new s s' \<Longrightarrow> fed c new' s' s'' \<Longrightarrow> fed c (new @ new') s s''"
  by (auto simp: fed_def)

lemma fed_state: "fed c new s s' \<Longrightarrow> fed c new s (upd_client c (\<lambda>x. x\<lparr>wc_state := st\<rparr>) s')"
  by (auto simp: fed_def core_def delivered_def)

lemma fed_watch_send:
  "fed c [] s (watch_send c s)" "wc_state (client_at (watch_send c s) c) = wc_state (client_at s c)"
  by (auto simp: watch_send_def fed_def core_def delivered_def split: list.split)

lemma fed_watch_take:
  "fed c [] s (watch_take n c s)"
  "wc_state (client_at (watch_take n c s) c) = wc_state (client_at s c)"
proof (induction n arbitrary: s)
  case (Suc n)
  { case 1
    from fed_trans [OF fed_watch_send(1) Suc.IH(1), of s] show ?case by simp }
  { case 2
    from Suc.IH(2) show ?case by (simp add: fed_watch_send) }
qed (simp_all add: fed_refl)

lemma fed_offer:
  "fed c (if snd (offer d c cl s) then [cl] else []) s (fst (offer d c cl s))"
  "wc_state (client_at (fst (offer d c cl s)) c) = wc_state (client_at s c)"
proof -
  define s1 where "s1 = watch_take (d c (cl_revision cl)) c s"
  have 1: "fed c [] s s1" "wc_state (client_at s1 c) = wc_state (client_at s c)"
    unfolding s1_def by (rule fed_watch_take)+
  have "fed c [cl] s1 (upd_client c (\<lambda>x. x\<lparr>wc_ch := wc_ch x @ [cl], wc_revision := cl_revision cl\<rparr>) s1)"
    by (simp add: fed_def core_def delivered_def)
  from fed_trans [OF 1(1) this] 1
  show "fed c (if snd (offer d c cl s) then [cl] else []) s (fst (offer d c cl s))"
    "wc_state (client_at (fst (offer d c cl s)) c) = wc_state (client_at s c)"
    by (simp_all add: offer_def s1_def [symmetric] Let_def)
qed

lemma sync_uptodate_fed:
  "\<exists>k \<le> length cls. fed c (take k cls) s (syncOneUpdateToDateClient d c cls s) \<and>
     (wc_state (client_at (syncOneUpdateToDateClient d c cls s) c) = uptodate \<longrightarrow> k = length cls)"
proof (induction d c cls s rule: syncOneUpdateToDateClient.induct)
  case (1 d c s)
  show ?case using fed_state [OF fed_refl] by auto
next
  case (2 d c cl cls s)
  obtain s' ok where o: "offer d c cl s = (s', ok)" by fastforce
  show ?case
  proof (cases ok)
    case True
    with fed_offer(1) [of c d cl s] o have "fed c [cl] s s'" by simp
    with "2.IH" [OF o [symmetric]] True obtain k where "k \<le> length cls"
      "fed c (take (Suc k) (cl # cls)) s (syncOneUpdateToDateClient d c cls s')"
      "wc_state (client_at (syncOneUpdateToDateClient d c cls s') c) = uptodate \<longrightarrow> k = length cls"
      using fed_trans by fastforce
    with o True show ?thesis by (intro exI [of _ "Suc k"]) auto
  next
    case False
    with fed_offer(1) [of c d cl s] o have "fed c [] s s'" by simp
    with o False show ?thesis by (intro exI [of _ 0]) (auto intro: fed_state)
  qed
qed

lemma sync_loop_fed:
  assumes "\<forall>cl \<in> set cls. cl_revision cl \<le> upTo"
  shows "\<exists>k \<le> length cls. fed c (take k cls) s (syncOne_loop d c upTo cls s) \<and>
     (wc_state (client_at (syncOne_loop d c upTo cls s) c) = uptodate \<longrightarrow>
        wc_revision (client_at (syncOne_loop d c upTo cls s) c) = upTo \<or>
        wc_state (client_at s c) = uptodate)"
  using assms
proof (induction d c upTo cls s rule: syncOne_loop.induct)
  case (1 d c upTo s)
  show ?case using fed_refl by auto
next
  case (2 d c upTo cl cls s)
  obtain s' ok where o: "offer d c cl s = (s', ok)" by fastforce
  show ?case
  proof (cases ok)
    case True
    with fed_offer(1) [of c d cl s] o have f: "fed c [cl] s s'" by simp
    show ?thesis
    proof (cases "cl_revision cl = upTo")
      case eq: True
      with f have "wc_revision (client_at s' c) = upTo" by (simp add: fed_def)
      with f o True eq show ?thesis
        by (intro exI [of _ 1]) (auto intro: fed_state)
    next
      case neq: False
      have st: "wc_state (client_at s' c) = wc_state (client_at s c)"
        using fed_offer(2) [of d c cl s] o by simp
      from neq True o "2.IH" [OF o [symmetric]] "2.prems" obtain k where "k \<le> length cls"
        "fed c (take (Suc k) (cl # cls)) s (syncOne_loop d c upTo cls s')"
        "wc_state (client_at (syncOne_loop d c upTo cls s') c) = uptodate \<longrightarrow>
          wc_revision (client_at (syncOne_loop d c upTo cls s') c) = upTo \<or>
          wc_state (client_at s' c) = uptodate"
        using fed_trans [OF f] by fastforce
      with o True neq "2.prems" st show ?thesis by (intro exI [of _ "Suc k"]) auto
    qed
  next
    case False
    with fed_offer(1) [of c d cl s] o have "fed c [] s s'" by simp
    with o False show ?thesis by (intro exI [of _ 0]) (auto intro: fed_state)
  qed
qed

section \<open>Invariants\<close>

text \<open>
  The log is numbered from one and its entries set or delete the address of a pod or a node, the
  entries not yet handed on are its end, and the clients have distinct addresses.
\<close>

definition valid_change :: "changeLog \<Rightarrow> bool" where
  "valid_change cl \<longleftrightarrow>
     (cl_opcode cl = OpCode_Set \<or> cl_opcode cl = OpCode_Del) \<and> ce_Meta (cl_entry cl) \<noteq> CacheEntry_None"

definition log_inv :: "ipcache_service \<Rightarrow> bool" where
  "log_inv s \<longleftrightarrow>
     (\<forall>cl \<in> set (storage_log s @ logChan s). valid_change cl) \<and> numbered (storage_log s @ logChan s) \<and> storage_revision s = length (storage_log s @ logChan s) \<and>
     maxSyncedRevision s \<le> length (storage_log s) \<and>
     pendingLogs s = drop (maxSyncedRevision s) (storage_log s) \<and>
     distinct (clients s) \<and> (\<forall>c \<in> set (clients s). c < next_client s) \<and>
     snapshot_revision s = 0 \<and> snapshot_entries s = Map.empty"

text \<open>
  An open client has got the entries from the revision it asked for to the one it is at, which is
  not above \<open>M\<close> unless it asked for it.
\<close>

definition client_inv :: "nat \<Rightarrow> ipcache_service \<Rightarrow> nat \<Rightarrow> bool" where
  "client_inv M s c \<longleftrightarrow>
     (let r = wc_revision (client_at s c); a = request_revision s c
      in delivered s c = take (r - a) (drop a (storage_log s)) \<and> a \<le> r \<and> (r = a \<or> r \<le> M))"

definition delivery_inv :: "ipcache_service \<Rightarrow> bool" where
  "delivery_inv s \<longleftrightarrow>
     (\<forall>c \<in> set (clients s). \<not> wc_closed (client_at s c) \<longrightarrow> client_inv (maxSyncedRevision s) s c)"

text \<open>While no client disconnects, the clients marked up to date are.\<close>

definition uptodate_inv :: "ipcache_service \<Rightarrow> bool" where
  "uptodate_inv s \<longleftrightarrow>
     (\<forall>c \<in> set (clients s). \<not> wc_closed (client_at s c) \<and>
        (wc_state (client_at s c) = uptodate \<longrightarrow> wc_revision (client_at s c) = maxSyncedRevision s))"

lemma take_drop_extend:
  "a \<le> m \<Longrightarrow> take (m - a) (drop a l) @ take k (drop m l) = take (m + k - a) (drop a l)"
  using take_add [of "m - a" k "drop a l"] by (simp add: add.commute)

lemma last_take_numbered:
  "numbered l \<Longrightarrow> 0 < k \<Longrightarrow> m + k \<le> length l \<Longrightarrow> cl_revision (last (take k (drop m l))) = m + k"
  using numbered_nth [of l "m + (k - 1)"] by (simp add: last_conv_nth)

text \<open>Feeding a client the entries after its revision keeps the invariant.\<close>

lemma client_inv_mono: "client_inv M s c \<Longrightarrow> M \<le> M' \<Longrightarrow> client_inv M' s c"
  by (auto simp: client_inv_def Let_def)

lemma client_inv_fed:
  assumes "fed c (take k (drop m (storage_log s))) s s'" and "client_inv M s c"
    and "wc_revision (client_at s c) = m" and "numbered (storage_log s)"
    and "m + k \<le> length (storage_log s)"
  shows "client_inv (length (storage_log s)) s' c" and "wc_revision (client_at s' c) = m + k"
proof -
  note core = core_fields [OF fedD(1) [OF assms(1)]]
  show r: "wc_revision (client_at s' c) = m + k"
    using fedD(6) [OF assms(1)] last_take_numbered [OF assms(4), of k m] assms(3,5)
    by (cases "k = 0") auto
  have a: "request_revision s c \<le> m" using assms(2,3) by (auto simp: client_inv_def Let_def)
  have "delivered s' c = take (m - request_revision s c) (drop (request_revision s c) (storage_log s)) @
      take k (drop m (storage_log s))"
    using fedD(4) [OF assms(1)] assms(2,3) by (simp add: client_inv_def Let_def)
  also have "\<dots> = take (m + k - request_revision s c) (drop (request_revision s c) (storage_log s))"
    using a by (rule take_drop_extend)
  finally show "client_inv (length (storage_log s)) s' c"
    using r a core assms(5) by (simp add: client_inv_def)
qed

section \<open>Handing the pending entries on\<close>

lemma copy_walk_Cons:
  "copy_walk h flt (e # es) =
     (if wc_closed (h e) then ([], Some e, es)
      else (if flt = [] \<or> wc_state (h e) \<in> set flt then e # fst (copy_walk h flt es)
            else fst (copy_walk h flt es),
            fst (snd (copy_walk h flt es)), e # snd (snd (copy_walk h flt es))))"
  by (simp split: prod.split)

declare copy_walk.simps(2) [simp del]

lemma copy_walk_sets:
  "set (fst (copy_walk h flt es)) \<subseteq> set (snd (snd (copy_walk h flt es)))"
  "set (snd (snd (copy_walk h flt es))) \<subseteq> set es"
  "distinct es \<Longrightarrow> distinct (snd (snd (copy_walk h flt es)))"
  by (induction es) (auto simp: copy_walk_Cons)

lemma copy_walk_distinct: "distinct es \<Longrightarrow> distinct (fst (copy_walk h flt es))"
proof (induction es)
  case (Cons e es)
  have "e \<notin> set (fst (copy_walk h flt es))"
    using Cons.prems copy_walk_sets(1,2) [of h flt es] by (metis distinct.simps(2) subsetD)
  with Cons show ?case by (simp add: copy_walk_Cons)
qed simp

lemma copy_walk_removed_in: "fst (snd (copy_walk h flt es)) = Some e \<Longrightarrow> e \<in> set es"
  by (induction es) (auto simp: copy_walk_Cons split: if_splits)

lemma copy_walk_removed:
  "fst (snd (copy_walk h flt es)) = Some e \<Longrightarrow> distinct es \<Longrightarrow> e \<notin> set (snd (snd (copy_walk h flt es)))"
proof (induction es)
  case (Cons e' es)
  then show ?case
    by (cases "wc_closed (h e')") (auto simp: copy_walk_Cons dest: copy_walk_removed_in)
qed simp

lemma copy_walk_found:
  "c \<in> set (fst (copy_walk h flt es)) \<Longrightarrow>
     \<not> wc_closed (h c) \<and> (flt = [] \<or> wc_state (h c) \<in> set flt)"
  by (induction es) (auto simp: copy_walk_Cons split: if_splits)

lemma copy_walk_open:
  "\<forall>c \<in> set es. \<not> wc_closed (h c) \<Longrightarrow>
     copy_walk h flt es = (filter (\<lambda>c. flt = [] \<or> wc_state (h c) \<in> set flt) es, None, es)"
  by (induction es) (auto simp: copy_walk_Cons)

text \<open>The state after \<^verbatim>\<open>copyClients\<close> differs in the list and in the object that was removed.\<close>

lemma copyClients_props:
  assumes "copyClients flt s = (cs, s1)" and "distinct (clients s)"
  shows "set cs \<subseteq> set (clients s1)" "set (clients s1) \<subseteq> set (clients s)" "distinct (clients s1)"
    "distinct cs" "\<forall>c \<in> set cs. \<not> wc_closed (client_at s c) \<and> (flt = [] \<or> wc_state (client_at s c) \<in> set flt)"
    "core s1 = (core s)\<lparr>clients := clients s1\<rparr>" "responses s1 = responses s"
    "\<forall>c \<in> set (clients s1). client_at s1 c = client_at s c"
    "\<forall>c \<in> set (clients s). \<not> wc_closed (client_at s c) \<Longrightarrow> clients s1 = clients s \<and>
       cs = filter (\<lambda>c. flt = [] \<or> wc_state (client_at s c) \<in> set flt) (clients s)"
proof -
  define w where "w = copy_walk (client_at s) flt (clients s)"
  from assms(1) have cs: "cs = fst w" "clients s1 = snd (snd w)"
    by (auto simp: copyClients_def Let_def w_def split: option.splits prod.splits)
  with assms(2) show "set cs \<subseteq> set (clients s1)" "set (clients s1) \<subseteq> set (clients s)"
    "distinct (clients s1)" "distinct cs"
    unfolding w_def by (simp_all add: copy_walk_sets copy_walk_distinct)
  show "\<forall>c \<in> set cs. \<not> wc_closed (client_at s c) \<and> (flt = [] \<or> wc_state (client_at s c) \<in> set flt)"
    unfolding cs w_def using copy_walk_found by blast
  show "\<forall>c \<in> set (clients s). \<not> wc_closed (client_at s c) \<Longrightarrow> clients s1 = clients s \<and>
       cs = filter (\<lambda>c. flt = [] \<or> wc_state (client_at s c) \<in> set flt) (clients s)"
    unfolding cs w_def by (simp add: copy_walk_open)

  have s1: "s1 = (case fst (snd w) of
                 None \<Rightarrow> s
               | Some e \<Rightarrow> upd_client e (\<lambda>x. x\<lparr>wc_ch_closed := True\<rparr>) s)\<lparr>clients := snd (snd w)\<rparr>"
    using assms(1) by (auto simp: copyClients_def Let_def w_def split: prod.splits)
  show "core s1 = (core s)\<lparr>clients := clients s1\<rparr>" "responses s1 = responses s"
    unfolding s1 by (auto simp: core_def split: option.split)
  show "\<forall>c \<in> set (clients s1). client_at s1 c = client_at s c"
    using copy_walk_removed [of "client_at s" flt "clients s"] assms(2)
    unfolding s1 w_def by (auto split: option.split)

qed

text \<open>
  A loop over distinct clients that changes each of them alone: what a step establishes for its client
  still holds at the end.
\<close>

definition untouched :: "nat \<Rightarrow> ipcache_service \<Rightarrow> ipcache_service \<Rightarrow> bool" where
  "untouched c s s' \<longleftrightarrow> client_at s' c = client_at s c \<and> responses s' c = responses s c"

lemma fed_untouched: "fed c new s s' \<Longrightarrow> c' \<noteq> c \<Longrightarrow> untouched c' s s'"
  by (simp add: fed_def untouched_def)

lemma untouched_client_inv:
  "untouched c s s' \<Longrightarrow> core s' = core s \<Longrightarrow> client_inv L s' c = client_inv L s c"
  using core_fields [of s' s] by (simp add: untouched_def client_inv_def delivered_def)

lemma fold_clients:
  assumes "go_foldl f s cs = Ret s'" and "distinct cs"
    and step: "\<And>x c x'. c \<in> set cs \<Longrightarrow> core x = core s \<Longrightarrow> untouched c s x \<Longrightarrow> f x c = Ret x' \<Longrightarrow>
      core x' = core s \<and> (\<forall>c'. c' \<noteq> c \<longrightarrow> untouched c' x x') \<and> Q c x'"
    and keep: "\<And>c x x'. Q c x \<Longrightarrow> core x' = core x \<Longrightarrow> untouched c x x' \<Longrightarrow> Q c x'"
  shows "core s' = core s" "c \<in> set cs \<Longrightarrow> Q c s'" "c \<notin> set cs \<Longrightarrow> untouched c s s'"
proof -
  have "core s' = core s \<and> (\<forall>c \<in> set ds. Q c s') \<and> (\<forall>c. c \<notin> set ds \<longrightarrow> untouched c x s')"
    if "go_foldl f x ds = Ret s'" "distinct ds" "set ds \<subseteq> set cs" "core x = core s"
      "\<forall>c \<in> set ds. untouched c s x" for x ds
    using that
  proof (induction ds arbitrary: x)
    case (Cons c ds)
    then obtain x1 where x1: "f x c = Ret x1" "go_foldl f x1 ds = Ret s'"
      by (auto simp: go_bind_Ret_iff)
    with step [of c x x1] Cons.prems have s: "core x1 = core s" "\<forall>c'. c' \<noteq> c \<longrightarrow> untouched c' x x1" "Q c x1"
      by auto
    have "\<forall>c' \<in> set ds. untouched c' s x1"
      using Cons.prems(2,5) s(2) by (auto simp: untouched_def)
    with Cons.IH [OF x1(2)] Cons.prems s(1) have IH: "core s' = core s" "\<forall>c \<in> set ds. Q c s'"
      "\<forall>c. c \<notin> set ds \<longrightarrow> untouched c x1 s'" by auto
    moreover have "Q c s'" using keep [OF s(3)] IH(1,3) s(1) Cons.prems(2) by simp
    ultimately show ?case using s(2) by (auto simp: untouched_def)
  qed (simp add: untouched_def)
  from this [OF assms(1,2)] show "core s' = core s" "c \<in> set cs \<Longrightarrow> Q c s'"
    "c \<notin> set cs \<Longrightarrow> untouched c s s'" by (auto simp: untouched_def)
qed

text \<open>What synchronisation establishes: the client is within the log, and up to date if marked so.\<close>

definition synced :: "ipcache_service \<Rightarrow> nat \<Rightarrow> ipcache_service \<Rightarrow> bool" where
  "synced s c s' \<longleftrightarrow>
     client_inv (length (storage_log s)) s' c \<and>
     wc_closed (client_at s' c) = wc_closed (client_at s c) \<and>
     (wc_state (client_at s' c) = uptodate \<longrightarrow> wc_revision (client_at s' c) = length (storage_log s))"

lemma synced_keep: "synced s c x \<Longrightarrow> core x' = core x \<Longrightarrow> untouched c x x' \<Longrightarrow> synced s c x'"
  by (simp add: synced_def untouched_client_inv) (simp add: untouched_def)

lemma feed_clients:
  assumes "go_foldl (\<lambda>s c. if wc_revision (client_at s c) \<noteq> m then Panic
             else Ret (syncOneUpdateToDateClient d c cls s)) s cs = Ret s'"
    and "distinct cs" and "numbered (storage_log s)" and "cls = drop m (storage_log s)"
    and "m \<le> length (storage_log s)" and "\<forall>c \<in> set cs. client_inv M s c"
  shows "core s' = core s" "c \<in> set cs \<Longrightarrow> synced s c s'" "c \<notin> set cs \<Longrightarrow> untouched c s s'"
proof -
  have step: "core x' = core s \<and> (\<forall>c'. c' \<noteq> c \<longrightarrow> untouched c' x x') \<and> synced s c x'"
    if x: "c \<in> set cs" "core x = core s" "untouched c s x"
      "(if wc_revision (client_at x c) \<noteq> m then Panic
        else Ret (syncOneUpdateToDateClient d c cls x)) = Ret x'" for x c x'
  proof -
    from x(4) have rev: "wc_revision (client_at x c) = m" and x': "x' = syncOneUpdateToDateClient d c cls x"
      by (auto split: if_splits)
    obtain k where k: "k \<le> length cls" "fed c (take k cls) x x'"
      "wc_state (client_at x' c) = uptodate \<longrightarrow> k = length cls"
      using sync_uptodate_fed [of cls c x d] x' by auto
    have log: "storage_log x = storage_log s" using core_fields [OF x(2)] by simp
    have inv: "client_inv M x c" using untouched_client_inv [OF x(3,2)] x(1) assms(6) by simp
    have "fed c (take k (drop m (storage_log x))) x x'" "m + k \<le> length (storage_log x)"
      using k(1,2) log assms(4,5) by auto
    with client_inv_fed [OF _ inv rev] log assms(3)
    have "client_inv (length (storage_log s)) x' c" "wc_revision (client_at x' c) = m + k" by auto
    with k log assms(4,5) x(3) fedD(5) [OF k(2)] have "synced s c x'"
      by (auto simp: synced_def untouched_def)
    with fedD(1) [OF k(2)] x(2) fed_untouched [OF k(2)] show ?thesis by auto
  qed
  note fold = fold_clients [where Q = "synced s", OF assms(1,2)]
  show "core s' = core s" "c \<in> set cs \<Longrightarrow> synced s c s'" "c \<notin> set cs \<Longrightarrow> untouched c s s'"
    by (rule fold; (assumption | erule (3) step | erule (2) synced_keep))+
qed

lemma feed_returns:
  assumes "distinct cs" and "\<forall>c \<in> set cs. wc_revision (client_at s c) = m"
  shows "\<exists>s'. go_foldl (\<lambda>s c. if wc_revision (client_at s c) \<noteq> m then Panic
             else Ret (syncOneUpdateToDateClient d c cls s)) s cs = Ret s'"
  using assms
proof (induction cs arbitrary: s)
  case (Cons c cs)
  obtain k where "fed c (take k cls) s (syncOneUpdateToDateClient d c cls s)"
    using sync_uptodate_fed by blast
  with Cons.prems have "\<forall>c' \<in> set cs. wc_revision (client_at (syncOneUpdateToDateClient d c cls s) c') = m"
    using fedD(2) by fastforce
  with Cons.IH Cons.prems show ?case by simp
qed simp

text \<open>After the pending entries are handed on, all of the log is.\<close>

lemma log_inv_core:
  "core s' = (core s)\<lparr>clients := cs\<rparr> \<Longrightarrow> set cs \<subseteq> set (clients s) \<Longrightarrow> distinct cs \<Longrightarrow> log_inv s \<Longrightarrow> log_inv s'"
  by (cases s; cases s') (auto simp: log_inv_def core_def)

lemma flush_inv:
  assumes "flush_pending d s = Ret s'" and "log_inv s" and "delivery_inv s" and "pendingLogs s \<noteq> []"
  shows "log_inv s'" "delivery_inv s'" "uptodate_inv s \<Longrightarrow> uptodate_inv s'"
    "pendingLogs s' = []" "storage_log s' = storage_log s" "request_revision s' = request_revision s"
    "uptodate_inv s \<Longrightarrow> clients s' = clients s"
proof -
  let ?m = "maxSyncedRevision s" and ?L = "length (storage_log s)"
  obtain cs s1 where c: "copyClients [uptodate] s = (cs, s1)" by fastforce
  from assms(1) c obtain s2 where f: "go_foldl (\<lambda>x c. if wc_revision (client_at x c) \<noteq> ?m then Panic
             else Ret (syncOneUpdateToDateClient d c (pendingLogs s) x)) s1 cs = Ret s2"
    and s': "s' = s2\<lparr>maxSyncedRevision := cl_revision (last (pendingLogs s)), pendingLogs := []\<rparr>"
    by (auto simp: flush_pending_def syncUpToDateClients_def go_bind_Ret_iff)
  have li: "numbered (storage_log s)" "?m \<le> ?L" "pendingLogs s = drop ?m (storage_log s)"
    "distinct (clients s)"
    using assms(2) numbered_append by (auto simp: log_inv_def)
  note cp = copyClients_props [OF c li(4)]
  have li1: "log_inv s1" by (rule log_inv_core [OF cp(6,2,3) assms(2)])
  have s1: "storage_log s1 = storage_log s" "maxSyncedRevision s1 = ?m" "pendingLogs s1 = pendingLogs s"
    "request_revision s1 = request_revision s"
    using cp(6) by (cases s; cases s1; simp add: core_def)+
  have inv1: "client_inv ?m s1 c" if "c \<in> set (clients s1)" "\<not> wc_closed (client_at s c)" for c
    using that cp(2,7,8) assms(3) s1
    by (auto simp: delivery_inv_def client_inv_def delivered_def Let_def)
  have "\<forall>c \<in> set cs. client_inv ?m s1 c" using cp(1,5) inv1 by blast
  note fed = feed_clients [OF f cp(4) _ _ _ this]
  from fed li s1 have feed: "core s2 = core s1" by simp
  have feed2: "client_inv ?L s2 c \<and> wc_closed (client_at s2 c) = wc_closed (client_at s1 c) \<and>
       (wc_state (client_at s2 c) = uptodate \<longrightarrow> wc_revision (client_at s2 c) = ?L)" if "c \<in> set cs" for c
    using fed(2) [OF _ _ _ that] li s1 by (simp add: synced_def)
  have feed3: "client_at s2 c = client_at s1 c \<and> (\<forall>L. client_inv L s2 c = client_inv L s1 c)"
    if "c \<notin> set cs" for c
    using fed(3) [OF _ _ _ that] li s1 untouched_client_inv [OF _ feed] by (auto simp: untouched_def)
  have L: "cl_revision (last (pendingLogs s)) = ?L"
    using li assms(4) last_take_numbered [OF li(1), of "?L - ?m" ?m] by simp
  show "pendingLogs s' = []" "storage_log s' = storage_log s" "request_revision s' = request_revision s"
    using core_fields [OF feed] s1 by (auto simp: s')
  show "clients s' = clients s" if "uptodate_inv s"
    using core_fields [OF feed] cp(9) that by (simp add: s' uptodate_inv_def)
  show "log_inv s'"
    using li1 li(2) core_fields [OF feed] s1 L by (simp add: log_inv_def s')
  have "client_inv ?L s2 c" if "c \<in> set (clients s1)" "\<not> wc_closed (client_at s2 c)" for c
    using feed2 [of c] feed3 [of c] inv1 that cp(8) client_inv_mono [OF _ li(2)] by (cases "c \<in> set cs") auto
  then show "delivery_inv s'"
    using core_fields [OF feed] L
    by (auto simp: s' delivery_inv_def client_inv_def delivered_def Let_def)
  show "uptodate_inv s'" if "uptodate_inv s"
  proof -
    from that cp(9) have cl: "clients s1 = clients s" "cs = filter (\<lambda>c. wc_state (client_at s c) = uptodate) (clients s)"
      by (auto simp: uptodate_inv_def)
    show ?thesis
      unfolding uptodate_inv_def
    proof
      fix c assume "c \<in> set (clients s')"
      then have "c \<in> set (clients s)" "c \<in> set (clients s1)"
        using core_fields [OF feed] cl by (auto simp: s')
      with that feed2 [of c] feed3 [of c] cl cp(8) L
      show "\<not> wc_closed (client_at s' c) \<and> (wc_state (client_at s' c) = uptodate \<longrightarrow>
          wc_revision (client_at s' c) = maxSyncedRevision s')"
        by (cases "c \<in> set cs") (auto simp: s' uptodate_inv_def)
    qed
  qed
qed

section \<open>Bringing the other clients up to date\<close>

lemma syncOne_fed:
  assumes "numbered (storage_log s)" and "client_inv M s c"
  shows "\<exists>k. fed c (take k (drop (wc_revision (client_at s c)) (storage_log s))) s
        (syncOne d (length (storage_log s)) s c) \<and>
      (k = 0 \<or> wc_revision (client_at s c) + k \<le> length (storage_log s)) \<and>
      (wc_state (client_at (syncOne d (length (storage_log s)) s c) c) = uptodate \<longrightarrow>
        wc_revision (client_at (syncOne d (length (storage_log s)) s c) c) = length (storage_log s) \<or>
        wc_state (client_at s c) = uptodate)"
proof (cases "wc_revision (client_at s c) < length (storage_log s)")
  case True
  let ?cls = "drop (wc_revision (client_at s c)) (storage_log s)"
  have "\<forall>cl \<in> set ?cls. cl_revision cl \<le> length (storage_log s)"
    using numbered_nth [OF assms(1)] by (auto dest!: in_set_dropD simp: in_set_conv_nth)
  from sync_loop_fed [OF this, of c s d] True show ?thesis
    by (fastforce simp: syncOne_def findNext_numbered [OF assms(1)])
next
  case False
  then have "syncOne d (length (storage_log s)) s c = s"
    by (simp add: syncOne_def findNext_numbered [OF assms(1)])
  then show ?thesis using fed_refl by (intro exI [of _ 0]) auto
qed

lemma sync_clients_fold:
  assumes "distinct cs" and "numbered (storage_log s)" and "\<forall>c \<in> set cs. client_inv M s c"
    and "M \<le> length (storage_log s)" and "\<forall>c \<in> set cs. wc_state (client_at s c) \<noteq> uptodate"
    and "s' = foldl (syncOne d (length (storage_log s))) s cs"
  shows "core s' = core s" "c \<in> set cs \<Longrightarrow> synced s c s'" "c \<notin> set cs \<Longrightarrow> untouched c s s'"
proof -
  have step: "core x' = core s \<and> (\<forall>c'. c' \<noteq> c \<longrightarrow> untouched c' x x') \<and> synced s c x'"
    if x: "c \<in> set cs" "core x = core s" "untouched c s x"
      "Ret (syncOne d (length (storage_log s)) x c) = Ret x'" for x c x'
  proof -
    have log: "storage_log x = storage_log s" using core_fields [OF x(2)] by simp
    have inv: "client_inv M x c" using untouched_client_inv [OF x(3,2)] x(1) assms(3) by simp
    have x': "x' = syncOne d (length (storage_log x)) x c" using x(4) log by simp
    from syncOne_fed [of x M c d] inv log assms(2) obtain k where
      k: "fed c (take k (drop (wc_revision (client_at x c)) (storage_log x))) x x'"
        "k = 0 \<or> wc_revision (client_at x c) + k \<le> length (storage_log x)"
        "wc_state (client_at x' c) = uptodate \<longrightarrow> wc_revision (client_at x' c) = length (storage_log s) \<or>
          wc_state (client_at x c) = uptodate"
      unfolding x' [symmetric] by auto
    have "client_inv (length (storage_log s)) x' c"
    proof (cases "k = 0")
      case True
      with k(1) have "fed c [] x x'" by simp
      with fedD [OF this] inv core_fields [OF fedD(1) [OF this]] assms(4) show ?thesis
        by (auto simp: client_inv_def Let_def)
    next
      case False
      with client_inv_fed [OF k(1) inv refl] k(2) log assms(2) show ?thesis by simp
    qed
    with k(3) fedD(5) [OF k(1)] x(1,3) assms(5) have "synced s c x'"
      by (auto simp: synced_def untouched_def)
    with fedD(1) [OF k(1)] x(2) fed_untouched [OF k(1)] show ?thesis by auto
  qed

  note fold = fold_clients [where Q = "synced s",
      OF trans [OF go_foldl_Ret [of "syncOne d (length (storage_log s))" s cs]
        arg_cong [OF assms(6) [symmetric], of Ret]] assms(1)]
  show "core s' = core s" "c \<in> set cs \<Longrightarrow> synced s c s'" "c \<notin> set cs \<Longrightarrow> untouched c s s'"
    by (rule fold; (assumption | erule (3) step | erule (2) synced_keep))+
qed

lemma syncClients_inv:
  assumes "log_inv s" and "delivery_inv s" and "pendingLogs s = []"
    and "s' = syncClients d (maxSyncedRevision s) s"
  shows "log_inv s'" "delivery_inv s'" "uptodate_inv s \<Longrightarrow> uptodate_inv s'"
    "storage_log s' = storage_log s" "request_revision s' = request_revision s"
    "uptodate_inv s \<Longrightarrow> clients s' = clients s"
proof -
  let ?L = "length (storage_log s)"
  obtain cs s1 where c: "copyClients [stale, blocking] s = (cs, s1)" by fastforce
  have li: "numbered (storage_log s)" "maxSyncedRevision s = ?L" "distinct (clients s)"
    using assms(1,3) numbered_append by (auto simp: log_inv_def)
  note cp = copyClients_props [OF c li(3)]
  have li1: "log_inv s1" by (rule log_inv_core [OF cp(6,2,3) assms(1)])
  have s1: "storage_log s1 = storage_log s" "maxSyncedRevision s1 = ?L" "pendingLogs s1 = []"
    "request_revision s1 = request_revision s"
    using cp(6) li(2) assms(3) by (cases s; cases s1; simp add: core_def)+
  have inv1: "client_inv ?L s1 c" if "c \<in> set (clients s1)" "\<not> wc_closed (client_at s c)" for c
    using that cp(2,7,8) assms(2) s1 li(2)
    by (auto simp: delivery_inv_def client_inv_def delivered_def Let_def)
  have s': "s' = foldl (syncOne d (length (storage_log s1))) s1 cs"
    using assms(4) c li(2) s1(1) by (simp add: syncClients_def)
  have "\<forall>c \<in> set cs. client_inv ?L s1 c" using cp(1,5) inv1 by blast
  moreover have "\<forall>c \<in> set cs. wc_state (client_at s1 c) \<noteq> uptodate" using cp(1,5,8) by fastforce
  ultimately have fold: "core s' = core s1" "\<And>c. c \<in> set cs \<Longrightarrow> synced s1 c s'"
    "\<And>c. c \<notin> set cs \<Longrightarrow> untouched c s1 s'"
    using sync_clients_fold [OF cp(4) _ _ _ _ s'] li s1 by auto
  note cf = core_fields [OF fold(1)]
  show "storage_log s' = storage_log s" "request_revision s' = request_revision s" using cf s1 by simp_all
  show "clients s' = clients s" if "uptodate_inv s" using cf cp(9) that by (simp add: uptodate_inv_def)
  show "log_inv s'" using li1 cf by (simp add: log_inv_def)
  have "client_inv ?L s' c" if "c \<in> set (clients s1)" "\<not> wc_closed (client_at s' c)" for c
    using that fold(2,3) [of c] inv1 cp(8) untouched_client_inv [OF _ fold(1)] s1
    by (cases "c \<in> set cs") (auto simp: synced_def untouched_def)
  then show "delivery_inv s'" using cf s1 by (simp add: delivery_inv_def)
  show "uptodate_inv s'" if "uptodate_inv s"
  proof -
    from that cp(9) have cl: "clients s1 = clients s" by (auto simp: uptodate_inv_def)
    then show ?thesis
      using that fold(2,3) cp(8) cf s1 li(2)
      by (auto simp: uptodate_inv_def synced_def untouched_def) (metis (lifting))+
  qed
qed

section \<open>The steps of a run\<close>

text \<open>No client is below revision zero, so compaction never finds anything to do.\<close>

lemma min_revision_zero: "min_revision h es 0 = 0"
  by (induction es) auto

lemma compactLog_idle: "compactLog s = Ret s"
  by (simp add: compactLog_def min_revision_zero)

definition ipcache_inv :: "ipcache_service \<Rightarrow> bool" where
  "ipcache_inv s \<longleftrightarrow> log_inv s \<and> delivery_inv s"

lemma new_service_inv: "ipcache_inv (NewService uuid)" "uptodate_inv (NewService uuid)"
  by (auto simp: ipcache_inv_def log_inv_def delivery_inv_def uptodate_inv_def NewService_def numbered_def)

text \<open>The informers extend the queue only.\<close>

definition queue_only :: "ipcache_service \<Rightarrow> ipcache_service \<Rightarrow> bool" where
  "queue_only s s' \<longleftrightarrow>
     (\<exists>q. s' = s\<lparr>storage_revision := storage_revision s + length q, logChan := logChan s @ q\<rparr> \<and>
        map cl_revision q = [Suc (storage_revision s)..<Suc (storage_revision s + length q)] \<and>
        (\<forall>cl \<in> set q. valid_change cl))"

lemma queue_only_refl: "queue_only s s"
  unfolding queue_only_def by (rule exI [of _ "[]"]) simp

lemma queue_only_trans: "queue_only s s' \<Longrightarrow> queue_only s' s'' \<Longrightarrow> queue_only s s''"
proof -
  assume "queue_only s s'" "queue_only s' s''"
  then obtain q q' where q: "s' = s\<lparr>storage_revision := storage_revision s + length q, logChan := logChan s @ q\<rparr>"
      "map cl_revision q = [Suc (storage_revision s)..<Suc (storage_revision s + length q)]"
      "\<forall>cl \<in> set q. valid_change cl"
    and q': "s'' = s'\<lparr>storage_revision := storage_revision s' + length q', logChan := logChan s' @ q'\<rparr>"
      "map cl_revision q' = [Suc (storage_revision s')..<Suc (storage_revision s' + length q')]"
      "\<forall>cl \<in> set q'. valid_change cl"
    unfolding queue_only_def by blast
  have "map cl_revision (q @ q') = [Suc (storage_revision s)..<Suc (storage_revision s + length q) + length q']"
    using q q' by (subst upt_add_eq_append) auto
  with q(1,3) q'(1,3) show ?thesis
    unfolding queue_only_def by (intro exI [of _ "q @ q'"]) (auto simp: add.assoc)
qed

lemma queue_only_logChange:
  assumes "op = OpCode_Set \<or> op = OpCode_Del" and "\<forall>e \<in> set entries. ce_Meta e \<noteq> CacheEntry_None"
  shows "queue_only s (logChange op entries s)"
proof -
  have "queue_only s (foldl (log_one op) s entries)"
    using assms(2)
  proof (induction entries arbitrary: s)
    case (Cons e entries)
    have "queue_only s (log_one op s e)"
      unfolding queue_only_def using assms(1) Cons.prems
      by (intro exI [of _ "[\<lparr>cl_revision = storage_revision s + 1, cl_opcode = op, cl_entry = e\<rparr>]"])
        (auto simp: Let_def valid_change_def)
    with Cons show ?case by (auto intro: queue_only_trans simp del: log_one.simps)
  qed (simp add: queue_only_refl)
  then show ?thesis by (simp add: logChange_def queue_only_refl)
qed

lemma queue_only_entries:
  "queue_only s (logChange OpCode_Set (createCacheEntries4Pod p) s)"
  "queue_only s (logChange OpCode_Del (createCacheEntries4Pod p) s)"
  "queue_only s (logChange OpCode_Set (createCacheEntries4Node n) s)"
  "queue_only s (logChange OpCode_Del (createCacheEntries4Node n) s)"
  by (auto simp: createCacheEntries4Pod_def createCacheEntries4Node_def intro!: queue_only_logChange)

lemma queue_only_informers:
  "queue_only s (onAddPod p s)" "queue_only s (onDeletePod x s)" "queue_only s (onUpdatePod p q s)"
  "queue_only s (onAddNode n s)" "queue_only s (onDeleteNode y s)" "queue_only s (onUpdateNode n m s)"
  by (auto simp: onAddPod_def onDeletePod_def onUpdatePod_def onAddNode_def onDeleteNode_def
      onUpdateNode_def Let_def queue_only_entries queue_only_refl
      intro: queue_only_trans [OF queue_only_entries(2,1)] queue_only_trans [OF queue_only_entries(4,3)]
      split: option.split)

lemma queue_only_inv:
  assumes "queue_only s s'"
  shows "ipcache_inv s \<Longrightarrow> ipcache_inv s'" "uptodate_inv s \<Longrightarrow> uptodate_inv s'"
proof -
  obtain q where q: "s' = s\<lparr>storage_revision := storage_revision s + length q, logChan := logChan s @ q\<rparr>"
    "map cl_revision q = [Suc (storage_revision s)..<Suc (storage_revision s + length q)]"
    "\<forall>cl \<in> set q. valid_change cl"
    using assms unfolding queue_only_def by blast
  show "uptodate_inv s \<Longrightarrow> uptodate_inv s'" by (simp add: q(1) uptodate_inv_def)
  assume inv: "ipcache_inv s"
  have "numbered ((storage_log s @ logChan s) @ q)"
  proof -
    have "[1..<Suc (storage_revision s) + length q] =
        [1..<Suc (storage_revision s)] @ [Suc (storage_revision s)..<Suc (storage_revision s) + length q]"
      by (rule upt_add_eq_append) simp
    with inv q(2) show ?thesis
      by (simp add: ipcache_inv_def log_inv_def numbered_def add.assoc del: upt_Suc)
  qed
  with inv q(3) show "ipcache_inv s'"
    by (auto simp: q(1) ipcache_inv_def log_inv_def delivery_inv_def client_inv_def delivered_def Let_def)
qed

lemma watch_inv:
  assumes "WatchCache p r s = Inr (c, s')" and "ipcache_inv s"
  shows "ipcache_inv s'" "uptodate_inv s \<Longrightarrow> uptodate_inv s'"
proof -
  from assms have s': "c = next_client s" "clients s' = clients s @ [c]"
    "client_at s' = (client_at s)(c := \<lparr>wc_revision = r, wc_closed = False, wc_state = stale,
                              wc_ch = [], wc_ch_closed = False\<rparr>)"
    "request_revision s' = (request_revision s)(c := r)" "responses s' = (responses s)(c := [])"
    "next_client s' = Suc c" "storage_log s' = storage_log s" "logChan s' = logChan s"
    "storage_revision s' = storage_revision s" "maxSyncedRevision s' = maxSyncedRevision s"
    "pendingLogs s' = pendingLogs s" "snapshot_revision s' = snapshot_revision s"
    "snapshot_entries s' = snapshot_entries s"
    by (auto simp: WatchCache_def Let_def split: if_splits)
  have fresh: "c' \<noteq> c" if "c' \<in> set (clients s)" for c'
    using that assms(2) s'(1) by (auto simp: ipcache_inv_def log_inv_def)
  show "uptodate_inv s \<Longrightarrow> uptodate_inv s'" using fresh by (auto simp: uptodate_inv_def s')
  have "log_inv s'" using assms(2) fresh by (auto simp: ipcache_inv_def log_inv_def s' less_Suc_eq)
  moreover have "delivery_inv s'"
    using assms(2) fresh
    by (auto simp: ipcache_inv_def delivery_inv_def client_inv_def delivered_def Let_def s')
  ultimately show "ipcache_inv s'" by (simp add: ipcache_inv_def)
qed

lemma fed_nothing_inv:
  assumes "fed c [] s s'" and "ipcache_inv s"
  shows "ipcache_inv s'"
proof -
  note cf = core_fields [OF fedD(1) [OF assms(1)]]
  have "client_inv M s' c' = client_inv M s c'" "wc_closed (client_at s' c') = wc_closed (client_at s c')"
    for c' M
    using fedD [OF assms(1)] cf
    by (cases "c' = c"; simp add: client_inv_def delivered_def Let_def)+
  with assms(2) cf show ?thesis by (simp add: ipcache_inv_def log_inv_def delivery_inv_def)
qed

lemma close_inv:
  assumes "ipcache_inv s"
  shows "ipcache_inv (watch_done c s)" "ipcache_inv (watch_send_fails c s)"
  using assms
  by (auto simp: ipcache_inv_def log_inv_def delivery_inv_def client_inv_def delivered_def Let_def
      watch_done_def watch_send_fails_def split: list.split)

lemma syncControl_log_inv:
  assumes "syncControl_log d s = Ret s'" and "ipcache_inv s"
  shows "ipcache_inv s'" "uptodate_inv s \<Longrightarrow> uptodate_inv s'"
proof -
  have "ipcache_inv s' \<and> (uptodate_inv s \<longrightarrow> uptodate_inv s')"
  proof (cases "logChan s")
    case Nil
    with assms show ?thesis by (simp add: syncControl_log_def)
  next
    case (Cons cl rest)
    define s1 where "s1 = s\<lparr>logChan := rest, storage_log := storage_log s @ [cl],
        pendingLogs := pendingLogs s @ [cl]\<rparr>"
    have "ipcache_inv s1"
      using assms(2) Cons
      by (auto simp: s1_def ipcache_inv_def log_inv_def delivery_inv_def client_inv_def delivered_def Let_def)
    moreover have "uptodate_inv s \<longrightarrow> uptodate_inv s1" by (simp add: s1_def uptodate_inv_def)
    moreover have "s' = s1 \<or> flush_pending d s1 = Ret s'"
      using assms(1) Cons
      by (auto simp: syncControl_log_def compactLog_idle s1_def Let_def split: if_splits)
    moreover have "pendingLogs s1 \<noteq> []" by (simp add: s1_def)
    ultimately show ?thesis using flush_inv [of d s1 s'] by (auto simp: ipcache_inv_def)
  qed
  then show "ipcache_inv s'" "uptodate_inv s \<Longrightarrow> uptodate_inv s'" by auto
qed

lemma syncControl_tick_inv:
  assumes "syncControl_tick d s = Ret s'" and "ipcache_inv s"
  shows "ipcache_inv s'" "uptodate_inv s \<Longrightarrow> uptodate_inv s'"
proof -
  obtain s1 where s1: "s' = syncClients d (maxSyncedRevision s1) s1"
    "if pendingLogs s = [] then s1 = s else flush_pending d s = Ret s1"
    using assms(1) by (auto simp: syncControl_tick_def go_bind_Ret_iff split: if_splits)
  have "log_inv s1" "delivery_inv s1" "pendingLogs s1 = []" "uptodate_inv s \<Longrightarrow> uptodate_inv s1"
    using s1(2) flush_inv [of d s s1] assms(2) by (auto simp: ipcache_inv_def split: if_splits)
  with syncClients_inv [OF this(1-3) s1(1)]
  show "ipcache_inv s'" "uptodate_inv s \<Longrightarrow> uptodate_inv s'" by (auto simp: ipcache_inv_def)
qed

lemmas informers_inv = queue_only_informers [THEN queue_only_inv(1)]

lemmas informers_uptodate = queue_only_informers [THEN queue_only_inv(2)]

lemma ipcache_step_inv: "ipcache_step e s = Ret s' \<Longrightarrow> ipcache_inv s \<Longrightarrow> ipcache_inv s'"
  by (cases e)
    (auto simp: informers_inv fed_nothing_inv [OF fed_watch_send(1)] close_inv
      dest: syncControl_log_inv(1) syncControl_tick_inv(1) watch_inv(1) split: sum.splits prod.splits)

lemma ipcache_run_inv: "ipcache_run es s = Ret s' \<Longrightarrow> ipcache_inv s \<Longrightarrow> ipcache_inv s'"
proof (induction es arbitrary: s)
  case (Cons e es)
  then obtain s1 where "ipcache_step e s = Ret s1" "ipcache_run es s1 = Ret s'"
    by (auto simp: go_bind_Ret_iff simp del: ipcache_step.simps)
  with Cons.IH [of s1] ipcache_step_inv [of e s s1] Cons.prems(2) show ?case by simp
qed simp

text \<open>Without disconnections the pending entries are handed on without a panic.\<close>

lemma flush_returns:
  assumes "log_inv s" and "uptodate_inv s"
  shows "\<exists>s'. flush_pending d s = Ret s'"
proof -
  obtain cs s1 where c: "copyClients [uptodate] s = (cs, s1)" by fastforce
  note cp = copyClients_props [OF c]
  have "distinct (clients s)" using assms(1) by (simp add: log_inv_def)
  note cp = cp [OF this]
  have "\<forall>c \<in> set cs. wc_revision (client_at s1 c) = maxSyncedRevision s"
    using cp(1,2,5,8) assms(2) unfolding uptodate_inv_def by (metis in_mono list.set_intros(1) list.simps(3)
        empty_iff empty_set insert_iff list.simps(15))
  from feed_returns [OF cp(4) this, of d "pendingLogs s"] obtain s2 where
    "go_foldl (\<lambda>x c. if wc_revision (client_at x c) \<noteq> maxSyncedRevision s then Panic
       else Ret (syncOneUpdateToDateClient d c (pendingLogs s) x)) s1 cs = Ret s2" by blast
  then show ?thesis by (simp add: flush_pending_def syncUpToDateClients_def c)
qed

fun disconnects :: "ipcache_event \<Rightarrow> bool" where
  "disconnects (SendFails c) \<longleftrightarrow> True"
| "disconnects (Done c) \<longleftrightarrow> True"
| "disconnects _ \<longleftrightarrow> False"

lemma ipcache_step_uptodate:
  "ipcache_step e s = Ret s' \<Longrightarrow> \<not> disconnects e \<Longrightarrow> ipcache_inv s \<Longrightarrow> uptodate_inv s \<Longrightarrow> uptodate_inv s'"
proof (cases e)
  case (Send c)
  assume "ipcache_step e s = Ret s'" "uptodate_inv s"
  with Send show ?thesis
    by (auto simp: watch_send_def uptodate_inv_def split: list.splits if_splits)
qed (auto simp: informers_uptodate dest: syncControl_log_inv(2) syncControl_tick_inv(2) watch_inv(2)
    split: sum.splits prod.splits)

lemma ipcache_step_returns:
  assumes "\<not> disconnects e" and "ipcache_inv s" and "uptodate_inv s"
  shows "\<exists>s'. ipcache_step e s = Ret s'"
proof (cases e)
  case (TakeLog d)
  show ?thesis
  proof (cases "logChan s")
    case (Cons cl rest)
    define s1 where "s1 = s\<lparr>logChan := rest, storage_log := storage_log s @ [cl],
        pendingLogs := pendingLogs s @ [cl]\<rparr>"
    have "log_inv s1" "uptodate_inv s1"
      using assms(2,3) Cons by (auto simp: s1_def ipcache_inv_def log_inv_def uptodate_inv_def)
    from flush_returns [OF this, of d] TakeLog Cons show ?thesis
      by (auto simp: syncControl_log_def compactLog_idle s1_def Let_def)
  qed (simp add: TakeLog syncControl_log_def)
next
  case (Tick d)
  then show ?thesis
    using flush_returns [of s d] assms(2,3) by (auto simp: syncControl_tick_def ipcache_inv_def)
qed (auto split: sum.split prod.split)

lemma ipcache_run_returns:
  assumes "\<forall>e \<in> set es. \<not> disconnects e" and "ipcache_inv s" and "uptodate_inv s"
  shows "\<exists>s'. ipcache_run es s = Ret s' \<and> ipcache_inv s' \<and> uptodate_inv s'"
  using assms
proof (induction es arbitrary: s)
  case (Cons e es)
  from ipcache_step_returns [of e s] Cons.prems obtain s1 where s1: "ipcache_step e s = Ret s1" by auto
  with Cons ipcache_step_inv ipcache_step_uptodate have "ipcache_inv s1" "uptodate_inv s1" by auto
  with Cons s1 show ?case by simp
qed simp

section \<open>A round of the ticker\<close>

lemma offer_room:
  assumes "length (wc_ch (client_at s c)) < client_channel"
  shows "snd (offer d c cl s)"
    "length (wc_ch (client_at (fst (offer d c cl s)) c)) \<le> Suc (length (wc_ch (client_at s c)))"
proof -
  have "length (wc_ch (client_at (watch_take n c s) c)) \<le> length (wc_ch (client_at s c))" for n
  proof (induction n arbitrary: s)
    case (Suc n)
    have "length (wc_ch (client_at (watch_send c s) c)) \<le> length (wc_ch (client_at s c))"
      by (simp add: watch_send_def split: list.split)
    with Suc.IH [of "watch_send c s"] show ?case by simp
  qed simp
  from le_less_trans [OF this assms] this show "snd (offer d c cl s)"
    "length (wc_ch (client_at (fst (offer d c cl s)) c)) \<le> Suc (length (wc_ch (client_at s c)))"
    by (simp_all add: offer_def Let_def)
qed

lemma sync_uptodate_room:
  "length (wc_ch (client_at s c)) + length cls \<le> client_channel \<Longrightarrow>
     wc_state (client_at (syncOneUpdateToDateClient d c cls s) c) = uptodate"
proof (induction d c cls s rule: syncOneUpdateToDateClient.induct)
  case (2 d c cl cls s)
  obtain s' ok where o: "offer d c cl s = (s', ok)" by fastforce
  with offer_room [of s c d cl] "2.prems" have "ok"
    "length (wc_ch (client_at s' c)) + length cls \<le> client_channel" by auto
  with "2.IH" [OF o [symmetric]] o show ?case by simp
qed simp

lemma sync_loop_room:
  assumes "length (wc_ch (client_at s c)) + length cls \<le> client_channel"
    and "cls \<noteq> []" and "cl_revision (last cls) = upTo" and "\<forall>x \<in> set (butlast cls). cl_revision x < upTo"
  shows "wc_revision (client_at (syncOne_loop d c upTo cls s) c) = upTo"
  using assms
proof (induction d c upTo cls s rule: syncOne_loop.induct)
  case (2 d c upTo cl cls s)
  obtain s' where o: "offer d c cl s = (s', True)"
    "length (wc_ch (client_at s' c)) + length cls \<le> client_channel"
    using offer_room [of s c d cl] "2.prems"(1) by (cases "offer d c cl s") auto
  show ?case
  proof (cases "cls = []")
    case True
    with fedD(6) [OF fed_offer(1) [of c d cl s]] o(1) "2.prems"(3) show ?thesis by simp
  next
    case False
    with "2.prems" o(2) have "wc_revision (client_at (syncOne_loop d c upTo cls s') c) = upTo"
      by (intro "2.IH" [OF o(1) [symmetric]]) auto
    with False "2.prems"(4) o(1) show ?thesis by simp
  qed
qed simp

lemma numbered_drop:
  assumes "numbered l" and "m < length l"
  shows "cl_revision (last (drop m l)) = length l"
    "x \<in> set (butlast (drop m l)) \<Longrightarrow> cl_revision x < length l"
proof -
  show "cl_revision (last (drop m l)) = length l"
    using last_take_numbered [OF assms(1), of "length l - m" m] assms(2) by simp
  assume "x \<in> set (butlast (drop m l))"
  then obtain i where i: "i < length l - m - 1" "x = butlast (drop m l) ! i"
    by (auto simp: in_set_conv_nth)
  then have "x = l ! (m + i)" by (simp add: nth_butlast)
  with numbered_nth [OF assms(1), of "m + i"] i(1) show "cl_revision x < length l" by simp
qed

text \<open>The entries of the log that a client has not been given.\<close>

definition missed :: "ipcache_service \<Rightarrow> nat \<Rightarrow> changeLog list" where
  "missed s c = drop (wc_revision (client_at s c)) (storage_log s)"

lemma syncOne_room:
  assumes "numbered (storage_log s)"
    and "length (wc_ch (client_at s c)) + length (missed s c) \<le> client_channel"
  shows "length (storage_log s) \<le> wc_revision (client_at (syncOne d (length (storage_log s)) s c) c)"
proof (cases "wc_revision (client_at s c) < length (storage_log s)")
  case True
  have "wc_revision (client_at (syncOne_loop d c (length (storage_log s))
      (drop (wc_revision (client_at s c)) (storage_log s)) s) c) = length (storage_log s)"
  proof (rule sync_loop_room)
    show "length (wc_ch (client_at s c)) + length (drop (wc_revision (client_at s c)) (storage_log s)) \<le>
        client_channel" using assms(2) by (simp add: missed_def)
    show "drop (wc_revision (client_at s c)) (storage_log s) \<noteq> []" using True by simp
    show "cl_revision (last (drop (wc_revision (client_at s c)) (storage_log s))) = length (storage_log s)"
      by (rule numbered_drop(1) [OF assms(1) True])
    show "\<forall>x \<in> set (butlast (drop (wc_revision (client_at s c)) (storage_log s))).
        cl_revision x < length (storage_log s)"
      using numbered_drop(2) [OF assms(1) True] by blast
  qed
  moreover have "syncOne d (length (storage_log s)) s c = syncOne_loop d c (length (storage_log s))
      (drop (wc_revision (client_at s c)) (storage_log s)) s"
    using True unfolding syncOne_def findNext_numbered [OF assms(1)] by simp
  ultimately show ?thesis by simp
next
  case False
  then have "syncOne d (length (storage_log s)) s c = s"
    unfolding syncOne_def findNext_numbered [OF assms(1)] by simp
  with False show ?thesis by simp
qed

lemma flush_room:
  assumes "flush_pending d s = Ret s'" and "log_inv s" and "uptodate_inv s" and "c \<in> set (clients s)"
  shows "length (wc_ch (client_at s c)) + length (pendingLogs s) \<le> client_channel \<Longrightarrow>
      wc_state (client_at s c) = uptodate \<Longrightarrow> wc_state (client_at s' c) = uptodate"
    "wc_state (client_at s c) \<noteq> uptodate \<Longrightarrow> untouched c s s'"
proof -
  let ?room = "length (wc_ch (client_at s c)) + length (pendingLogs s) \<le> client_channel"
  let ?Q = "\<lambda>c' x. c' = c \<longrightarrow> ?room \<longrightarrow> wc_state (client_at x c') = uptodate"
  obtain cs s1 where k: "copyClients [uptodate] s = (cs, s1)" by fastforce
  have d: "distinct (clients s)" using assms(2) by (simp add: log_inv_def)
  note cp = copyClients_props [OF k d]
  have cl: "clients s1 = clients s" "cs = filter (\<lambda>c. wc_state (client_at s c) = uptodate) (clients s)"
    using cp(9) assms(3) by (auto simp: uptodate_inv_def)
  have s1: "client_at s1 c = client_at s c" "responses s1 = responses s" using cp(7,8) cl assms(4) by auto
  from assms(1) k obtain s2 where f: "go_foldl (\<lambda>x c. if wc_revision (client_at x c) \<noteq> maxSyncedRevision s
         then Panic else Ret (syncOneUpdateToDateClient d c (pendingLogs s) x)) s1 cs = Ret s2"
    and s': "client_at s' = client_at s2" "responses s' = responses s2"
    by (auto simp: flush_pending_def syncUpToDateClients_def go_bind_Ret_iff)
  have step: "core x' = core s1 \<and> (\<forall>c'. c' \<noteq> e \<longrightarrow> untouched c' x x') \<and> ?Q e x'"
    if x: "e \<in> set cs" "core x = core s1" "untouched e s1 x"
      "(if wc_revision (client_at x e) \<noteq> maxSyncedRevision s then Panic
        else Ret (syncOneUpdateToDateClient d e (pendingLogs s) x)) = Ret x'" for x e x'
  proof -
    from x(4) have x': "x' = syncOneUpdateToDateClient d e (pendingLogs s) x" by (auto split: if_splits)
    obtain k where "fed e (take k (pendingLogs s)) x x'" using sync_uptodate_fed x' by blast
    moreover have "?Q e x'"
      using sync_uptodate_room [of x c "pendingLogs s" d] x(3) s1 x'
      by (auto simp: untouched_def)
    ultimately show ?thesis using fedD(1) fed_untouched x(2) by metis
  qed
  have keep: "?Q e x'" if "?Q e x" "core x' = core x" "untouched e x x'" for e x x'
    using that by (auto simp: untouched_def)
  note fold = fold_clients [where Q = ?Q, OF f cp(4)]
  have Q: "c \<in> set cs \<Longrightarrow> ?Q c s2" and un: "c \<notin> set cs \<Longrightarrow> untouched c s1 s2"
    by (rule fold; (assumption | erule (3) step | erule (2) keep))+
  show "wc_state (client_at s' c) = uptodate" if ?room "wc_state (client_at s c) = uptodate"
    using Q that cl(2) assms(4) s' by auto
  show "untouched c s s'" if "wc_state (client_at s c) \<noteq> uptodate"
    using un that cl(2) s' s1 by (auto simp: untouched_def)
qed

lemma syncClients_room:
  assumes "s' = syncClients d (maxSyncedRevision s) s" and "log_inv s" and "uptodate_inv s"
    and "delivery_inv s" and "pendingLogs s = []" and "c \<in> set (clients s)"
    and "length (wc_ch (client_at s c)) + length (missed s c) \<le> client_channel \<or>
      wc_state (client_at s c) = uptodate"
  shows "length (storage_log s) \<le> wc_revision (client_at s' c)"
proof -
  let ?L = "length (storage_log s)" and ?Q = "\<lambda>c' x. c' = c \<longrightarrow> length (storage_log s) \<le> wc_revision (client_at x c')"
  obtain cs s1 where k: "copyClients [stale, blocking] s = (cs, s1)" by fastforce
  have li: "numbered (storage_log s)" "maxSyncedRevision s = ?L" "distinct (clients s)"
    using assms(2,5) numbered_append by (auto simp: log_inv_def)
  note cp = copyClients_props [OF k li(3)]
  have cl: "clients s1 = clients s"
    "cs = filter (\<lambda>c. wc_state (client_at s c) = stale \<or> wc_state (client_at s c) = blocking) (clients s)"
    using cp(9) assms(3) by (auto simp: uptodate_inv_def)
  have s1: "client_at s1 c = client_at s c" "storage_log s1 = storage_log s" "request_revision s1 = request_revision s"
    using cp(6,8) cl assms(6) by (auto, (cases s; cases s1; simp add: core_def)+)
  have s': "Ret (foldl (syncOne d ?L) s1 cs) = Ret s'"
    using assms(1) k li(2) by (simp add: syncClients_def)
  show ?thesis
  proof (cases "wc_state (client_at s c) = uptodate")
    case True
    then have "c \<notin> set cs" by (simp add: cl)
    have inv: "\<forall>e \<in> set cs. client_inv ?L s1 e"
      using assms(3,4) cp(1,7,8) cl s1 li(2)
      by (auto simp: delivery_inv_def uptodate_inv_def client_inv_def delivered_def Let_def)
    have "\<forall>e \<in> set cs. wc_state (client_at s1 e) \<noteq> uptodate" using cp(1,8) cl by auto
    with sync_clients_fold(3) [OF cp(4) _ inv _ this _ \<open>c \<notin> set cs\<close>, of "foldl (syncOne d ?L) s1 cs" d] s' s1 li(1)
    have "client_at s' c = client_at s c" by (simp add: untouched_def)
    with True assms(3,6) li(2) show ?thesis by (simp add: uptodate_inv_def)
  next
    case False
    then have c: "c \<in> set cs" using assms(6) cl(2) by (cases "wc_state (client_at s c)") auto
    have step: "core x' = core s1 \<and> (\<forall>c'. c' \<noteq> e \<longrightarrow> untouched c' x x') \<and> ?Q e x'"
      if x: "e \<in> set cs" "core x = core s1" "untouched e s1 x" "Ret (syncOne d ?L x e) = Ret x'" for x e x'
    proof -
      have log: "storage_log x = storage_log s" using core_fields [OF x(2)] s1 by simp
      have "client_inv ?L s1 e"
        using assms(3,4) cp(1,7,8) cl s1 li(2) x(1)
        by (auto simp: delivery_inv_def uptodate_inv_def client_inv_def delivered_def Let_def)
      then have "client_inv ?L x e" using untouched_client_inv [OF x(3,2)] by simp
      from syncOne_fed [OF _ this, of d] log li(1) x(4) obtain k where
        "fed e (take k (drop (wc_revision (client_at x e)) (storage_log x))) x x'" by auto
      moreover have "?Q e x'"
        using syncOne_room [of x c d] assms(7) False x(3,4) log li(1) s1 by (auto simp: untouched_def missed_def)
      ultimately show ?thesis using fedD(1) fed_untouched x(2) by metis
    qed
    have keep: "?Q e x'" if "?Q e x" "core x' = core x" "untouched e x x'" for e x x'
      using that by (auto simp: untouched_def)
    have "?Q c s'"
      by (rule fold_clients(2) [where Q = ?Q, OF trans [OF go_foldl_Ret s'] cp(4) _ _ c])
        (erule (3) step, erule (2) keep)
    then show ?thesis by simp
  qed
qed

lemma tick_delivers:
  assumes "ipcache_inv s" and "uptodate_inv s" and "c \<in> set (clients s)"
    and "length (wc_ch (client_at s c)) + length (missed s c) \<le> client_channel"
  shows "\<exists>s'. syncControl_tick d s = Ret s' \<and> delivered s' c = drop (request_revision s c) (storage_log s)"
proof -
  obtain s' where s': "syncControl_tick d s = Ret s'"
    using ipcache_step_returns [of "Tick d" s] assms(1,2) by auto
  then obtain s1 where s1: "s' = syncClients d (maxSyncedRevision s1) s1"
    "if pendingLogs s = [] then s1 = s else flush_pending d s = Ret s1"
    by (auto simp: syncControl_tick_def go_bind_Ret_iff split: if_splits)
  have inv: "log_inv s" "delivery_inv s" using assms(1) by (auto simp: ipcache_inv_def)
  have 1: "log_inv s1" "delivery_inv s1" "uptodate_inv s1" "pendingLogs s1 = []" "storage_log s1 = storage_log s"
    using s1(2) flush_inv [of d s s1] inv assms(2) by (auto split: if_splits)
  have "wc_state (client_at s c) = uptodate \<Longrightarrow> pendingLogs s = missed s c"
    using inv(1) assms(2,3) by (simp add: log_inv_def uptodate_inv_def missed_def)
  with flush_room [of d s s1 c] s1(2) inv assms(2-4)
  have "length (wc_ch (client_at s1 c)) + length (missed s1 c) \<le> client_channel \<or>
      wc_state (client_at s1 c) = uptodate"
    using 1(5) by (cases "pendingLogs s = []"; cases "wc_state (client_at s c) = uptodate")
      (auto simp: untouched_def missed_def)
  moreover have "clients s1 = clients s" "request_revision s1 = request_revision s"
    using s1(2) flush_inv [of d s s1] inv assms(2) by (auto split: if_splits)
  ultimately have "length (storage_log s) \<le> wc_revision (client_at s' c)"
    using syncClients_room [OF s1(1) 1(1,3,2,4)] 1(5) assms(3) by simp
  moreover note 2 = syncClients_inv [OF 1(1,2,4) s1(1)]
  have "client_inv (maxSyncedRevision s') s' c"
    using 2(2,3,6) 1(3) \<open>clients s1 = clients s\<close> assms(3) by (simp add: delivery_inv_def uptodate_inv_def)
  ultimately have "delivered s' c = drop (request_revision s c) (storage_log s)"
    using 2(4,5) 1(5) \<open>request_revision s1 = request_revision s\<close>
    by (simp add: client_inv_def Let_def)
  with s' show ?thesis by blast
qed

section \<open>Guarantees\<close>

text \<open>
  C3: whatever the informers, the connections and the goroutines do, as long as the
  service runs every open client gets exactly the log entries after the revision it asked for, up to the
  revision the service has noted for it, in the order of the log, without a gap or a repetition: what was
  sent on its connection followed by what waits in its channel.
\<close>

theorem ipcache_delivery:
  assumes "ipcache_run es (NewService uuid) = Ret s" and "c \<in> set (clients s)"
    and "\<not> wc_closed (client_at s c)"
  shows "responses s c @ wc_ch (client_at s c) =
    take (wc_revision (client_at s c) - request_revision s c)
      (drop (request_revision s c) (storage_log s)) \<and>
    map cl_revision (storage_log s) = [1..<Suc (length (storage_log s))]"
proof -
  have inv: "log_inv s" "delivery_inv s"
    using ipcache_run_inv [OF assms(1) new_service_inv(1)] by (auto simp: ipcache_inv_def)
  then have "numbered (storage_log s)" using numbered_append by (auto simp: log_inv_def)
  with inv(2) assms(2,3) show ?thesis
    by (simp add: delivery_inv_def client_inv_def delivered_def numbered_def Let_def del: upt_Suc)
qed

definition sample_pod :: "string \<Rightarrow> pod" where
  "sample_pod ip = \<lparr>pod_Namespace = ''default'', pod_Name = ''web'', pod_ResourceVersion = ''1'',
     pod_HostNetwork = False, pod_PodIPs = Some [ip], pod_PodIP = ip\<rparr>"

lemmas ipcache_eval = NewService_def WatchCache_def onAddPod_def createCacheEntries4Pod_def allPodIPs_def
  sample_pod_def logChange_def syncControl_log_def syncControl_tick_def CompactThreshold_def
  MaxSyncBatchSize_def client_channel_def flush_pending_def syncUpToDateClients_def copyClients_def
  copy_walk_Cons syncClients_def syncOne_def findNext_def findNext_loop.simps offer_def Let_def
  watch_send_def watch_done_def

theorem ipcache_delivery_witness:
  "\<exists>s. ipcache_run [AddPod (sample_pod ''10.0.0.1''), TakeLog (\<lambda>_ _. 0), Watch ''u'' 0, Tick (\<lambda>_ _. 0), Send 0]
      (NewService ''u'') = Ret s \<and> 0 \<in> set (clients s) \<and> \<not> wc_closed (client_at s 0) \<and>
    responses s 0 @ wc_ch (client_at s 0) = storage_log s \<and> length (storage_log s) = 1"
proof -
  obtain s where s: "ipcache_run [AddPod (sample_pod ''10.0.0.1''), TakeLog (\<lambda>_ _. 0), Watch ''u'' 0,
      Tick (\<lambda>_ _. 0), Send 0] (NewService ''u'') = Ret s" "clients s = [0]" "\<not> wc_closed (client_at s 0)"
    "wc_revision (client_at s 0) = 1" "request_revision s 0 = 0" "length (storage_log s) = 1"
    by (simp add: ipcache_eval)
  from ipcache_delivery [OF s(1), of 0] s show ?thesis by simp
qed

text \<open>
  C6: while no client disconnects the service never panics, and a client marked up to
  date is at the last revision that was handed on.
\<close>

theorem ipcache_no_panic:
  assumes "\<forall>e \<in> set es. \<not> disconnects e"
  shows "\<exists>s. ipcache_run es (NewService uuid) = Ret s \<and>
    (\<forall>c \<in> set (clients s). wc_state (client_at s c) = uptodate \<longrightarrow>
       wc_revision (client_at s c) = maxSyncedRevision s)"
  using ipcache_run_returns [OF assms new_service_inv [of uuid]] by (auto simp: uptodate_inv_def)

theorem ipcache_no_panic_witness:
  "(\<exists>s. ipcache_run [Watch ''u'' 0, AddPod (sample_pod ''10.0.0.1''), TakeLog (\<lambda>_ _. 0)] (NewService ''u'') = Ret s)"
  using ipcache_no_panic [of "[Watch ''u'' 0, AddPod (sample_pod ''10.0.0.1''), TakeLog (\<lambda>_ _. 0)]" "''u''"]
  by auto

text \<open>
  A client that disconnects. The walk of the next batch stops there, and the clients behind it in the list
  are neither handed the batch nor marked as behind.
\<close>

lemma copy_walk_closed:
  assumes "\<forall>e \<in> set pre. \<not> wc_closed (h e)" and "wc_closed (h c)"
  shows "copy_walk h flt (pre @ c # post) =
    (filter (\<lambda>e. flt = [] \<or> wc_state (h e) \<in> set flt) pre, Some c, pre @ post)"
  using assms by (induction pre) (auto simp: copy_walk_Cons)

lemma feed_frame:
  assumes "go_foldl (\<lambda>s c. if wc_revision (client_at s c) \<noteq> m then Panic
             else Ret (syncOneUpdateToDateClient d c cls s)) s cs = Ret s'" and "distinct cs"
  shows "core s' = core s" "e \<notin> set cs \<Longrightarrow> untouched e s s'"
    "wc_closed (client_at s' e) = wc_closed (client_at s e)"
proof -
  let ?Q = "\<lambda>e x. wc_closed (client_at x e) = wc_closed (client_at s e)"
  have step: "core x' = core s \<and> (\<forall>c'. c' \<noteq> e \<longrightarrow> untouched c' x x') \<and> ?Q e x'"
    if x: "e \<in> set cs" "core x = core s" "untouched e s x"
      "(if wc_revision (client_at x e) \<noteq> m then Panic
        else Ret (syncOneUpdateToDateClient d e cls x)) = Ret x'" for x e x'
  proof -
    from x(4) have "x' = syncOneUpdateToDateClient d e cls x" by (auto split: if_splits)
    then obtain k where "fed e (take k cls) x x'" using sync_uptodate_fed by blast
    then show ?thesis using fedD(1,5) fed_untouched x(2,3) by (metis untouched_def)
  qed
  have keep: "?Q e x'" if "?Q e x" "core x' = core x" "untouched e x x'" for e x x'
    using that by (simp add: untouched_def)
  note fold = fold_clients [where Q = ?Q, OF assms]
  show "core s' = core s"
    by (rule fold; (assumption | erule (3) step | erule (2) keep))
  show un: "untouched e s s'" if "e \<notin> set cs"
    by (rule fold(3)) (erule (3) step, erule (2) keep, rule that)
  have "?Q e s'" if "e \<in> set cs"
    by (rule fold(2)) (erule (3) step, erule (2) keep, rule that)
  with un show "wc_closed (client_at s' e) = wc_closed (client_at s e)"
    by (cases "e \<in> set cs") (auto simp: untouched_def)
qed

lemma feed_panics:
  assumes "x \<in> set cs" and "distinct cs" and "wc_revision (client_at s x) \<noteq> m"
  shows "go_foldl (\<lambda>s c. if wc_revision (client_at s c) \<noteq> m then Panic
             else Ret (syncOneUpdateToDateClient d c cls s)) s cs = Panic"
  using assms
proof (induction cs arbitrary: s)
  case (Cons c cs)
  show ?case
  proof (cases "x = c")
    case False
    obtain k where "fed c (take k cls) s (syncOneUpdateToDateClient d c cls s)"
      using sync_uptodate_fed by blast
    then have "client_at (syncOneUpdateToDateClient d c cls s) x = client_at s x"
      using fedD(2) False by blast
    then show ?thesis using Cons False by simp
  qed (use Cons.prems in simp)
qed simp

text \<open>The batch that is handed on while the client \<open>c\<close> is closed.\<close>

lemma flush_skips:
  assumes inv: "log_inv s" and up: "\<forall>e \<in> set pre. \<not> wc_closed (client_at s e) \<and>
      (wc_state (client_at s e) = uptodate \<longrightarrow> wc_revision (client_at s e) = maxSyncedRevision s)"
    and closed: "wc_closed (client_at s c)" and cs: "clients s = pre @ c # post"
    and "\<forall>e \<in> set post. \<not> wc_closed (client_at s e)"
  shows "\<exists>s'. flush_pending d s = Ret s' \<and> clients s' = pre @ post \<and>
    (\<forall>e \<in> set (pre @ post). \<not> wc_closed (client_at s' e)) \<and>
    (\<forall>e \<in> set post. client_at s' e = client_at s e) \<and> logChan s' = logChan s \<and>
    storage_log s' = storage_log s \<and>
    pendingLogs s' = [] \<and> maxSyncedRevision s' = cl_revision (last (pendingLogs s))"
proof -
  let ?found = "filter (\<lambda>e. wc_state (client_at s e) = uptodate) pre"
  let ?s1 = "(upd_client c (\<lambda>x. x\<lparr>wc_ch_closed := True\<rparr>) s)\<lparr>clients := pre @ post\<rparr>"
  have "distinct (pre @ c # post)" using inv cs by (simp add: log_inv_def)
  then have dist: "distinct ?found" "c \<notin> set pre" "c \<notin> set post" "set pre \<inter> set post = {}" by auto
  have copy: "copyClients [uptodate] s = (?found, ?s1)"
    using copy_walk_closed [of pre "client_at s" c "[uptodate]" post] up closed cs by (simp add: copyClients_def)
  have "\<forall>e \<in> set ?found. wc_revision (client_at ?s1 e) = maxSyncedRevision s" using up dist(2) by auto
  from feed_returns [OF dist(1) this, of d "pendingLogs s"] obtain s2 where
    s2: "go_foldl (\<lambda>x c. if wc_revision (client_at x c) \<noteq> maxSyncedRevision s then Panic
       else Ret (syncOneUpdateToDateClient d c (pendingLogs s) x)) ?s1 ?found = Ret s2" by blast
  note frame = feed_frame [OF s2 dist(1)]
  note core = core_fields [OF frame(1)]
  have "flush_pending d s = Ret (s2\<lparr>maxSyncedRevision := cl_revision (last (pendingLogs s)), pendingLogs := []\<rparr>)"
    using s2 by (simp add: flush_pending_def syncUpToDateClients_def copy)
  moreover have "client_at s2 e = client_at s e" if "e \<in> set post" for e
  proof -
    have "e \<notin> set ?found" "e \<noteq> c" using dist that by auto
    then show ?thesis using frame(2) [of e] by (simp add: untouched_def)
  qed
  moreover have "\<not> wc_closed (client_at s2 e)" if "e \<in> set (pre @ post)" for e
    using frame(3) [of e] dist that up assms(5) by auto
  ultimately show ?thesis using core by simp
qed

lemma syncClients_skips:
  assumes inv: "log_inv s" "delivery_inv s" and "pendingLogs s = []"
    and opened: "\<forall>e \<in> set (clients s). \<not> wc_closed (client_at s e)"
    and s': "s' = syncClients d (maxSyncedRevision s) s"
  shows "clients s' = clients s" "\<forall>e \<in> set (clients s). \<not> wc_closed (client_at s' e)"
    "x \<in> set (clients s) \<Longrightarrow> wc_state (client_at s x) = uptodate \<Longrightarrow> client_at s' x = client_at s x"
    "logChan s' = logChan s" "pendingLogs s' = []" "maxSyncedRevision s' = maxSyncedRevision s"
proof -
  let ?L = "length (storage_log s)"
  obtain cs s1 where k: "copyClients [stale, blocking] s = (cs, s1)" by fastforce
  have li: "numbered (storage_log s)" "maxSyncedRevision s = ?L" "distinct (clients s)"
    using inv(1) assms(3) numbered_append by (auto simp: log_inv_def)
  note cp = copyClients_props [OF k li(3)]
  have cl: "clients s1 = clients s"
    "cs = filter (\<lambda>c. wc_state (client_at s c) = stale \<or> wc_state (client_at s c) = blocking) (clients s)"
    using cp(9) [OF opened] by auto
  have s1: "storage_log s1 = storage_log s" "logChan s1 = logChan s" "pendingLogs s1 = pendingLogs s"
    "maxSyncedRevision s1 = maxSyncedRevision s" "request_revision s1 = request_revision s"
    using cp(6) by (cases s; cases s1; simp add: core_def)+
  have ci: "\<forall>e \<in> set cs. client_inv ?L s1 e"
    using inv(2) opened cp(7,8) cl s1 li(2)
    by (auto simp: delivery_inv_def client_inv_def delivered_def Let_def)
  have "\<forall>e \<in> set cs. wc_state (client_at s1 e) \<noteq> uptodate" using cp(8) cl by auto
  note fold = sync_clients_fold [OF cp(4) _ ci _ this, of "foldl (syncOne d ?L) s1 cs" d]
  have s'_eq: "s' = foldl (syncOne d ?L) s1 cs" using s' k li(2) by (simp add: syncClients_def)
  have f: "core s' = core s1" "e \<in> set cs \<Longrightarrow> synced s1 e s'" "e \<notin> set cs \<Longrightarrow> untouched e s1 s'" for e
    using fold s1 li(1) unfolding s'_eq by auto
  note core = core_fields [OF f(1)]
  show "clients s' = clients s" "logChan s' = logChan s" "pendingLogs s' = []"
    "maxSyncedRevision s' = maxSyncedRevision s" using core cl s1 assms(3) by simp_all
  show "\<forall>e \<in> set (clients s). \<not> wc_closed (client_at s' e)"
    using f(2,3) cp(8) cl opened by (metis synced_def untouched_def)
  show "client_at s' x = client_at s x" if "x \<in> set (clients s)" "wc_state (client_at s x) = uptodate"
    using f(3) [of x] that cp(8) cl by (auto simp: untouched_def)
qed

text \<open>A tick with one pending entry while \<open>c\<close> is closed: the clients behind \<open>c\<close> miss the entry.\<close>

lemma tick_skips:
  assumes inv: "ipcache_inv s" and "pendingLogs s = [cl]" and "cs = pre @ c # post" and "clients s = cs"
    and up: "\<forall>e \<in> set (pre @ post). \<not> wc_closed (client_at s e) \<and>
      (wc_state (client_at s e) = uptodate \<longrightarrow> wc_revision (client_at s e) = maxSyncedRevision s)"
    and "wc_closed (client_at s c)" and x: "x \<in> set post" "wc_state (client_at s x) = uptodate"
  shows "\<exists>s'. syncControl_tick d s = Ret s' \<and> ipcache_inv s' \<and> clients s' = pre @ post \<and>
    (\<forall>e \<in> set (pre @ post). \<not> wc_closed (client_at s' e)) \<and> client_at s' x = client_at s x \<and>
    logChan s' = logChan s \<and> pendingLogs s' = [] \<and> maxSyncedRevision s' = cl_revision cl"
proof -
  have li: "log_inv s" "delivery_inv s" using inv by (simp_all add: ipcache_inv_def)
  obtain s1 where s1: "flush_pending d s = Ret s1" "clients s1 = pre @ post"
    "\<forall>e \<in> set (pre @ post). \<not> wc_closed (client_at s1 e)" "\<forall>e \<in> set post. client_at s1 e = client_at s e"
    "logChan s1 = logChan s" "pendingLogs s1 = []" "maxSyncedRevision s1 = cl_revision cl"
    using flush_skips [OF li(1), of pre c post d] assms by auto
  have inv1: "log_inv s1" "delivery_inv s1" using flush_inv(1,2) [OF s1(1) li] assms(2) by auto
  define s' where "s' = syncClients d (maxSyncedRevision s1) s1"
  have op: "\<forall>e \<in> set (clients s1). \<not> wc_closed (client_at s1 e)" using s1(2,3) by simp
  note sk = syncClients_skips [OF inv1 s1(6) op s'_def]
  have tick: "syncControl_tick d s = Ret s'" using s1(1) assms(2) by (simp add: syncControl_tick_def s'_def)
  moreover have "ipcache_inv s'" using ipcache_step_inv [of "Tick d" s s'] tick inv by simp
  moreover have "client_at s1 x = client_at s x" using s1(4) x(1) by blast
  then have "client_at s' x = client_at s x" using sk(3) [of x] x s1(2) by simp
  ultimately show ?thesis using sk s1 by (intro exI [of _ s']) simp
qed

lemma take_log_one:
  assumes "logChan s = cl # rest" and "pendingLogs s = []"
  shows "syncControl_log d s = Ret (s\<lparr>logChan := rest, storage_log := storage_log s @ [cl], pendingLogs := [cl]\<rparr>)"
  using assms by (simp add: syncControl_log_def compactLog_idle MaxSyncBatchSize_def Let_def)

text \<open>
  C8: a disconnected client brings the service down. In any state that is reached
  without disconnections, with nothing pending and two changes to come, let a client \<open>c\<close> disconnect
  that stands before a client \<open>x\<close> marked up to date. Handing the first change on returns and leaves \<open>x\<close>
  in the list, still marked up to date and behind the revision that was handed on, because the walk over
  the list stops at \<open>c\<close>; handing the second change on panics.
\<close>

theorem ipcache_disconnect_panics:
  assumes "\<forall>e \<in> set es. \<not> disconnects e" and "ipcache_run es (NewService uuid) = Ret s"
    and "pendingLogs s = []" and "logChan s = cl # cl' # rest"
    and "clients s = pre @ c # post" and "x \<in> set post" and "wc_state (client_at s x) = uptodate"
  shows "\<exists>s'. ipcache_run [Done c, TakeLog d, Tick d'] s = Ret s' \<and> x \<in> set (clients s') \<and>
    wc_state (client_at s' x) = uptodate \<and> wc_revision (client_at s' x) < maxSyncedRevision s' \<and>
    ipcache_run [TakeLog e, Tick e'] s' = Panic"
proof -
  have inv: "ipcache_inv s" "uptodate_inv s"
    using ipcache_run_returns [OF assms(1) new_service_inv [of uuid]] assms(2) by auto
  have dist: "distinct (pre @ c # post)" using inv(1) assms(5) by (simp add: ipcache_inv_def log_inv_def)
  let ?s0 = "watch_done c s"
  let ?s1 = "?s0\<lparr>logChan := cl' # rest, storage_log := storage_log s @ [cl], pendingLogs := [cl]\<rparr>"
  have run: "ipcache_run [Done c, TakeLog d] s = Ret ?s1"
    using take_log_one [of ?s0 cl "cl' # rest" d] assms(3-5) by (simp add: watch_done_def)
  then have inv1: "ipcache_inv ?s1" using ipcache_run_inv inv(1) by blast
  have max: "cl_revision cl = Suc (length (storage_log s))" "maxSyncedRevision s = length (storage_log s)"
    using inv(1) assms(3,4) numbered_nth [of "storage_log s @ logChan s" "length (storage_log s)"]
    by (simp_all add: ipcache_inv_def log_inv_def)
  have up: "\<forall>e \<in> set (pre @ post). \<not> wc_closed (client_at ?s1 e) \<and>
      (wc_state (client_at ?s1 e) = uptodate \<longrightarrow> wc_revision (client_at ?s1 e) = maxSyncedRevision ?s1)"
    using inv(2) assms(5) dist by (auto simp: uptodate_inv_def watch_done_def)
  have x1: "client_at ?s1 x = client_at s x" using dist assms(6) by (auto simp: watch_done_def)
  have cs1: "clients ?s1 = pre @ c # post" using assms(5) by (simp add: watch_done_def)
  obtain s' where s': "syncControl_tick d' ?s1 = Ret s'" "ipcache_inv s'" "clients s' = pre @ post"
    "\<forall>e \<in> set (pre @ post). \<not> wc_closed (client_at s' e)" "client_at s' x = client_at s x"
    "logChan s' = cl' # rest" "pendingLogs s' = []" "maxSyncedRevision s' = cl_revision cl"
    using tick_skips [OF inv1 _ refl cs1 up _ assms(6), of cl d'] assms(7) x1 by (auto simp: watch_done_def)
  have rev: "wc_revision (client_at s' x) < maxSyncedRevision s'"
    using s'(5,8) inv(2) assms(5-7) max by (simp add: uptodate_inv_def)
  let ?s2 = "s'\<lparr>logChan := rest, storage_log := storage_log s' @ [cl'], pendingLogs := [cl']\<rparr>"
  have take: "syncControl_log e s' = Ret ?s2" by (rule take_log_one [OF s'(6,7)])
  have "copyClients [uptodate] ?s2 =
      (filter (\<lambda>c. wc_state (client_at s' c) = uptodate) (pre @ post), ?s2\<lparr>clients := pre @ post\<rparr>)"
    using copy_walk_open [of "pre @ post" "client_at s'" "[uptodate]"] s'(3,4) by (simp add: copyClients_def)
  moreover have "x \<in> set (filter (\<lambda>c. wc_state (client_at s' c) = uptodate) (pre @ post))"
    using assms(6,7) s'(5) by simp
  moreover have "distinct (filter (\<lambda>c. wc_state (client_at s' c) = uptodate) (pre @ post))" using dist by auto
  ultimately have "flush_pending e' ?s2 = Panic"
    using feed_panics [of x _ "?s2\<lparr>clients := pre @ post\<rparr>" "maxSyncedRevision s'" e' "[cl']"] rev
    by (simp add: flush_pending_def syncUpToDateClients_def)
  then have "ipcache_run [TakeLog e, Tick e'] s' = Panic" using take by (simp add: syncControl_tick_def)
  moreover have "ipcache_run [Done c, TakeLog d, Tick d'] s = Ret s'" using run s'(1) by (auto simp: go_bind_Ret_iff)
  ultimately show ?thesis using s'(3,5) rev assms(6,7) by auto
qed

text \<open>Two clients that are up to date; the first one disconnects while two pods are added.\<close>

theorem ipcache_disconnect_panics_witness:
  "\<exists>s s'. ipcache_run [Watch ''u'' 0, Watch ''u'' 0, AddPod (sample_pod ''10.0.0.1''), TakeLog (\<lambda>_ _. 0),
      Tick (\<lambda>_ _. 0), AddPod (sample_pod ''10.0.0.2''), AddPod (sample_pod ''10.0.0.3'')] (NewService ''u'') = Ret s \<and>
    ipcache_run [Done 0, TakeLog (\<lambda>_ _. 0), Tick (\<lambda>_ _. 0)] s = Ret s' \<and>
    ipcache_run [TakeLog (\<lambda>_ _. 0), Tick (\<lambda>_ _. 0)] s' = Panic"
proof -
  let ?es = "[Watch ''u'' 0, Watch ''u'' 0, AddPod (sample_pod ''10.0.0.1''), TakeLog (\<lambda>_ _. 0),
      Tick (\<lambda>_ _. 0), AddPod (sample_pod ''10.0.0.2''), AddPod (sample_pod ''10.0.0.3'')]"
  have es: "\<forall>e \<in> set ?es. \<not> disconnects e" by simp
  obtain s cl cl' where s: "ipcache_run ?es (NewService ''u'') = Ret s" "pendingLogs s = []"
    "logChan s = [cl, cl']" "clients s = [] @ 0 # [1]" "wc_state (client_at s 1) = uptodate"
    by (simp add: ipcache_eval)
  from ipcache_disconnect_panics [OF es s(1-4), of 1] s(1,5) show ?thesis by fastforce
qed

text \<open>
  C18: while no client disconnects, one round of the ticker hands a client all of the log
  that it misses, if its channel has room for the entries that it misses.
\<close>

theorem ipcache_catches_up:
  assumes "\<forall>e \<in> set es. \<not> disconnects e" and "ipcache_run es (NewService uuid) = Ret s"
    and "c \<in> set (clients s)"
    and "length (wc_ch (client_at s c)) + (length (storage_log s) - wc_revision (client_at s c)) \<le> client_channel"
  shows "\<exists>s'. ipcache_step (Tick d) s = Ret s' \<and>
    responses s' c @ wc_ch (client_at s' c) = drop (request_revision s c) (storage_log s)"
  using ipcache_run_returns [OF assms(1) new_service_inv [of uuid]] tick_delivers [of s c d] assms(2-4)
  by (auto simp: delivered_def missed_def)

theorem ipcache_catches_up_witness:
  "\<exists>s s'. ipcache_run [Watch ''u'' 0, AddPod (sample_pod ''10.0.0.1''), TakeLog (\<lambda>_ _. 0)] (NewService ''u'') = Ret s \<and>
     ipcache_step (Tick (\<lambda>_ _. 0)) s = Ret s' \<and> length (responses s' 0 @ wc_ch (client_at s' 0)) = 1"
proof -
  let ?es = "[Watch ''u'' 0, AddPod (sample_pod ''10.0.0.1''), TakeLog (\<lambda>_ _. 0)]"
  obtain s where s: "ipcache_run ?es (NewService ''u'') = Ret s" "clients s = [0]"
    "wc_ch (client_at s 0) = []" "request_revision s 0 = 0" "length (storage_log s) = 1"
    by (simp add: ipcache_eval)
  then obtain s' where "ipcache_step (Tick (\<lambda>_ _. 0)) s = Ret s'"
    "responses s' 0 @ wc_ch (client_at s' 0) = storage_log s"
    using ipcache_catches_up [of ?es "''u''" s 0 "\<lambda>_ _. 0"] by (auto simp: client_channel_def le_diff_conv)
  with s show ?thesis by metis
qed

text \<open>Nothing is ever compacted, so a client that lists the cache gets no entry and starts at revision zero.\<close>

lemma ipcache_list_empty:
  assumes "ipcache_run es (NewService uuid) = Ret s"
  shows "lr_Revision (ListCache s) = 0 \<and> lr_Entries (ListCache s) = Map.empty"
  using ipcache_run_inv [OF assms new_service_inv(1)]
  by (simp add: ipcache_inv_def log_inv_def ListCache_def)

end
