(* ===== verification/TaskAgent.thy ===== *)
theory TaskAgent
  imports IpcacheSync
begin

text \<open>
  The side of the exporter: the table of addresses in \<^verbatim>\<open>src/pkg/exporter/nettop/ipcache.go\<close> and
  the part of \<^verbatim>\<open>src/pkg/exporter/task-agent/agent.go\<close> that keeps it in step with the controller.
  The connection delivers the responses of the controller in order. Revisions are natural numbers, as in the
  model of the controller.
\<close>

section \<open>The table of addresses\<close>

definition IPTypeNode :: string where "IPTypeNode = ''node''"

definition IPTypePod :: string where "IPTypePod = ''pod''"

record IPInfo =
  ii_Type :: string
  ii_IP :: string
  ii_NodeName :: string
  ii_PodName :: string
  ii_PodNamespace :: string

record nettop_IPCache =
  nc_period :: string
  nc_revision :: nat
  nc_entries :: "string \<rightharpoonup> IPInfo"

definition init_IPCache :: nettop_IPCache where
  "init_IPCache = \<lparr>nc_period = '''', nc_revision = 0, nc_entries = Map.empty\<rparr>"

definition GetIPInfo :: "string \<Rightarrow> nettop_IPCache \<Rightarrow> IPInfo option" where
  "GetIPInfo ip cache = nc_entries cache ip"

definition IPCacheRevision :: "nettop_IPCache \<Rightarrow> string \<times> nat" where
  "IPCacheRevision cache = (nc_period cache, nc_revision cache)"

definition UpdateIPCache :: "string \<Rightarrow> nat \<Rightarrow> IPInfo list \<Rightarrow> nettop_IPCache" where
  "UpdateIPCache per revision entries =
     \<lparr>nc_period = per, nc_revision = revision,
      nc_entries = foldl (\<lambda>m e. m(ii_IP e \<mapsto> e)) Map.empty entries\<rparr>"

text \<open>A missing entry of a response is dereferenced.\<close>

definition ApplyIPCacheChange :: "nat \<Rightarrow> opcode \<Rightarrow> IPInfo option \<Rightarrow> nettop_IPCache \<Rightarrow> nettop_IPCache go" where
  "ApplyIPCacheChange revision op info cache =
     (let cache = cache\<lparr>nc_revision := revision\<rparr>
      in case op of
           OpCode_Set \<Rightarrow>
             (case info of
                None \<Rightarrow> Panic
              | Some i \<Rightarrow> Ret (cache\<lparr>nc_entries := (nc_entries cache)(ii_IP i \<mapsto> i)\<rparr>))
         | OpCode_Del \<Rightarrow>
             (case info of
                None \<Rightarrow> Panic
              | Some i \<Rightarrow> Ret (cache\<lparr>nc_entries := (nc_entries cache)(ii_IP i := None)\<rparr>))
         | OpCode_Other _ \<Rightarrow> Ret cache)"

section \<open>Following the controller\<close>

fun entry2IPInfo :: "cache_entry \<Rightarrow> IPInfo option" where
  "entry2IPInfo e =
     (case ce_Meta e of
        CacheEntry_Node n \<Rightarrow>
          Some \<lparr>ii_Type = IPTypeNode, ii_IP = ce_IP e, ii_NodeName = n, ii_PodName = '''', ii_PodNamespace = ''''\<rparr>
      | CacheEntry_Pod ns n \<Rightarrow>
          Some \<lparr>ii_Type = IPTypePod, ii_IP = ce_IP e, ii_NodeName = '''', ii_PodName = n, ii_PodNamespace = ns\<rparr>
      | CacheEntry_None \<Rightarrow> None)"

text \<open>
  One attempt of \<^verbatim>\<open>reconn\<close> whose calls reach the controller: list the cache if asked to or if
  nothing was listed before, then watch from the revision at hand. \<open>order\<close> is the order in which a map
  is iterated.
\<close>

definition reconn ::
    "((string \<rightharpoonup> cache_entry) \<Rightarrow> cache_entry list) \<Rightarrow> bool \<Rightarrow> ipcache_service \<Rightarrow> nettop_IPCache \<Rightarrow>
       (watch_error + nat \<times> ipcache_service) \<times> nettop_IPCache" where
  "reconn order relist s cache =
     (let relist = (relist \<or> fst (IPCacheRevision cache) = '''');
          resp = ListCache s;
          cache = (if relist
                   then UpdateIPCache (lr_Period resp) (lr_Revision resp)
                          (List.map_filter entry2IPInfo (order (lr_Entries resp)))
                   else cache);
          (per, revision) = IPCacheRevision cache
      in (WatchCache per revision s, cache))"

text \<open>The loop that receives responses, as long as none is an error.\<close>

definition receive :: "nettop_IPCache \<Rightarrow> changeLog \<Rightarrow> nettop_IPCache go" where
  "receive cache resp =
     ApplyIPCacheChange (cl_revision resp) (cl_opcode resp) (entry2IPInfo (cl_entry resp)) cache"

definition receive_all :: "nettop_IPCache \<Rightarrow> changeLog list \<Rightarrow> nettop_IPCache go" where
  "receive_all = go_foldl receive"

text \<open>An error of the watch decides whether the cache is listed again.\<close>

definition relist_after :: "watch_error option \<Rightarrow> bool" where
  "relist_after err \<longleftrightarrow> err = Some DataLoss \<or> err = Some InvalidArgument"

section \<open>The table mirrors the log\<close>

text \<open>The addresses after a prefix of the log, and how the exporter shows them.\<close>

definition replay :: "changeLog list \<Rightarrow> string \<rightharpoonup> cache_entry" where
  "replay = foldl apply_change Map.empty"

definition shown :: "(string \<rightharpoonup> cache_entry) \<Rightarrow> string \<rightharpoonup> IPInfo" where
  "shown m = (\<lambda>ip. case m ip of None \<Rightarrow> None | Some e \<Rightarrow> entry2IPInfo e)"

lemma entry2IPInfo_valid:
  assumes "ce_Meta e \<noteq> CacheEntry_None"
  obtains i where "entry2IPInfo e = Some i" "ii_IP i = ce_IP e"
  using assms by (cases "ce_Meta e") auto

lemma receive_shown:
  assumes "valid_change cl" and "nc_entries x = shown m"
  shows "\<exists>x'. receive x cl = Ret x' \<and> nc_entries x' = shown (apply_change m cl) \<and>
    nc_revision x' = cl_revision cl \<and> nc_period x' = nc_period x"
proof -
  obtain i where i: "entry2IPInfo (cl_entry cl) = Some i" "ii_IP i = ce_IP (cl_entry cl)"
    using assms(1) entry2IPInfo_valid by (auto simp: valid_change_def)
  then show ?thesis
    using assms
    by (auto simp: valid_change_def receive_def ApplyIPCacheChange_def shown_def fun_eq_iff Let_def
        simp del: entry2IPInfo.simps)
qed

lemma receive_all_shown:
  assumes "\<forall>cl \<in> set cls. valid_change cl" and "nc_entries x = shown m"
  shows "\<exists>x'. receive_all x cls = Ret x' \<and> nc_entries x' = shown (foldl apply_change m cls) \<and>
    nc_revision x' = (if cls = [] then nc_revision x else cl_revision (last cls)) \<and> nc_period x' = nc_period x"
  using assms
proof (induction cls arbitrary: x m)
  case (Cons cl cls)
  then obtain x1 where x1: "receive x cl = Ret x1" "nc_entries x1 = shown (apply_change m cl)"
    "nc_revision x1 = cl_revision cl" "nc_period x1 = nc_period x"
    using receive_shown [of cl x m] by auto
  from Cons.IH [OF _ this(2)] Cons.prems(1) x1 show ?case
    by (auto simp: receive_all_def simp del: apply_change.simps)
qed (simp add: receive_all_def)

text \<open>
  C11: the exporter's table follows the controller's log. If the table showed the log up
  to the revision the exporter asked for when it connected, then processing all responses sent so far
  does not panic and leaves the table showing the log up to the last response: an address is in it
  exactly when the log says so, with the pod or node of its latest entry. The revision of the table is then
  that of the last response, so that a reconnection asks for exactly the rest of the log; without a
  response it stays what it was.
\<close>

theorem agent_mirrors_log:
  assumes "ipcache_run es (NewService uuid) = Ret s" and "c \<in> set (clients s)"
    and "\<not> wc_closed (client_at s c)"
    and "nc_entries x = shown (replay (take (request_revision s c) (storage_log s)))"
  shows "\<exists>x'. receive_all x (responses s c) = Ret x' \<and>
    nc_entries x' = shown (replay (take (request_revision s c + length (responses s c)) (storage_log s))) \<and>
    nc_revision x' = (if responses s c = [] then nc_revision x
                      else request_revision s c + length (responses s c)) \<and>
    nc_period x' = nc_period x"
proof -
  let ?a = "request_revision s c"
  have inv: "log_inv s" "delivery_inv s"
    using ipcache_run_inv [OF assms(1) new_service_inv(1)] by (auto simp: ipcache_inv_def)
  then have "responses s c @ wc_ch (client_at s c) =
      take (wc_revision (client_at s c) - ?a) (drop ?a (storage_log s))"
    using assms(2,3) by (simp add: delivery_inv_def client_inv_def delivered_def Let_def)
  then have "responses s c = take (length (responses s c)) (take (wc_revision (client_at s c) - ?a)
      (drop ?a (storage_log s)))"
    by (metis append_eq_conv_conj)
  then have r: "responses s c = take (length (responses s c)) (drop ?a (storage_log s))"
    by (metis length_take min.cobounded2 min_def take_all_iff take_take)
  have "\<forall>cl \<in> set (responses s c). valid_change cl"
    using inv(1) r by (metis (no_types, lifting) Un_iff in_set_dropD in_set_takeD log_inv_def set_append)
  from receive_all_shown [OF this assms(4)] obtain x' where x': "receive_all x (responses s c) = Ret x'"
    "nc_entries x' = shown (foldl apply_change (replay (take ?a (storage_log s))) (responses s c))"
    "nc_revision x' = (if responses s c = [] then nc_revision x else cl_revision (last (responses s c)))"
    "nc_period x' = nc_period x" by blast
  moreover have "cl_revision (last (responses s c)) = ?a + length (responses s c)" if "responses s c \<noteq> []"
  proof -
    have "numbered (storage_log s)" using inv(1) numbered_append by (auto simp: log_inv_def)
    moreover have "?a + length (responses s c) \<le> length (storage_log s)"
    proof -
      have "length (responses s c) \<le> length (storage_log s) - ?a" using arg_cong [OF r, of length] by simp
      moreover have "0 < length (responses s c)" using that by simp
      ultimately show ?thesis by linarith
    qed
    ultimately show ?thesis using last_take_numbered [of "storage_log s" "length (responses s c)" ?a] r that
      by (metis length_greater_0_conv)
  qed
  moreover have "foldl apply_change (replay (take ?a (storage_log s))) (responses s c) =
      replay (take (?a + length (responses s c)) (storage_log s))"
    by (subst r) (simp add: replay_def take_add)
  ultimately show ?thesis by auto
qed

theorem agent_mirrors_log_witness:
  "\<exists>s x'. ipcache_run [Watch ''u'' 0, AddPod (sample_pod ''10.0.0.1''), TakeLog (\<lambda>_ _. 0), Tick (\<lambda>_ _. 0), Send 0]
      (NewService ''u'') = Ret s \<and> receive_all init_IPCache (responses s 0) = Ret x' \<and> nc_revision x' = 1 \<and>
    GetIPInfo ''10.0.0.1'' x' = Some \<lparr>ii_Type = ''pod'', ii_IP = ''10.0.0.1'', ii_NodeName = '''',
      ii_PodName = ''web'', ii_PodNamespace = ''default''\<rparr>"
proof -
  let ?e = "\<lparr>ce_IP = ''10.0.0.1'', ce_Meta = CacheEntry_Pod ''default'' ''web''\<rparr>"
  obtain s where s: "ipcache_run [Watch ''u'' 0, AddPod (sample_pod ''10.0.0.1''), TakeLog (\<lambda>_ _. 0),
      Tick (\<lambda>_ _. 0), Send 0] (NewService ''u'') = Ret s" "clients s = [0]" "\<not> wc_closed (client_at s 0)"
    "request_revision s 0 = 0" "length (responses s 0) = 1"
    "storage_log s = [\<lparr>cl_revision = 1, cl_opcode = OpCode_Set, cl_entry = ?e\<rparr>]"
    by (simp add: ipcache_eval)
  with agent_mirrors_log [OF s(1), of 0 init_IPCache] obtain x' where
    "receive_all init_IPCache (responses s 0) = Ret x'" "nc_entries x' = shown (replay (storage_log s))"
    "nc_revision x' = 1"
    by (auto simp: init_IPCache_def shown_def replay_def split: if_splits)
  with s show ?thesis
    by (auto simp: GetIPInfo_def shown_def replay_def IPTypePod_def)
qed

text \<open>
  A fresh or relisted table satisfies the hypothesis: the list is empty and the watch starts at revision
  zero. So does a table that reconnects with the revision of its last response.
\<close>

lemma reconn_relist:
  assumes "ipcache_run es (NewService uuid) = Ret s" and "relist \<or> nc_period x = ''''"
    and "order Map.empty = []" and "reconn order relist s x = (Inr (c, s'), x')"
  shows "request_revision s' c = 0"
    "nc_entries x' = shown (replay (take (request_revision s' c) (storage_log s')))"
proof -
  from ipcache_list_empty [OF assms(1)] assms(2-4) show "request_revision s' c = 0"
    "nc_entries x' = shown (replay (take (request_revision s' c) (storage_log s')))"
    by (auto simp: reconn_def IPCacheRevision_def UpdateIPCache_def WatchCache_def Let_def shown_def
        replay_def List.map_filter_simps split: if_splits)
qed

text \<open>
  An address that a new pod takes over before the old pod is deleted is lost: the deletion names the
  address alone.
\<close>

lemma reused_address_lost:
  "\<exists>s. ipcache_run [AddPod ((sample_pod ip)\<lparr>pod_Name := ''old''\<rparr>), AddPod ((sample_pod ip)\<lparr>pod_Name := ''new''\<rparr>),
      DeletePod (Deleted ((sample_pod ip)\<lparr>pod_Name := ''old''\<rparr>)),
      TakeLog (\<lambda>_ _. 0), TakeLog (\<lambda>_ _. 0), TakeLog (\<lambda>_ _. 0)] (NewService uuid) = Ret s \<and>
    length (storage_log s) = 3 \<and> replay (storage_log s) ip = None"
  by (simp add: ipcache_eval onDeletePod_def replay_def)

section \<open>Retrying\<close>

text \<open>
  \<^verbatim>\<open>retry\<close>: \<open>work i\<close> tells whether attempt \<open>i\<close> succeeds. The result is whether it succeeded, the
  number of attempts that were made and the seconds slept between them; \<open>None\<close> is a call that does not
  return. The code counts attempts with 63 bits and a sign, and compares them only with a positive bound.
\<close>

partial_function (option) retry_loop ::
    "int \<Rightarrow> (nat \<Rightarrow> bool) \<Rightarrow> nat \<Rightarrow> int \<Rightarrow> (bool \<times> nat \<times> int list) option" where
  "retry_loop maxAttempts work attempts backoff =
     (if work attempts then Some (True, Suc attempts, [])
      else if 0 < maxAttempts \<and> maxAttempts \<le> int (Suc attempts) then Some (False, Suc attempts, [])
      else
        let backoff = backoff * 2;
            backoff = (if 10 < backoff then 10 else backoff)
        in Option.bind (retry_loop maxAttempts work (Suc attempts) backoff)
             (\<lambda>(r, n, sleeps). Some (r, n, backoff # sleeps)))"

definition retry :: "int \<Rightarrow> (nat \<Rightarrow> bool) \<Rightarrow> (bool \<times> nat \<times> int list) option" where
  "retry maxAttempts work = retry_loop maxAttempts work 0 1"

text \<open>The pauses: 2, 4 and 8 seconds, then always 10.\<close>

definition pause :: "nat \<Rightarrow> int" where
  "pause i = min 10 (2 ^ Suc i)"

lemma pause_Suc: "pause (Suc i) = (if 10 < pause i * 2 then 10 else pause i * 2)"
proof -
  have "(2::int) ^ Suc i \<ge> 10 \<or> (2::int) ^ Suc i < 10" by linarith
  then show ?thesis by (auto simp: pause_def min_def)
qed

lemma retry_loop_success:
  assumes "work (i + n)" and "\<forall>j < n. \<not> work (i + j)" and "maxAttempts \<le> 0 \<or> int (i + n) < maxAttempts"
    and "(if 10 < b * 2 then 10 else b * 2) = pause i"
  shows "retry_loop maxAttempts work i b = Some (True, Suc (i + n), map pause [i..<i + n])"
  using assms
proof (induction n arbitrary: i b)
  case 0
  then show ?case by (simp add: retry_loop.simps)
next
  case (Suc n)
  have "\<not> work i" using Suc.prems(2) by (metis add.right_neutral zero_less_Suc)
  moreover have "retry_loop maxAttempts work (Suc i) (pause i) = Some (True, Suc (Suc i + n), map pause [Suc i..<Suc i + n])"
    using Suc.prems pause_Suc by (intro Suc.IH) auto
  ultimately show ?case
    using Suc.prems(3,4) by (subst retry_loop.simps) (auto simp: upt_conv_Cons Let_def simp del: upt_Suc)
qed

lemma retry_loop_failure:
  assumes "\<forall>j. i \<le> j \<and> int j < maxAttempts \<longrightarrow> \<not> work j" and "maxAttempts = int (i + Suc n)"
    and "(if 10 < b * 2 then 10 else b * 2) = pause i"
  shows "retry_loop maxAttempts work i b = Some (False, Suc (i + n), map pause [i..<i + n])"
  using assms
proof (induction n arbitrary: i b)
  case 0
  then show ?case by (subst retry_loop.simps) auto
next
  case (Suc n)
  have "retry_loop maxAttempts work (Suc i) (pause i) = Some (False, Suc (Suc i + n), map pause [Suc i..<Suc i + n])"
    using Suc.prems pause_Suc by (intro Suc.IH) auto
  with Suc.prems show ?case by (subst retry_loop.simps) (auto simp: upt_conv_Cons Let_def simp del: upt_Suc)
qed

text \<open>
  C30: \<^verbatim>\<open>retry\<close> returns if the number of attempts is limited or some attempt
  succeeds. If an allowed attempt succeeds, it stops right after the first one that does and reports
  success; otherwise it makes exactly the allowed number of attempts and reports failure. Between the
  attempts it pauses 2, 4, 8, 10, 10, ... seconds.
\<close>

theorem retry_terminates:
  assumes "0 < maxAttempts \<or> (\<exists>i. work i)"
  shows "(\<exists>n. work n \<and> (\<forall>j < n. \<not> work j) \<and> (maxAttempts \<le> 0 \<or> int n < maxAttempts) \<and>
      retry maxAttempts work = Some (True, Suc n, map pause [0..<n])) \<or>
    (\<forall>i. int i < maxAttempts \<longrightarrow> \<not> work i) \<and> 0 < maxAttempts \<and>
      retry maxAttempts work = Some (False, nat maxAttempts, map pause [0..<nat maxAttempts - 1])"
proof (cases "\<exists>i. work i \<and> (maxAttempts \<le> 0 \<or> int i < maxAttempts)")
  case True
  define n where "n = (LEAST i. work i)"
  from True obtain i where i: "work i" "maxAttempts \<le> 0 \<or> int i < maxAttempts" by blast
  have n: "work n" "\<forall>j < n. \<not> work j" "n \<le> i"
    unfolding n_def by (rule LeastI, rule i(1)) (use not_less_Least in blast, rule Least_le, rule i(1))
  then have bound: "maxAttempts \<le> 0 \<or> int n < maxAttempts" using i(2) by linarith
  with retry_loop_success [of work 0 n maxAttempts 1] n(1,2)
  have "retry maxAttempts work = Some (True, Suc n, map pause [0..<n])"
    by (simp add: retry_def pause_def)
  with n bound show ?thesis by blast
next
  case False
  with assms have m: "0 < maxAttempts" by auto
  define n where "n = nat maxAttempts - 1"
  have "maxAttempts = int (0 + Suc n)" using m unfolding n_def by linarith
  moreover from False have none: "\<forall>j. 0 \<le> j \<and> int j < maxAttempts \<longrightarrow> \<not> work j" by blast
  ultimately have "retry maxAttempts work = Some (False, Suc n, map pause [0..<n])"
    using retry_loop_failure [of 0 maxAttempts work n 1] by (simp add: retry_def pause_def)
  moreover have "Suc n = nat maxAttempts" using m by (simp add: n_def)
  ultimately show ?thesis using none m n_def by auto
qed

theorem retry_terminates_witness: "retry 3 (\<lambda>i. 1 \<le> i) = Some (True, 2, [2])"
proof -
  obtain n where "1 \<le> n" "\<forall>j < n. \<not> (1 :: nat) \<le> j"
    "retry 3 (\<lambda>i. 1 \<le> i) = Some (True, Suc n, map pause [0..<n])"
    using retry_terminates [of 3 "\<lambda>i. 1 \<le> i"] by (auto dest: spec [of _ 1])
  moreover from this have "n = 1" by (metis le_neq_implies_less le_refl)
  ultimately show ?thesis by (simp add: pause_def)
qed

end
