(* ===== verification/GoText.thy ===== *)
theory GoText
  imports Golang "HOL-Library.Char_ord"
begin

unbundle bit_operations_syntax

text \<open>
  What the Go code uses of the packages \<^verbatim>\<open>strings\<close> and \<^verbatim>\<open>strconv\<close>. A Go string is a
  sequence of bytes, here a \<^typ>\<open>string\<close>; folding of case and white space are those of ASCII.
\<close>

section \<open>Splitting\<close>

definition is_space :: "char \<Rightarrow> bool" where
  "is_space c = (c \<in> {CHR 0x09, CHR 0x0A, CHR 0x0B, CHR 0x0C, CHR 0x0D, CHR '' ''})"

text \<open>The words between runs of white space.\<close>

function Fields :: "string \<Rightarrow> string list" where
  "Fields [] = []"
| "Fields (c # cs) =
     (if is_space c then Fields cs
      else (c # takeWhile (\<lambda>x. \<not> is_space x) cs) # Fields (dropWhile (\<lambda>x. \<not> is_space x) cs))"
  by pat_completeness auto
termination
  by (relation "measure length") (auto simp: le_imp_less_Suc length_dropWhile_le)

text \<open>The pieces between the occurrences of a separator of one byte.\<close>

fun Split :: "char \<Rightarrow> string \<Rightarrow> string list" where
  "Split d [] = [[]]"
| "Split d (c # cs) =
     (if c = d then [] # Split d cs else (c # hd (Split d cs)) # tl (Split d cs))"

lemma Split_not_Nil [simp]: "Split d s \<noteq> []"
  by (induction s) auto

lemma Split_Cons_append [simp]: "d \<notin> set a \<Longrightarrow> Split d (a @ d # b) = a # Split d b"
  by (induction a) auto

lemma Split_single [simp]: "d \<notin> set a \<Longrightarrow> Split d a = [a]"
  by (induction a) auto

lemma length_Split: "length (Split d s) = Suc (count_list s d)"
  by (induction s) auto

fun join :: "string \<Rightarrow> string list \<Rightarrow> string" where
  "join sep [] = []"
| "join sep [w] = w"
| "join sep (w # v # ws) = w @ sep @ join sep (v # ws)"

lemma Split_join:
  "ws \<noteq> [] \<Longrightarrow> (\<And>w. w \<in> set ws \<Longrightarrow> d \<notin> set w) \<Longrightarrow> Split d (join [d] ws) = ws"
  by (induction "[d]" ws rule: join.induct) auto

definition HasPrefix :: "string \<Rightarrow> string \<Rightarrow> bool" where
  "HasPrefix s p = (take (length p) s = p)"

definition HasSuffix :: "string \<Rightarrow> string \<Rightarrow> bool" where
  "HasSuffix s p = (length p \<le> length s \<and> drop (length s - length p) s = p)"

definition TrimSuffix :: "string \<Rightarrow> string \<Rightarrow> string" where
  "TrimSuffix s p = (if HasSuffix s p then take (length s - length p) s else s)"

definition lower :: "char \<Rightarrow> char" where
  "lower c = (if CHR ''A'' \<le> c \<and> c \<le> CHR ''Z'' then char_of (of_char c + 32 :: nat) else c)"

definition EqualFold :: "string \<Rightarrow> string \<Rightarrow> bool" where
  "EqualFold s t = (map lower s = map lower t)"

section \<open>Numbers\<close>

definition digit :: "nat \<Rightarrow> char" where
  "digit d = char_of (if d < 10 then 48 + d else 87 + d)"

text \<open>A number in base \<open>b\<close>, most significant digit first: \<^verbatim>\<open>%d\<close> and \<^verbatim>\<open>%x\<close>.\<close>

fun radix :: "nat \<Rightarrow> nat \<Rightarrow> string" where
  "radix b n = (if b < 2 \<or> n < b then [digit n] else radix b (n div b) @ [digit (n mod b)])"

declare radix.simps [simp del]

abbreviation decimal :: "nat \<Rightarrow> string" where "decimal \<equiv> radix 10"

datatype num_error = ErrSyntax | ErrRange

definition digit_value :: "char \<Rightarrow> nat option" where
  "digit_value c =
     (if CHR ''0'' \<le> c \<and> c \<le> CHR ''9'' then Some (of_char c - 48)
      else if CHR ''a'' \<le> lower c \<and> lower c \<le> CHR ''z'' then Some (of_char (lower c) - 87)
      else None)"

text \<open>The loop of \<^verbatim>\<open>ParseUint\<close> over the digits; \<open>sep\<close> allows underscores.\<close>

fun uint_loop :: "bool \<Rightarrow> nat \<Rightarrow> nat \<Rightarrow> nat \<Rightarrow> string \<Rightarrow> num_error + nat" where
  "uint_loop sep b maxv n [] = Inr n"
| "uint_loop sep b maxv n (c # cs) =
     (if sep \<and> c = CHR ''_'' then uint_loop sep b maxv n cs
      else case digit_value c of
        None \<Rightarrow> Inl ErrSyntax
      | Some d \<Rightarrow>
          if d \<ge> b then Inl ErrSyntax
          else if n * b + d > maxv then Inl ErrRange
          else uint_loop sep b maxv (n * b + d) cs)"

text \<open>Underscores must separate digits; the base prefix counts as a digit.\<close>

datatype seen = SeenNothing | SeenDigit | SeenUnderscore | SeenOther

fun underscore_loop :: "bool \<Rightarrow> seen \<Rightarrow> string \<Rightarrow> bool" where
  "underscore_loop hex i [] = (i \<noteq> SeenUnderscore)"
| "underscore_loop hex i (c # cs) =
     (if CHR ''0'' \<le> c \<and> c \<le> CHR ''9'' \<or> hex \<and> CHR ''a'' \<le> lower c \<and> lower c \<le> CHR ''f''
      then underscore_loop hex SeenDigit cs
      else if c = CHR ''_'' then i = SeenDigit \<and> underscore_loop hex SeenUnderscore cs
      else i \<noteq> SeenUnderscore \<and> underscore_loop hex SeenOther cs)"

definition underscoreOK :: "string \<Rightarrow> bool" where
  "underscoreOK s =
     (case s of
        z # x # cs \<Rightarrow>
          if z = CHR ''0'' \<and> lower x \<in> {CHR ''b'', CHR ''o'', CHR ''x''}
          then underscore_loop (lower x = CHR ''x'') SeenDigit cs
          else underscore_loop False SeenNothing s
      | _ \<Rightarrow> underscore_loop False SeenNothing s)"

text \<open>The base and the digits of a literal when the base is given as 0.\<close>

definition base_prefix :: "string \<Rightarrow> nat \<times> string" where
  "base_prefix s =
     (case s of
        z # x # c # cs \<Rightarrow>
          if z \<noteq> CHR ''0'' then (10, s)
          else if lower x = CHR ''b'' then (2, c # cs)
          else if lower x = CHR ''o'' then (8, c # cs)
          else if lower x = CHR ''x'' then (16, c # cs)
          else (8, x # c # cs)
      | z # cs \<Rightarrow> if z \<noteq> CHR ''0'' then (10, s) else (8, cs)
      | [] \<Rightarrow> (10, []))"

text \<open>The value and the error; the value of an overflow is the largest one.\<close>

definition ParseUint :: "string \<Rightarrow> nat \<Rightarrow> nat \<Rightarrow> nat \<times> num_error option" where
  "ParseUint s base bits =
     (if s = [] then (0, Some ErrSyntax)
      else
        let (b, ds) = (if base = 0 then base_prefix s else (base, s)) in
        case uint_loop (base = 0) b (2 ^ bits - 1) 0 ds of
          Inl ErrSyntax \<Rightarrow> (0, Some ErrSyntax)
        | Inl ErrRange \<Rightarrow> (2 ^ bits - 1, Some ErrRange)
        | Inr n \<Rightarrow>
            if base = 0 \<and> CHR ''_'' \<in> set ds \<and> \<not> underscoreOK s then (0, Some ErrSyntax) else (n, None))"

definition ParseInt :: "string \<Rightarrow> nat \<Rightarrow> nat \<Rightarrow> int \<times> num_error option" where
  "ParseInt s base bits =
     (if s = [] then (0, Some ErrSyntax)
      else
        let neg = (hd s = CHR ''-'');
            (un, err) = ParseUint (if hd s = CHR ''-'' \<or> hd s = CHR ''+'' then tl s else s) base bits
        in if err = Some ErrSyntax then (0, Some ErrSyntax)
           else if \<not> neg \<and> un \<ge> 2 ^ (bits - 1) then (2 ^ (bits - 1) - 1, Some ErrRange)
           else if neg \<and> un > 2 ^ (bits - 1) then (- (2 ^ (bits - 1)), Some ErrRange)
           else (if neg then - int un else int un, None))"

definition Atoi :: "string \<Rightarrow> int \<times> num_error option" where
  "Atoi s = ParseInt s 10 64"

section \<open>Reading what was printed\<close>

lemma radix_not_Nil [simp]: "radix b n \<noteq> []"
  by (subst radix.simps) auto

lemma digit_less_ten: "d < 10 \<Longrightarrow> of_char (digit d) = (48 + d :: nat)"
  by (simp add: digit_def)

lemma of_char_digit: "d < 16 \<Longrightarrow> of_char (digit d) = (if d < 10 then 48 + d else 87 + d :: nat)"
  by (simp add: digit_def)

lemma digit_value_digit [simp]: "d < 16 \<Longrightarrow> digit_value (digit d) = Some d"
proof -
  have "list_all (\<lambda>d. digit_value (digit d) = Some d) [0..<16]" by code_simp
  then show "d < 16 \<Longrightarrow> digit_value (digit d) = Some d" by (simp add: list_all_iff)
qed

lemma digit_plain:
  assumes "d < 16"
  shows "digit d \<notin> set ''_-+,:./xXoO ''"
proof -
  have "list_all (\<lambda>d. digit d \<notin> set ''_-+,:./xXoO '') [0..<16]" by code_simp
  then show ?thesis using assms unfolding list_all_iff by (metis atLeastLessThan_iff le0 set_upt)
qed


lemma set_radix: "2 \<le> b \<Longrightarrow> b \<le> 16 \<Longrightarrow> c \<in> set (radix b n) \<Longrightarrow> \<exists>d < b. c = digit d"
proof (induction b n rule: radix.induct)
  case (1 b n)
  have "n mod b < b" using 1 by simp
  have "c = digit n \<and> n < b \<or> c = digit (n mod b) \<or> \<not> n < b \<and> c \<in> set (radix b (n div b))"
    using 1(2-4) by (subst (asm) radix.simps) (auto split: if_splits)
  then show ?case using \<open>n mod b < b\<close> 1 by fastforce

qed

lemma radix_plain: "2 \<le> b \<Longrightarrow> b \<le> 16 \<Longrightarrow> c \<in> set ''_-+,:./xXoO '' \<Longrightarrow> c \<notin> set (radix b n)"
proof
  assume "2 \<le> b" "b \<le> 16" "c \<in> set ''_-+,:./xXoO ''" "c \<in> set (radix b n)"
  then obtain d where "d < b" "c = digit d" using set_radix by blast
  then show False using digit_plain [of d] \<open>b \<le> 16\<close> \<open>c \<in> set ''_-+,:./xXoO ''\<close> by force
qed

lemma uint_loop_append:
  "uint_loop sep b maxv n (xs @ ys) =
     (case uint_loop sep b maxv n xs of Inl e \<Rightarrow> Inl e | Inr m \<Rightarrow> uint_loop sep b maxv m ys)"
  by (induction xs arbitrary: n) (auto split: option.splits)

lemma uint_loop_radix:
  assumes "2 \<le> b" and "b \<le> 16"
  shows "uint_loop sep b maxv 0 (radix b n) = (if n \<le> maxv then Inr n else Inl ErrRange)"
  using assms
proof (induction b n rule: radix.induct)
  case (1 b n)
  have step: "uint_loop sep b maxv m [digit d] = (if m * b + d \<le> maxv then Inr (m * b + d) else Inl ErrRange)"
    if "d < b" for m d
    using that 1 digit_plain [of d] by auto
  show ?case
  proof (cases "n < b")
    case True
    then show ?thesis using step [of n 0] by (subst radix.simps) (simp del: uint_loop.simps)
  next
    case False
    have "n div b \<le> n" by simp
    then have "uint_loop sep b maxv (n div b) [digit (n mod b)] =
        (if n \<le> maxv then Inr n else Inl ErrRange)"
      using step [of "n mod b" "n div b"] 1 by simp
    moreover have "uint_loop sep b maxv 0 (radix b (n div b)) =
        (if n div b \<le> maxv then Inr (n div b) else Inl ErrRange)"
      using 1 False by simp
    moreover have "\<not> n div b \<le> maxv \<Longrightarrow> \<not> n \<le> maxv" using \<open>n div b \<le> n\<close> by linarith
    ultimately show ?thesis
      using 1 False by (subst radix.simps) (simp add: uint_loop_append del: uint_loop.simps)
  qed
qed


definition clamp :: "nat \<Rightarrow> nat \<Rightarrow> int \<times> num_error option" where
  "clamp bits n = (if n < 2 ^ (bits - 1) then (int n, None) else (2 ^ (bits - 1) - 1, Some ErrRange))"

lemma ParseUint_radix:
  assumes "2 \<le> b" and "b \<le> 16"
  shows "ParseUint (radix b n) b bits = (if n < 2 ^ bits then (n, None) else (2 ^ bits - 1, Some ErrRange))"
proof -
  have "n \<le> 2 ^ bits - 1 \<longleftrightarrow> n < 2 ^ bits" by (simp add: Suc_le_lessD less_Suc_eq_le [symmetric])
  then show ?thesis using assms by (simp add: ParseUint_def uint_loop_radix)
qed

lemma ParseInt_digits:
  assumes "s \<noteq> []" and "hd s \<notin> {CHR ''-'', CHR ''+''}" and "0 < bits"
    and "ParseUint s base bits = (if n < 2 ^ bits then (n, None) else (2 ^ bits - 1, Some ErrRange))"
  shows "ParseInt s base bits = clamp bits n"
proof -
  have lt: "(2 :: nat) ^ (bits - 1) < 2 ^ bits" using assms(3) by simp
  then have "(2 :: nat) ^ (bits - 1) \<le> 2 ^ bits - 1" by linarith
  with lt show ?thesis using assms by (auto simp: ParseInt_def clamp_def)
qed

lemma radix_hd: "2 \<le> b \<Longrightarrow> b \<le> 16 \<Longrightarrow> hd (radix b n) \<notin> {CHR ''-'', CHR ''+''}"
  using radix_plain [of b "hd (radix b n)" n] hd_in_set [OF radix_not_Nil, of b n] by auto

lemma ParseInt_radix:
  assumes "2 \<le> b" and "b \<le> 16" and "0 < bits"
  shows "ParseInt (radix b n) b bits = clamp bits n"
  using assms radix_hd [of b n] by (intro ParseInt_digits) (simp_all add: ParseUint_radix)

lemma Atoi_decimal: "Atoi (decimal n) = clamp 64 n"
  by (simp add: Atoi_def ParseInt_radix)

lemma ParseInt_hex:
  assumes "0 < bits"
  shows "ParseInt (''0x'' @ radix 16 n) 0 bits = clamp bits n"
proof (rule ParseInt_digits)
  obtain c cs where r: "radix 16 n = c # cs" by (cases "radix 16 n") auto
  have "n \<le> 2 ^ bits - 1 \<longleftrightarrow> n < 2 ^ bits" by (simp add: Suc_le_lessD less_Suc_eq_le [symmetric])
  moreover have "base_prefix (''0x'' @ radix 16 n) = (16, radix 16 n)"
    by (simp add: r base_prefix_def lower_def)
  moreover have "CHR ''_'' \<notin> set (radix 16 n)" using radix_plain [of 16] by simp
  ultimately show "ParseUint (''0x'' @ radix 16 n) 0 bits =
      (if n < 2 ^ bits then (n, None) else (2 ^ bits - 1, Some ErrRange))"
    by (simp add: ParseUint_def uint_loop_radix)
qed (use assms in auto)


end
