(* ===== verification/GoNet.thy ===== *)
theory GoNet
  imports GoText
begin

unbundle bit_operations_syntax

text \<open>
  What the Go code uses of the package \<^verbatim>\<open>net\<close>: addresses as byte slices of four or sixteen
  bytes, networks with their masks, and the textual forms. A nil slice is the empty list.
\<close>

section \<open>Addresses\<close>

type_synonym IP = bytes

definition v4InV6Prefix :: bytes where
  "v4InV6Prefix = replicate 10 0 @ [0xff, 0xff]"

definition To4 :: "IP \<Rightarrow> IP option" where
  "To4 ip =
     (if length ip = 4 then Some ip
      else if length ip = 16 \<and> take 12 ip = v4InV6Prefix then Some (drop 12 ip)
      else None)"

definition IPv4 :: "u8 \<Rightarrow> u8 \<Rightarrow> u8 \<Rightarrow> u8 \<Rightarrow> IP" where
  "IPv4 a b c d = v4InV6Prefix @ [a, b, c, d]"

definition IP_Equal :: "IP \<Rightarrow> IP \<Rightarrow> bool" where
  "IP_Equal ip x =
     (if length ip = length x then ip = x
      else if length ip = 4 \<and> length x = 16 then take 12 x = v4InV6Prefix \<and> ip = drop 12 x
      else if length ip = 16 \<and> length x = 4 then take 12 ip = v4InV6Prefix \<and> drop 12 ip = x
      else False)"

definition IsUnspecified :: "IP \<Rightarrow> bool" where
  "IsUnspecified ip = (IP_Equal ip (IPv4 0 0 0 0) \<or> IP_Equal ip (replicate 16 0))"

definition IsMulticast :: "IP \<Rightarrow> bool" where
  "IsMulticast ip =
     (case To4 ip of
        Some ip4 \<Rightarrow> hd ip4 AND 0xf0 = 0xe0
      | None \<Rightarrow> length ip = 16 \<and> hd ip = 0xff)"

lemma To4_cases:
  "length ip = 4 \<Longrightarrow> To4 ip = Some ip"
  "length ip = 4 \<Longrightarrow> To4 (v4InV6Prefix @ ip) = Some ip"
  by (auto simp: To4_def v4InV6Prefix_def)

text \<open>Two forms of one address are equal.\<close>

lemma IP_Equal_To4: "To4 ip = Some a \<Longrightarrow> To4 x = Some b \<Longrightarrow> IP_Equal ip x \<longleftrightarrow> a = b"
proof -
  assume ip: "To4 ip = Some a" and x: "To4 x = Some b"
  have "drop 12 ip = drop 12 x \<longleftrightarrow> ip = x" if "take 12 ip = take 12 x" for ip x :: IP
    using that append_take_drop_id by metis
  with ip x show ?thesis by (auto simp: To4_def IP_Equal_def split: if_splits)
qed

section \<open>Masks and networks\<close>

fun mask_bytes :: "nat \<Rightarrow> nat \<Rightarrow> bytes" where
  "mask_bytes 0 n = []"
| "mask_bytes (Suc l) n =
     (if n \<ge> 8 then 0xff # mask_bytes l (n - 8) else NOT (drop_bit n 0xff) # mask_bytes l 0)"

definition CIDRMask :: "nat \<Rightarrow> nat \<Rightarrow> bytes" where
  "CIDRMask ones bits =
     (if bits \<noteq> 32 \<and> bits \<noteq> 128 \<or> ones > bits then [] else mask_bytes (bits div 8) ones)"

text \<open>The number of leading one bits; \<^term>\<open>None\<close> when other one bits follow.\<close>

fun leading_ones :: "nat \<Rightarrow> u8 \<Rightarrow> nat" where
  "leading_ones 0 v = 0"
| "leading_ones (Suc k) v = (if v AND 0x80 \<noteq> 0 then Suc (leading_ones k (push_bit 1 v)) else 0)"

fun simpleMaskLength :: "bytes \<Rightarrow> nat option" where
  "simpleMaskLength [] = Some 0"
| "simpleMaskLength (v # vs) =
     (if v = 0xff then map_option ((+) 8) (simpleMaskLength vs)
      else let n = leading_ones 8 v
        in if push_bit n v = 0 \<and> list_all ((=) 0) vs then Some n else None)"

definition Mask_Size :: "bytes \<Rightarrow> nat \<times> nat" where
  "Mask_Size m = (case simpleMaskLength m of None \<Rightarrow> (0, 0) | Some n \<Rightarrow> (n, 8 * length m))"

record IPNet =
  net_IP :: IP
  net_Mask :: bytes

definition bytes_and :: "bytes \<Rightarrow> bytes \<Rightarrow> bytes" where
  "bytes_and = map2 (AND)"

definition IP_Mask :: "IP \<Rightarrow> bytes \<Rightarrow> IP" where
  "IP_Mask ip m =
     (let m = (if length m = 16 \<and> length ip = 4 \<and> take 12 m = replicate 12 0xff then drop 12 m else m);
          ip = (if length m = 4 \<and> length ip = 16 \<and> take 12 ip = v4InV6Prefix then drop 12 ip else ip)
      in if length ip \<noteq> length m then [] else bytes_and ip m)"


definition networkNumberAndMask :: "IPNet \<Rightarrow> (IP \<times> bytes) option" where
  "networkNumberAndMask n =
     (case (case To4 (net_IP n) of
              Some ip \<Rightarrow> Some ip
            | None \<Rightarrow> if length (net_IP n) = 16 then Some (net_IP n) else None) of
        None \<Rightarrow> None
      | Some ip \<Rightarrow>
          let m = net_Mask n in
          if length m = 4 then if length ip = 4 then Some (ip, m) else None
          else if length m = 16 then Some (ip, if length ip = 4 then drop 12 m else m)
          else None)"

definition IPNet_Contains :: "IPNet \<Rightarrow> IP \<Rightarrow> bool" where
  "IPNet_Contains n ip =
     (let ip = (case To4 ip of Some x \<Rightarrow> x | None \<Rightarrow> ip) in
      case networkNumberAndMask n of
        None \<Rightarrow> ip = []
      | Some (nn, m) \<Rightarrow> length ip = length nn \<and> bytes_and nn m = bytes_and ip m)"

section \<open>Membership is agreement of the leading bits\<close>

definition byte_bits :: "u8 \<Rightarrow> bool list" where
  "byte_bits b = map (bit b) [7, 6, 5, 4, 3, 2, 1, 0]"

definition addr_bits :: "bytes \<Rightarrow> bool list" where
  "addr_bits bs = concat (map byte_bits bs)"

lemma length_byte_bits [simp]: "length (byte_bits b) = 8"
  by (simp add: byte_bits_def)

lemma addr_bits_simps [simp]:
  "addr_bits [] = []" "addr_bits (b # bs) = byte_bits b @ addr_bits bs"
  by (simp_all add: addr_bits_def)

lemma length_addr_bits [simp]: "length (addr_bits bs) = 8 * length bs"
  by (induction bs) auto

lemma length_mask_bytes [simp]: "length (mask_bytes l n) = l"
  by (induction l n rule: mask_bytes.induct) auto

lemma less_8: "n < (8 :: nat) \<longleftrightarrow> n \<in> {0, 1, 2, 3, 4, 5, 6, 7}"
  by auto

lemma u8_eq_iff: "(a :: u8) = b \<longleftrightarrow> (\<forall>i \<in> {0, 1, 2, 3, 4, 5, 6, 7}. bit a i = bit b i)"
  by (rule iffI, simp) (rule bit_word_eqI, auto simp: less_8)

lemma byte_bits_inject: "byte_bits a = byte_bits b \<longleftrightarrow> a = b"
  by (auto simp: byte_bits_def u8_eq_iff)

lemma mask_byte_bits:
  assumes "n < 8"
  shows "a AND NOT (drop_bit n 0xff) = b AND NOT (drop_bit n 0xff) \<longleftrightarrow>
    take n (byte_bits a) = take n (byte_bits b)"
  using assms unfolding less_8
  by (elim insertE emptyE) (auto simp: byte_bits_def u8_eq_iff bit_simps)

lemma bytes_and_mask:
  assumes "length a = l" and "length b = l"
  shows "bytes_and a (mask_bytes l n) = bytes_and b (mask_bytes l n) \<longleftrightarrow>
    take n (addr_bits a) = take n (addr_bits b)"
  using assms
proof (induction l n arbitrary: a b rule: mask_bytes.induct)
  case (2 l n)
  obtain x a' y b' where ab: "a = x # a'" "b = y # b'" "length a' = l" "length b' = l"
    using 2(3,4) by (auto simp: length_Suc_conv)
  show ?case
  proof (cases "n \<ge> 8")
    case True
    have "(0xff :: u8) = - 1" by simp
    then have "x AND 0xff = y AND 0xff \<longleftrightarrow> x = y" by (simp only: and.right_neutral)
    then show ?thesis
      using True ab 2(1) [of a' b'] byte_bits_inject [of x y]
      by (simp add: bytes_and_def take_append)
  next
    case False
    then show ?thesis
      using ab 2(2) [of a' b'] mask_byte_bits [of n x y]
      by (simp add: bytes_and_def take_append)
  qed
qed (auto simp: bytes_and_def)


lemma bytes_and_idem: "bytes_and (bytes_and a m) m = bytes_and a m"
  by (auto simp: bytes_and_def list_eq_iff_nth_eq and.assoc)

lemma length_bytes_and [simp]: "length (bytes_and a m) = min (length a) (length m)"
  by (simp add: bytes_and_def)

lemma Contains_v4:
  assumes "To4 (net_IP net) = Some a" and "To4 ip = Some x"
    and "net_Mask net = mask_bytes 4 n"
  shows "IPNet_Contains net ip \<longleftrightarrow> take n (addr_bits a) = take n (addr_bits x)"
proof -
  have "length a = 4" "length x = 4" using assms by (auto simp: To4_def split: if_splits)
  then show ?thesis
    using assms bytes_and_mask [of a 4 x n]
    by (simp add: IPNet_Contains_def networkNumberAndMask_def)
qed

lemma leading_ones_mask:
  "n < 8 \<Longrightarrow> leading_ones 8 (NOT (drop_bit n 0xff)) = n \<and>
    push_bit n (NOT (drop_bit n 0xff)) = (0 :: u8) \<and> NOT (drop_bit n 0xff) \<noteq> (0xff :: u8)"
  unfolding less_8 by (elim insertE emptyE) (simp_all, code_simp+)

lemma mask_bytes_0: "list_all ((=) 0) (mask_bytes l 0)"
  by (induction l) auto

lemma simpleMaskLength_mask: "n \<le> 8 * l \<Longrightarrow> simpleMaskLength (mask_bytes l n) = Some n"
proof (induction l n rule: mask_bytes.induct)
  case (2 l n)
  then show ?case
    using leading_ones_mask [of n] mask_bytes_0 [of l] by (cases "n \<ge> 8") (auto simp: Let_def)
qed auto

section \<open>Textual forms\<close>

definition dotted :: "bytes \<Rightarrow> string" where
  "dotted bs = join ''.'' (map (\<lambda>b. decimal (unat b)) bs)"

text \<open>The first longest run of at least two zero groups: its start and length.\<close>

fun zero_run :: "nat \<Rightarrow> nat \<times> nat \<Rightarrow> nat list \<Rightarrow> nat \<times> nat" where
  "zero_run i best [] = best"
| "zero_run i best (g # gs) =
     (let l = length (takeWhile ((=) 0) (g # gs))
      in zero_run (Suc i) (if l \<ge> 2 \<and> l > snd best then (i, l) else best) gs)"

fun groups :: "bytes \<Rightarrow> nat list" where
  "groups (a # b # bs) = (256 * unat a + unat b) # groups bs"
| "groups _ = []"

definition string6 :: "bytes \<Rightarrow> string" where
  "string6 ip =
     (let gs = groups ip; (i, l) = zero_run 0 (0, 0) gs; hex = (\<lambda>gs. join '':'' (map (radix 16) gs))
      in if l = 0 then hex gs else hex (take i gs) @ ''::'' @ hex (drop (i + l) gs))"

definition hexString :: "bytes \<Rightarrow> string" where
  "hexString bs = concat (map (\<lambda>b. [digit (unat b div 16), digit (unat b mod 16)]) bs)"

definition IP_String :: "IP \<Rightarrow> string" where
  "IP_String ip =
     (if ip = [] then ''<nil>''
      else if length ip \<noteq> 4 \<and> length ip \<noteq> 16 then ''?'' @ hexString ip
      else case To4 ip of Some p4 \<Rightarrow> dotted p4 | None \<Rightarrow> string6 ip)"

definition IPNet_String :: "IPNet option \<Rightarrow> string" where
  "IPNet_String n =
     (case Option.bind n networkNumberAndMask of
        None \<Rightarrow> ''<nil>''
      | Some (nn, m) \<Rightarrow>
          IP_String nn @ ''/'' @
          (case simpleMaskLength m of None \<Rightarrow> hexString m | Some l \<Rightarrow> decimal l))"

text \<open>Reading a field of a dotted address: digits only, no leading zero, at most 255.\<close>

definition is_digit :: "char \<Rightarrow> bool" where
  "is_digit c = (CHR ''0'' \<le> c \<and> c \<le> CHR ''9'')"

definition decimal_value :: "string \<Rightarrow> nat" where
  "decimal_value s = foldl (\<lambda>n c. n * 10 + (of_char c - 48)) 0 s"

definition parse_octet :: "string \<Rightarrow> u8 option" where
  "parse_octet s =
     (if s \<noteq> [] \<and> list_all is_digit s \<and> (length s > 1 \<longrightarrow> hd s \<noteq> CHR ''0'') \<and> decimal_value s \<le> 255
      then Some (of_nat (decimal_value s)) else None)"

fun parse_all :: "('a \<Rightarrow> 'b option) \<Rightarrow> 'a list \<Rightarrow> 'b list option" where
  "parse_all f [] = Some []"
| "parse_all f (x # xs) =
     (case f x of None \<Rightarrow> None | Some y \<Rightarrow> map_option ((#) y) (parse_all f xs))"

definition parseIPv4 :: "string \<Rightarrow> bytes option" where
  "parseIPv4 s = (let fs = Split (CHR ''.'') s in if length fs = 4 then parse_all parse_octet fs else None)"

definition is_hex :: "char \<Rightarrow> bool" where
  "is_hex c = (case digit_value c of None \<Rightarrow> False | Some d \<Rightarrow> d < 16)"

definition hex_value :: "string \<Rightarrow> nat" where
  "hex_value s = foldl (\<lambda>n c. n * 16 + the (digit_value c)) 0 s"

text \<open>
  The loop over the groups of an IPv6 address: the rest of the text, the bytes so far and the place of
  the ellipsis. A group followed by a dot starts a trailing dotted address.
\<close>

function parse6_loop :: "string \<Rightarrow> bytes \<Rightarrow> nat option \<Rightarrow> (bytes \<times> nat option) option" where
  "parse6_loop s ip e =
     (if length ip \<ge> 16 then if s = [] then Some (ip, e) else None
      else
        let h = takeWhile is_hex s; r = dropWhile is_hex s;
            ip' = ip @ [of_nat (hex_value h div 256), of_nat (hex_value h mod 256)] in
        if h = [] \<or> length h > 4 then None
        else if r \<noteq> [] \<and> hd r = CHR ''.'' then
          if e = None \<and> length ip \<noteq> 12 \<or> length ip + 4 > 16 then None
          else map_option (\<lambda>q. (ip @ q, e)) (parseIPv4 s)
        else if r = [] then Some (ip', e)
        else if hd r \<noteq> CHR '':'' \<or> tl r = [] then None
        else if hd (tl r) = CHR '':'' then
          if e \<noteq> None then None
          else if tl (tl r) = [] then Some (ip', Some (length ip'))
          else parse6_loop (tl (tl r)) ip' (Some (length ip'))
        else parse6_loop (tl r) ip' e)"
  by pat_completeness auto
termination
  by (relation "measure (\<lambda>(s, ip, e). 16 - length ip)") auto

declare parse6_loop.simps [simp del]

definition parse6_end :: "bytes \<times> nat option \<Rightarrow> bytes option" where
  "parse6_end r =
     (case r of
        (ip, None) \<Rightarrow> if length ip < 16 then None else Some ip
      | (ip, Some k) \<Rightarrow>
          if length ip < 16 then Some (take k ip @ replicate (16 - length ip) 0 @ drop k ip) else None)"

text \<open>The address and the zone.\<close>

definition parseIPv6 :: "string \<Rightarrow> (bytes \<times> string) option" where
  "parseIPv6 t =
     (let s = takeWhile ((\<noteq>) (CHR ''%'')) t; z = dropWhile ((\<noteq>) (CHR ''%'')) t in
      if z \<noteq> [] \<and> tl z = [] then None
      else map_option (\<lambda>ip. (ip, tl z))
        (if take 2 s = ''::'' then
           if drop 2 s = [] then Some (replicate 16 0)
           else Option.bind (parse6_loop (drop 2 s) [] (Some 0)) parse6_end
         else Option.bind (parse6_loop s [] None) parse6_end))"

datatype addr = Addr4 bytes | Addr6 bytes string

definition ParseAddr :: "string \<Rightarrow> addr option" where
  "ParseAddr s =
     (case filter (\<lambda>c. c \<in> {CHR ''.'', CHR '':'', CHR ''%''}) s of
        [] \<Rightarrow> None
      | c # _ \<Rightarrow>
          if c = CHR ''.'' then map_option Addr4 (parseIPv4 s)
          else if c = CHR '':'' then map_option (\<lambda>(ip, z). Addr6 ip z) (parseIPv6 s)
          else None)"

definition ParseIP :: "string \<Rightarrow> IP option" where
  "ParseIP s =
     (case ParseAddr s of
        Some (Addr4 a) \<Rightarrow> Some (v4InV6Prefix @ a)
      | Some (Addr6 a z) \<Rightarrow> if z = [] then Some a else None
      | None \<Rightarrow> None)"

text \<open>The network of an address and a prefix length; the address part of the result is not used.\<close>

definition ParseCIDR :: "string \<Rightarrow> IPNet option" where
  "ParseCIDR s =
     (let a = takeWhile ((\<noteq>) (CHR ''/'')) s; r = dropWhile ((\<noteq>) (CHR ''/'')) s; m = tl r in
      if r = [] then None
      else case ParseAddr a of
        None \<Rightarrow> None
      | Some ad \<Rightarrow>
          (case ad of
             Addr4 x \<Rightarrow> (if m \<noteq> [] \<and> list_all is_digit m \<and> decimal_value m \<le> 32
               then let k = CIDRMask (decimal_value m) 32
                 in Some \<lparr>net_IP = IP_Mask (v4InV6Prefix @ x) k, net_Mask = k\<rparr> else None)
           | Addr6 x z \<Rightarrow> (if z = [] \<and> m \<noteq> [] \<and> list_all is_digit m \<and> decimal_value m \<le> 128
               then let k = CIDRMask (decimal_value m) 128
                 in Some \<lparr>net_IP = IP_Mask x k, net_Mask = k\<rparr> else None)))"



section \<open>Reading printed addresses and networks\<close>

lemma digit_is_digit: "d < 10 \<Longrightarrow> is_digit (digit d) \<and> of_char (digit d) - 48 = d"
proof -
  have "list_all (\<lambda>d. is_digit (digit d) \<and> of_char (digit d) - 48 = d) [0..<10]" by code_simp
  then show "d < 10 \<Longrightarrow> is_digit (digit d) \<and> of_char (digit d) - 48 = d" by (simp add: list_all_iff)
qed

lemma decimal_is_digit: "list_all is_digit (decimal n)"
  using set_radix [of 10 _ n] digit_is_digit by (fastforce simp: list_all_iff)

lemma decimal_value_decimal [simp]: "decimal_value (decimal n) = n"
proof (induction "10 :: nat" n rule: radix.induct)
  case (1 n)
  have "n mod 10 < 10" by simp
  then show ?case
    using 1 digit_is_digit [of n] digit_is_digit [of "n mod 10"]
    by (subst radix.simps) (auto simp: decimal_value_def)
qed

lemma hd_radix_nonzero: "0 < n \<Longrightarrow> 2 \<le> b \<Longrightarrow> b \<le> 16 \<Longrightarrow> hd (radix b n) \<noteq> CHR ''0''"
proof (induction b n rule: radix.induct)
  case (1 b n)
  have digit_0: "digit d = CHR ''0'' \<Longrightarrow> d < 16 \<Longrightarrow> d = 0" for d
    using digit_value_digit [of d] by (simp add: digit_value_def)
  show ?case
  proof (cases "n < b")
    case True
    then show ?thesis using 1 digit_0 [of n] by (subst radix.simps) auto
  next
    case False
    then have "0 < n div b" using 1 by (simp add: div_greater_zero_iff)
    then show ?thesis using 1 False by (subst radix.simps) auto
  qed
qed

lemma parse_octet_decimal [simp]: "parse_octet (decimal (unat b)) = Some b"
proof -
  have "hd (decimal (unat b)) \<noteq> CHR ''0''" if "length (decimal (unat b)) > 1"
  proof (cases "unat b = 0")
    case True
    then show ?thesis using that by (simp add: radix.simps)
  qed (simp add: hd_radix_nonzero)
  moreover have "unat b < 2 ^ LENGTH(8)" by (rule unsigned_less)
  then have "unat b \<le> 255" by simp
  ultimately show ?thesis by (simp add: parse_octet_def decimal_is_digit)
qed

lemma parse_all_map: "(\<And>x. x \<in> set xs \<Longrightarrow> f (g x) = Some x) \<Longrightarrow> parse_all f (map g xs) = Some xs"
  by (induction xs) auto

lemma Split_dotted: "bs \<noteq> [] \<Longrightarrow> Split (CHR ''.'') (dotted bs) = map (\<lambda>b. decimal (unat b)) bs"
  unfolding dotted_def using radix_plain [of 10] by (intro Split_join) auto

lemma parseIPv4_dotted: "length bs = 4 \<Longrightarrow> parseIPv4 (dotted bs) = Some bs"
  using Split_dotted [of bs] parse_all_map [of bs parse_octet "\<lambda>b. decimal (unat b)"]
  by (cases bs) (auto simp: parseIPv4_def)

lemma set_join: "set (join sep ws) \<subseteq> set sep \<union> (\<Union>w \<in> set ws. set w)"
  by (induction sep ws rule: join.induct) auto

lemma dotted_chars: "c \<in> set (dotted bs) \<Longrightarrow> is_digit c \<or> c = CHR ''.''"
  using set_join [of "''.''" "map (\<lambda>b. decimal (unat b)) bs"] decimal_is_digit
  by (fastforce simp: dotted_def list_all_iff)

lemma dotted_plain: "c \<in> set (dotted bs) \<Longrightarrow> c \<noteq> CHR ''/'' \<and> c \<noteq> CHR '':'' \<and> c \<noteq> CHR ''%''"
  using dotted_chars [of c bs] by (auto simp: is_digit_def)

lemma ParseAddr_dotted:
  assumes "length bs = 4"
  shows "ParseAddr (dotted bs) = Some (Addr4 bs)"
proof -
  obtain a b c d where bs: "bs = [a, b, c, d]"
    using assms by (auto simp: length_Suc_conv numeral_eq_Suc)
  then have "CHR ''.'' \<in> set (dotted bs)" by (simp add: dotted_def)
  then have "filter (\<lambda>c. c \<in> {CHR ''.'', CHR '':'', CHR ''%''}) (dotted bs) \<noteq> []"
    by (auto simp: filter_empty_conv)
  then obtain x xs where f: "filter (\<lambda>c. c \<in> {CHR ''.'', CHR '':'', CHR ''%''}) (dotted bs) = x # xs"
    by (cases "filter (\<lambda>c. c \<in> {CHR ''.'', CHR '':'', CHR ''%''}) (dotted bs)") auto
  then have "x \<in> set (filter (\<lambda>c. c \<in> {CHR ''.'', CHR '':'', CHR ''%''}) (dotted bs))" by simp
  then have "x = CHR ''.''" using dotted_plain [of x bs] by auto
  then show ?thesis using f parseIPv4_dotted [OF assms] by (simp add: ParseAddr_def)
qed

lemma ParseIP_dotted: "length bs = 4 \<Longrightarrow> ParseIP (dotted bs) = Some (v4InV6Prefix @ bs)"
  by (simp add: ParseIP_def ParseAddr_dotted)

lemma IP_String_v4: "To4 ip = Some bs \<Longrightarrow> IP_String ip = dotted bs"
  by (auto simp: IP_String_def To4_def split: if_splits)

lemma takeWhile_slash: "takeWhile ((\<noteq>) (CHR ''/'')) (dotted bs @ CHR ''/'' # m) = dotted bs"
  "dropWhile ((\<noteq>) (CHR ''/'')) (dotted bs @ CHR ''/'' # m) = CHR ''/'' # m"
  using dotted_plain [of _ bs] by (auto simp: takeWhile_append dropWhile_append)

lemma ParseCIDR_dotted:
  assumes "length bs = 4" and "n \<le> 32"
  shows "ParseCIDR (dotted bs @ CHR ''/'' # decimal n) =
    Some \<lparr>net_IP = bytes_and bs (mask_bytes 4 n), net_Mask = mask_bytes 4 n\<rparr>"
proof -
  have "IP_Mask (v4InV6Prefix @ bs) (mask_bytes 4 n) = bytes_and bs (mask_bytes 4 n)"
    using assms by (simp add: IP_Mask_def v4InV6Prefix_def)
  then show ?thesis
    using assms
    by (simp add: ParseCIDR_def takeWhile_slash ParseAddr_dotted decimal_is_digit CIDRMask_def Let_def)
qed

lemma decimal_inj: "decimal m = decimal n \<longleftrightarrow> m = n"
  by (metis decimal_value_decimal)

lemma dotted_inj: "length a = 4 \<Longrightarrow> length b = 4 \<Longrightarrow> dotted a = dotted b \<longleftrightarrow> a = b"
  by (metis option.inject parseIPv4_dotted)

end
