(* ===== verification/Export.thy ===== *)
theory Export
  imports TaskAgent GoNet "HOL-Library.Log_Nat"
begin

unbundle bit_operations_syntax

text \<open>
  How the exporter presents what the probes report: the textual forms of
  \<^verbatim>\<open>src/pkg/exporter/bpfutil/format.go\<close> and the labels of metrics and events,
  \<^verbatim>\<open>src/pkg/exporter/probe/legacy.go\<close>, with the owners of addresses from the address table.
\<close>

section \<open>Textual forms\<close>

definition GetAddrStr :: "u16 \<Rightarrow> bytes \<Rightarrow> string" where
  "GetAddrStr proto addr = (if proto = 0x86dd then IP_String addr else IP_String (take 4 addr))"

definition GetV4AddrStr :: "u32 \<Rightarrow> string" where
  "GetV4AddrStr addr =
     dotted [ucast (addr AND 0xff), ucast (drop_bit 8 addr AND 0xff), ucast (drop_bit 16 addr AND 0xff),
       ucast (drop_bit 24 addr AND 0xff)]"

definition Htons :: "u16 \<Rightarrow> u16" where
  "Htons i = le_word (word_be i)"

definition GetSkcStateStr :: "u8 \<Rightarrow> string" where
  "GetSkcStateStr state =
     (if state = 1 then ''TCP_ESTABLISHED'' else if state = 2 then ''TCP_SYN_SENT''
      else if state = 3 then ''TCP_SYN_RECV'' else if state = 10 then ''TCP_LISTEN'' else ''TCP_OTHER'')"

definition GetProtoStr :: "u8 \<Rightarrow> string" where
  "GetProtoStr proto =
     (if proto = 6 then ''TCP'' else if proto = 17 then ''UDP'' else if proto = 1 then ''ICMP''
      else if proto = 58 then ''ICMP6'' else ''IP'')"

definition GetHumanTimes :: "u64 \<Rightarrow> string" where
  "GetHumanTimes ns =
     (if ns > 1000 * 1000 then decimal (unat (ns div (1000 * 1000))) @ '' ms''
      else if ns > 1000 then decimal (unat (ns div 1000)) @ '' us''
      else decimal (unat ns) @ '' ns'')"

section \<open>Labels\<close>

record Tuple_t =
  t_Protocol :: u8
  t_Sport :: u16
  t_Dport :: u16
  t_Src :: string
  t_Dst :: string

definition TupleMetricsLabels :: "string list" where
  "TupleMetricsLabels = [''protocol'', ''src'', ''src_type'', ''src_node'', ''src_namespace'', ''src_pod'',
     ''dst'', ''dst_type'', ''dst_node'', ''dst_namespace'', ''dst_pod'', ''sport'', ''dport'']"

definition ipInfo :: "nettop_IPCache \<Rightarrow> string \<Rightarrow> string list" where
  "ipInfo cache ip =
     (case GetIPInfo ip cache of
        None \<Rightarrow> [''unknown'', '''', '''', '''']
      | Some info \<Rightarrow>
          if ii_Type info = IPTypeNode then [''node'', ii_NodeName info, '''', '''']
          else if ii_Type info = IPTypePod then [''pod'', '''', ii_PodNamespace info, ii_PodName info]
          else [''unknown'', '''', '''', ''''])"

definition BuildTupleMetricsLabels :: "nettop_IPCache \<Rightarrow> Tuple_t \<Rightarrow> string list" where
  "BuildTupleMetricsLabels cache t =
     [GetProtoStr (t_Protocol t)] @ [t_Src t] @ ipInfo cache (t_Src t) @ [t_Dst t] @ ipInfo cache (t_Dst t) @
     [decimal (unat (t_Sport t))] @ [decimal (unat (t_Dport t))]"

record Label =
  l_Name :: string
  l_Value :: string

text \<open>
  The values are assigned by the cases and once more behind them; the deferred function then makes the
  labels of the last values.
\<close>

definition event_values :: "nettop_IPCache \<Rightarrow> string \<Rightarrow> string list" where
  "event_values cache ip =
     (case GetIPInfo ip cache of
        None \<Rightarrow> [''unknown'', '''', '''', '''']
      | Some info \<Rightarrow>
          let values =
            (if ii_Type info = IPTypeNode then [''node'', ii_NodeName info, '''', '''']
             else if ii_Type info = IPTypePod then [''pod'', '''', ii_PodNamespace info, ii_PodName info]
             else ['''', '''', '''', '''']);
            values = [''unknown'', '''', '''', '''']
          in values)"

definition event_ipInfo :: "nettop_IPCache \<Rightarrow> string \<Rightarrow> string \<Rightarrow> Label list" where
  "event_ipInfo cache prefix ip =
     (let values = event_values cache ip in
      [\<lparr>l_Name = prefix @ ''_type'', l_Value = values ! 0\<rparr>,
       \<lparr>l_Name = prefix @ ''_node'', l_Value = values ! 1\<rparr>,
       \<lparr>l_Name = prefix @ ''_namespace'', l_Value = values ! 2\<rparr>,
       \<lparr>l_Name = prefix @ ''_pod'', l_Value = values ! 3\<rparr>])"

definition BuildTupleEventLabels :: "nettop_IPCache \<Rightarrow> Tuple_t \<Rightarrow> Label list" where
  "BuildTupleEventLabels cache t =
     [\<lparr>l_Name = ''protocol'', l_Value = GetProtoStr (t_Protocol t)\<rparr>] @
     [\<lparr>l_Name = ''src'', l_Value = t_Src t\<rparr>] @ event_ipInfo cache ''src'' (t_Src t) @
     [\<lparr>l_Name = ''dst'', l_Value = t_Dst t\<rparr>] @ event_ipInfo cache ''dst'' (t_Dst t) @
     [\<lparr>l_Name = ''sport'', l_Value = decimal (unat (t_Sport t))\<rparr>] @
     [\<lparr>l_Name = ''dport'', l_Value = decimal (unat (t_Dport t))\<rparr>]"

section \<open>Samples\<close>

text \<open>
  The conversion of an unsigned number to \<^verbatim>\<open>float64\<close>: the nearest multiple of the spacing that doubles
  have at the number, the even one of two equally near. All values are whole numbers.
\<close>

definition float64_spacing :: "nat \<Rightarrow> nat" where
  "float64_spacing n = 2 ^ (floorlog 2 n - 53)"

definition float64 :: "nat \<Rightarrow> nat" where
  "float64 n =
     (let ulp = float64_spacing n; q = n div ulp; r = n mod ulp
      in (if 2 * r > ulp \<or> 2 * r = ulp \<and> odd q then q + 1 else q) * ulp)"

text \<open>Numbers below \<^verbatim>\<open>2^53\<close> are exact; beyond them the relative error is at most \<^verbatim>\<open>2^-53\<close>.\<close>

lemma float64_exact: "n < 2 ^ 53 \<Longrightarrow> float64 n = n"
  by (simp add: float64_def float64_spacing_def floorlog_le_iff [of 2 n 53])

lemma float64_near: "2 * \<bar>int (float64 n) - int n\<bar> \<le> int (float64_spacing n)"
proof -
  define u where "u = float64_spacing n"
  define q where "q = n div u"
  define r where "r = n mod u"
  have u: "0 < u" by (simp add: u_def float64_spacing_def)
  have n: "int n = int q * int u + int r"
    unfolding q_def r_def by (metis div_mult_mod_eq of_nat_add of_nat_mult)
  have r: "r < u" unfolding r_def using u by simp
  show ?thesis
    unfolding float64_def Let_def u_def [symmetric] q_def [symmetric] r_def [symmetric]
    using n r by (auto simp: algebra_simps)
qed

lemma float64_relative: "2 ^ 53 * \<bar>int (float64 n) - int n\<bar> \<le> int n"
proof (cases "n < 2 ^ 53")
  case False
  then have L: "53 < floorlog 2 n" using floorlog_le_iff [of 2 n 53] by auto
  moreover have "0 < n" using False by (cases n) auto
  ultimately have "2 ^ (floorlog 2 n - 1) \<le> n" using floorlog_bounds [of n 2] by simp
  moreover have "(2::nat) ^ (floorlog 2 n - 1) = 2 ^ 52 * float64_spacing n"
  proof -
    have "floorlog 2 n - 1 = 52 + (floorlog 2 n - 53)" using L by simp
    then show ?thesis unfolding float64_spacing_def by (simp only: power_add)
  qed
  ultimately have "2 ^ 52 * int (float64_spacing n) \<le> int n"
    by (metis of_nat_le_iff of_nat_mult of_nat_numeral of_nat_power)
  with float64_near [of n] show ?thesis by simp
qed (simp add: float64_exact)

lemma float64_u32: "float64 (unat (x :: u32)) = unat x"
proof -
  have "unat x < 2 ^ 32" using unsigned_less [where 'a = nat, of x] by simp
  then show ?thesis by (intro float64_exact) simp
qed

text \<open>An emitted metric: its name, the values of its labels and its value.\<close>

type_synonym emission = "string \<times> string list \<times> nat"

section \<open>What the labels say\<close>

lemma length_ipInfo [simp]: "length (ipInfo cache ip) = 4"
  by (simp add: ipInfo_def split: option.splits)

text \<open>The labels of a metric are as many as their names.\<close>

lemma length_metrics_labels: "length (BuildTupleMetricsLabels cache t) = length TupleMetricsLabels"
  by (simp add: BuildTupleMetricsLabels_def TupleMetricsLabels_def)

text \<open>The labels of an event never name the owner of an address.\<close>

lemma event_labels_unknown:
  "BuildTupleEventLabels cache t = BuildTupleEventLabels init_IPCache t"
  by (simp add: BuildTupleEventLabels_def event_ipInfo_def event_values_def Let_def split: option.splits)

lemma word_le_u32:
  "word_le (a :: u32) = [ucast (a AND 0xff), ucast (drop_bit 8 a AND 0xff), ucast (drop_bit 16 a AND 0xff),
     ucast (drop_bit 24 a AND 0xff)]"
proof (rule nth_equalityI)
  fix i assume "i < length (word_le a)"
  then have "i = 0 \<or> i = 1 \<or> i = 2 \<or> i = 3" by auto
  moreover have ff: "(0xff :: u32) = mask 8" by (simp add: mask_eq_exp_minus_1)
  have "(ucast (drop_bit n a AND 0xff) :: u8) = ucast (drop_bit n a)" for n
    unfolding ff by (intro bit_word_eqI) (auto simp: bit_simps)
  note this this [of 0]
  ultimately show "word_le a ! i = [ucast (a AND 0xff), ucast (drop_bit 8 a AND 0xff),
      ucast (drop_bit 16 a AND 0xff), ucast (drop_bit 24 a AND 0xff)] ! i"
    by (auto simp: nth_word_le)
qed simp

lemma GetV4AddrStr_dotted: "GetV4AddrStr a = dotted (word_le a)"
  by (simp add: GetV4AddrStr_def word_le_u32)

end
