(* ===== verification/FlowExport.thy ===== *)
theory FlowExport
  imports Flow Export "HOL-Library.AList"
begin

text \<open>
  The flow metrics as the exporter publishes them, \<^verbatim>\<open>src/pkg/exporter/probe/flow/flow.go\<close>: the
  collection of the flow table of the kernel into labelled counters, and the choice of the interfaces
  the program is attached to. Iterating the table and watching the links of the machine are library
  calls; what they deliver is an argument.
\<close>

section \<open>Collection\<close>

definition flow_toProbeTuple :: "flow_tuple_4 \<Rightarrow> Tuple_t" where
  "flow_toProbeTuple t =
     \<lparr>t_Protocol = ft_proto t, t_Sport = ft_sport t, t_Dport = ft_dport t,
      t_Src = GetV4AddrStr (ft_src t), t_Dst = GetV4AddrStr (ft_dst t)\<rparr>"


text \<open>The iterator delivers a key and its values, one for every possible CPU.\<close>

definition collect_entry :: "nettop_IPCache \<Rightarrow> flow_tuple_4 \<times> flow_metrics list \<Rightarrow> emission list" where
  "collect_entry cache e =
     (let (nb, np) = foldl (\<lambda>(b, p) v. (b + nbytes v, p + packets v)) (0, 0) (snd e);
          labels = BuildTupleMetricsLabels cache (flow_toProbeTuple (fst e))
      in [(''bytes'', labels, float64 (unat nb)), (''packets'', labels, float64 (unat np))])"

definition flow_collectOnce :: "nettop_IPCache \<Rightarrow> (flow_tuple_4 \<times> flow_metrics list) list \<Rightarrow> emission list" where
  "flow_collectOnce cache entries = concat (map (collect_entry cache) entries)"

lemma collect_entry_sums:
  "collect_entry cache (key, vs) =
     (let labels = BuildTupleMetricsLabels cache (flow_toProbeTuple key)
      in [(''bytes'', labels, float64 (unat (sum_list (map nbytes vs)))),
          (''packets'', labels, float64 (unat (sum_list (map packets vs))))])"
proof -
  have "foldl (\<lambda>(b, p) v. (b + nbytes v, p + packets v)) (b, p) vs =
      (b + sum_list (map nbytes vs), p + sum_list (map packets vs))" for b p
    by (induction vs arbitrary: b p) (simp_all add: add.assoc)
  then show ?thesis by (simp add: collect_entry_def)
qed

section \<open>The table and the iterator\<close>

text \<open>Nothing is counted for CPUs that the machine does not have.\<close>

definition cpu_bounded :: "nat \<Rightarrow> flow \<Rightarrow> bool" where
  "cpu_bounded n s \<longleftrightarrow>
     (\<forall>key v c. hash_lookup (insp_flow4_metrics s) key = Some v \<longrightarrow> n \<le> unat c \<longrightarrow> v c = zero_flow_metrics)"

lemma map_of_filter_fst: "map_of (filter (\<lambda>p. P (fst p)) ps) key = (if P key then map_of ps key else None)"
  by (induction ps) auto

lemma hash_lookup_filter:
  "hash_lookup (m\<lparr>hash_ents := filter (\<lambda>p. P (fst p)) (hash_ents m)\<rparr>) key =
     (if P key then hash_lookup m key else None)"
  by (simp add: hash_lookup_def map_of_filter_fst)


lemma lookup_flow_count:
  assumes "hash_lookup (flow_count evict (\<lambda>c. zero_flow_metrics) k key n m) key' = Some v"
  shows "hash_lookup m key' = Some v \<or>
    (\<exists>w x. v = w(k_cpu k := x) \<and> (w = (\<lambda>c. zero_flow_metrics) \<or> hash_lookup m key' = Some w))"
  using assms
  by (auto simp: flow_count_def percpu_modify_def lru_percpu_update_def percpu_update_def Let_def
      hash_lookup_update hash_lookup_filter [where P = "\<lambda>x. \<not> evict (hash_ents m) x"]
      split: if_splits option.splits)

lemma cpu_bounded_run:
  assumes "flow_run evict (\<lambda>c. zero_flow_metrics) xs s = Some s'" and "cpu_bounded n s"
    and "\<forall>(k, e) \<in> set xs. wire_layout (k_off k) \<and> unat (k_cpu k) < n"
  shows "cpu_bounded n s'"
  using assms
proof (induction xs arbitrary: s)
  case (Cons x xs)
  obtain k e where x: "x = (k, e)" by (cases x)
  have k: "wire_layout (k_off k)" "unat (k_cpu k) < n" using Cons.prems(3) by (auto simp: x)
  have count: "cpu_bounded n (s\<lparr>insp_flow4_metrics :=
      flow_count evict (\<lambda>c. zero_flow_metrics) k key len (insp_flow4_metrics s)\<rparr>)" for key len
    using Cons.prems(2) k(2) lookup_flow_count unfolding cpu_bounded_def
    by (fastforce simp: fun_upd_def)
  show ?case
    using Cons count by (auto simp: x do_flow_eq [OF k(1)] split: option.splits)
qed simp

definition possible_cpus :: "nat \<Rightarrow> (u32 \<Rightarrow> 'v) \<Rightarrow> 'v list" where
  "possible_cpus n v = map (\<lambda>i. v (of_nat i)) [0..<n]"

text \<open>What a complete iteration of the table delivers, on a machine with the given number of CPUs.\<close>

definition iterates :: "nat \<Rightarrow> flow \<Rightarrow> (flow_tuple_4 \<times> flow_metrics list) list \<Rightarrow> bool" where
  "iterates n s entries \<longleftrightarrow>
     distinct (map fst entries) \<and>
     map_of entries = (\<lambda>key. map_option (possible_cpus n) (hash_lookup (insp_flow4_metrics s) key))"

lemma sum_possible_cpus:
  fixes f :: "flow_metrics \<Rightarrow> u64"
  assumes "n \<le> 2 ^ 32" and "\<And>c. n \<le> unat c \<Longrightarrow> v c = zero_flow_metrics" and "f zero_flow_metrics = 0"
  shows "sum_list (map f (possible_cpus n v)) = (\<Sum>c\<in>UNIV. f (v c))"
proof -
  have inj: "inj_on (of_nat :: nat \<Rightarrow> u32) {0..<n}"
  proof (rule inj_onI)
    fix i j assume "i \<in> {0..<n}" "j \<in> {0..<n}" "(of_nat i :: u32) = of_nat j"
    then show "i = j"
      using assms(1) by (simp add: unsigned_of_nat take_bit_nat_eq_self word_unat_eq_iff)
  qed
  have "sum_list (map f (possible_cpus n v)) = (\<Sum>i = 0..<n. f (v (of_nat i)))"
    by (simp add: possible_cpus_def comp_def interv_sum_list_conv_sum_set_nat)
  also have "\<dots> = (\<Sum>c \<in> of_nat ` {0..<n}. f (v c))"
    by (simp add: sum.reindex [OF inj])
  also have "\<dots> = (\<Sum>c\<in>UNIV. f (v c))"
  proof (rule sum.mono_neutral_left)
    show "\<forall>c \<in> UNIV - of_nat ` {0..<n}. f (v c) = 0"
    proof
      fix c :: u32 assume "c \<in> UNIV - of_nat ` {0..<n}"
      moreover have "c = of_nat (unat c)" by simp
      ultimately have "\<not> unat c < n" by (metis DiffD2 atLeastLessThan_iff imageI le0)
      then have "n \<le> unat c" by simp
      then show "f (v c) = 0" using assms(2,3) by simp
    qed
  qed auto
  finally show ?thesis .
qed

text \<open>The metrics of a key are the totals of the table.\<close>

lemma collect_key:
  assumes "iterates n s entries" and "cpu_bounded n s" and "n \<le> 2 ^ 32"
    and "(key, vs) \<in> set entries"
  shows "collect_entry cache (key, vs) =
    (let labels = BuildTupleMetricsLabels cache (flow_toProbeTuple key)
     in [(''bytes'', labels, float64 (unat (total_bytes s key))),
         (''packets'', labels, float64 (unat (total_packets s key)))])"
proof -
  have "map_of entries key = Some vs"
    using map_of_is_SomeI [of entries key vs] assms(1,4) unfolding iterates_def by blast
  then obtain v where v: "hash_lookup (insp_flow4_metrics s) key = Some v" "vs = possible_cpus n v"
    using assms(1) by (auto simp: iterates_def)
  have zero: "v c = zero_flow_metrics" if "n \<le> unat c" for c
    using assms(2) v(1) that by (auto simp: cpu_bounded_def)
  show ?thesis
    using sum_possible_cpus [OF assms(3) zero, where f = packets]
      sum_possible_cpus [OF assms(3) zero, where f = nbytes]
    by (simp add: collect_entry_sums v total_packets_def total_bytes_def)
qed

lemma iterates_exists: "\<exists>entries. iterates n s entries"
proof -
  let ?ents = "hash_ents (insp_flow4_metrics s)"
  have "iterates n s (map (\<lambda>(key, v). (key, possible_cpus n v)) (AList.clearjunk ?ents))"
    unfolding iterates_def map_of_map map_of_clearjunk
    by (simp add: comp_def case_prod_unfold distinct_clearjunk hash_lookup_def)
  then show ?thesis ..
qed

lemma cpu_bounded_init: "cpu_bounded n (flow_init sw)"
  by (simp add: cpu_bounded_def flow_init_def hash_lookup_def hash_empty_def)

text \<open>After any run a collection publishes the totals of exactly the keys that were counted.\<close>

lemma collect_run:
  assumes inv: "flow_inv sw cs s" and "cpu_bounded n s" and "n \<le> 2 ^ 32" and it: "iterates n s entries"
  shows "set (flow_collectOnce cache entries) =
    (\<Union>key \<in> fst ` set cs.
       {(''bytes'', BuildTupleMetricsLabels cache (flow_toProbeTuple key), float64 (unat (total_bytes s key))),
        (''packets'', BuildTupleMetricsLabels cache (flow_toProbeTuple key), float64 (unat (total_packets s key)))})"
proof -
  have "dom (map_of entries) = fst ` set cs"
    using inv it by (auto simp: flow_inv_def iterates_def dom_def)
  then have keys: "fst ` set entries = fst ` set cs" by (simp add: dom_map_of_conv_image_fst)
  have "set (flow_collectOnce cache entries) = (\<Union>e \<in> set entries. set (collect_entry cache e))"
    by (simp add: flow_collectOnce_def)
  also have "\<dots> = (\<Union>e \<in> set entries.
      {(''bytes'', BuildTupleMetricsLabels cache (flow_toProbeTuple (fst e)), float64 (unat (total_bytes s (fst e)))),
       (''packets'', BuildTupleMetricsLabels cache (flow_toProbeTuple (fst e)), float64 (unat (total_packets s (fst e))))})"
  proof (rule SUP_cong [OF refl])
    fix e assume "e \<in> set entries"
    then show "set (collect_entry cache e) =
      {(''bytes'', BuildTupleMetricsLabels cache (flow_toProbeTuple (fst e)), float64 (unat (total_bytes s (fst e)))),
       (''packets'', BuildTupleMetricsLabels cache (flow_toProbeTuple (fst e)), float64 (unat (total_packets s (fst e))))}"
      using collect_key [OF it assms(2,3), of "fst e" "snd e" cache] by (simp add: Let_def)
  qed
  finally show ?thesis unfolding keys [symmetric] by simp
qed

section \<open>One series per flow\<close>

lemma labels_eq_iff:
  "BuildTupleMetricsLabels cache t = BuildTupleMetricsLabels cache t' \<longleftrightarrow>
     GetProtoStr (t_Protocol t) = GetProtoStr (t_Protocol t') \<and> t_Src t = t_Src t' \<and> t_Dst t = t_Dst t' \<and>
     t_Sport t = t_Sport t' \<and> t_Dport t = t_Dport t'"
  by (auto simp: BuildTupleMetricsLabels_def decimal_inj word_unat_eq_iff)

lemma word_le_u32_inj: "word_le (a :: u32) = word_le b \<longleftrightarrow> a = b"
  by (metis le_word_word_le_widths(3))

lemma GetV4AddrStr_inj: "GetV4AddrStr a = GetV4AddrStr b \<longleftrightarrow> a = b"
  by (simp add: GetV4AddrStr_dotted dotted_inj word_le_u32_inj)

lemma GetProtoStr_eq_iff:
  "GetProtoStr p = GetProtoStr q \<longleftrightarrow> p = q \<or> p \<notin> {6, 17, 1, 58} \<and> q \<notin> {6, 17, 1, 58}"
  by (auto simp: GetProtoStr_def)

text \<open>
  C33: two keys of the flow table are published under the same labels exactly when they
  agree in addresses and ports and either in the protocol too or both have a protocol that is none of
  TCP, UDP, ICMP and ICMPv6. Flows of two such protocols between the same hosts therefore give two
  samples of one series.
\<close>

theorem flow_series_collide:
  "BuildTupleMetricsLabels cache (flow_toProbeTuple a) = BuildTupleMetricsLabels cache (flow_toProbeTuple b) \<longleftrightarrow>
     ft_src a = ft_src b \<and> ft_dst a = ft_dst b \<and> ft_sport a = ft_sport b \<and> ft_dport a = ft_dport b \<and>
     (ft_proto a = ft_proto b \<or> ft_proto a \<notin> {6, 17, 1, 58} \<and> ft_proto b \<notin> {6, 17, 1, 58})"
  by (auto simp: labels_eq_iff flow_toProbeTuple_def GetV4AddrStr_inj GetProtoStr_eq_iff)

section \<open>Interfaces\<close>

text \<open>The interface argument: none, a pattern that ends in a star, or a name.\<close>

datatype flow_device = DefaultRouteDevice | DevicePattern string | DeviceName string

definition flow_helper :: "string \<Rightarrow> flow_device" where
  "flow_helper dev =
     (if dev = '''' then DefaultRouteDevice
      else let pattern = TrimSuffix dev ''*''
        in if pattern \<noteq> dev then DevicePattern pattern else DeviceName pattern)"

text \<open>
  The indices of the interfaces with the program; \<open>attach\<close> tells whether attaching to a link succeeds.
\<close>

record link =
  lk_Name :: string
  lk_Index :: int

definition tryStartLinkFlow :: "(link \<Rightarrow> bool) \<Rightarrow> link \<Rightarrow> int set \<Rightarrow> int set" where
  "tryStartLinkFlow attach l flows =
     (if lk_Index l \<in> flows then flows else if \<not> attach l then flows else insert (lk_Index l) flows)"

definition tryStopLinkFlow :: "int \<Rightarrow> int set \<Rightarrow> int set" where
  "tryStopLinkFlow index flows = (if index \<notin> flows then flows else flows - {index})"

definition helper_start :: "(link \<Rightarrow> bool) \<Rightarrow> string \<Rightarrow> link list \<Rightarrow> int set \<Rightarrow> int set" where
  "helper_start attach pattern ls flows =
     foldl (\<lambda>fs l. if \<not> HasPrefix (lk_Name l) pattern then fs else tryStartLinkFlow attach l fs) flows ls"

datatype link_change = RTM_NEWLINK | RTM_DELLINK | RTM_OTHER

text \<open>A change of a link; \<open>found\<close> is the link that looking up the index gives.\<close>

definition helper_change ::
    "(link \<Rightarrow> bool) \<Rightarrow> string \<Rightarrow> link_change \<Rightarrow> link \<Rightarrow> link option \<Rightarrow> int set \<Rightarrow> int set" where
  "helper_change attach pattern ch l found flows =
     (if \<not> HasSuffix (lk_Name l) pattern then flows
      else case ch of
        RTM_NEWLINK \<Rightarrow> (case found of None \<Rightarrow> flows | Some l' \<Rightarrow> tryStartLinkFlow attach l' flows)
      | RTM_DELLINK \<Rightarrow> tryStopLinkFlow (lk_Index l) flows
      | RTM_OTHER \<Rightarrow> flows)"

text \<open>The loop over the changes, until it is told to stop.\<close>

definition helper_loop ::
    "(link \<Rightarrow> bool) \<Rightarrow> string \<Rightarrow> (link_change \<times> link \<times> link option) list \<Rightarrow> int set \<Rightarrow> int set" where
  "helper_loop attach pattern changes flows =
     foldl (\<lambda>fs (ch, l, found). helper_change attach pattern ch l found fs) flows changes"

lemma helper_start_iff:
  "i \<in> helper_start attach pattern ls flows \<longleftrightarrow>
     i \<in> flows \<or> (\<exists>l \<in> set ls. lk_Index l = i \<and> HasPrefix (lk_Name l) pattern \<and> attach l)"
  by (induction ls arbitrary: flows) (auto simp: helper_start_def tryStartLinkFlow_def)

lemma helper_loop_keeps:
  assumes "\<forall>(ch, l, found) \<in> set changes. lk_Index l = i \<longrightarrow> \<not> HasSuffix (lk_Name l) pattern"
    and "\<forall>(ch, l, found) \<in> set changes. \<forall>l'. found = Some l' \<longrightarrow> lk_Index l' = lk_Index l"
  shows "i \<in> helper_loop attach pattern changes flows \<longleftrightarrow> i \<in> flows"
  using assms
proof (induction changes arbitrary: flows)
  case (Cons x changes)
  obtain ch l found where x: "x = (ch, l, found)" by (cases x)
  have "i \<in> helper_change attach pattern ch l found flows \<longleftrightarrow> i \<in> flows"
    using Cons.prems
    by (cases ch; cases found) (auto simp: x helper_change_def tryStartLinkFlow_def tryStopLinkFlow_def)
  then show ?case using Cons.IH [of "helper_change attach pattern ch l found flows"] Cons.prems
    by (simp add: helper_loop_def x)
qed (simp add: helper_loop_def)

text \<open>
  C34: which interfaces are measured is settled at the start, unless their names also end with
  the pattern. After any sequence of changes, an interface whose name does not end with the pattern is
  measured exactly if an interface with its index existed at the start, had a name that begins with the
  pattern and could be attached to: one that appears later is never measured, and one that disappears
  is never forgotten. The kernel's answer to the lookup of an index is a link with that index.
\<close>

theorem new_links_missed:
  assumes "\<forall>(ch, l, found) \<in> set changes. lk_Index l = i \<longrightarrow> \<not> HasSuffix (lk_Name l) pattern"
    and "\<forall>(ch, l, found) \<in> set changes. \<forall>l'. found = Some l' \<longrightarrow> lk_Index l' = lk_Index l"
  shows "i \<in> helper_loop attach pattern changes (helper_start attach pattern ls {}) \<longleftrightarrow>
    (\<exists>l \<in> set ls. lk_Index l = i \<and> HasPrefix (lk_Name l) pattern \<and> attach l)"
  using helper_loop_keeps [OF assms] helper_start_iff [of i attach pattern ls "{}"] by simp

text \<open>The pattern \<^verbatim>\<open>eth*\<close>: \<^verbatim>\<open>eth0\<close> exists at the start, \<^verbatim>\<open>eth1\<close> appears later.\<close>

theorem new_links_missed_witness:
  "flow_helper ''eth*'' = DevicePattern ''eth'' \<and>
   2 \<notin> helper_loop (\<lambda>_. True) ''eth''
     [(RTM_NEWLINK, \<lparr>lk_Name = ''eth1'', lk_Index = 2\<rparr>, Some \<lparr>lk_Name = ''eth1'', lk_Index = 2\<rparr>)]
     (helper_start (\<lambda>_. True) ''eth'' [\<lparr>lk_Name = ''lo'', lk_Index = 0\<rparr>, \<lparr>lk_Name = ''eth0'', lk_Index = 1\<rparr>] {})"
proof -
  have "\<not> HasSuffix ''eth1'' ''eth''" "flow_helper ''eth*'' = DevicePattern ''eth''" by code_simp+
  then show ?thesis
    using new_links_missed [of
        "[(RTM_NEWLINK, \<lparr>lk_Name = ''eth1'', lk_Index = 2\<rparr>, Some \<lparr>lk_Name = ''eth1'', lk_Index = 2\<rparr>)]" 2 "''eth''"
        "\<lambda>_. True" "[\<lparr>lk_Name = ''lo'', lk_Index = 0\<rparr>, \<lparr>lk_Name = ''eth0'', lk_Index = 1\<rparr>]"]
    by simp
qed

end
