(* ===== verification/Packetloss.thy ===== *)
theory Packetloss
  imports Inspector Latency
begin

text \<open>
  The packet loss probe, \<^verbatim>\<open>src/bpf/packetloss.c\<close>: every socket buffer freed by
  \<^verbatim>\<open>kfree_skb\<close> that carries an IP packet is reported with its tuple and the place in the
  kernel that dropped it, and with a stack id when the feature switch asks for one. The stack
  traces themselves are kept by the kernel and not modelled.
\<close>

section \<open>State and handler\<close>

record kfree_skb_args =
  kf_pad :: u64
  kf_skb :: u64
  kf_location :: u64
  kf_protocol :: u16

record insp_pl_event_t =
  pl_tuple :: tuple
  pl_location :: u64
  pl_stack_id :: s64

definition insp_pl_stack_def :: bpf_map_def where
  "insp_pl_stack_def = \<lparr>map_type = BPF_MAP_TYPE_STACK_TRACE, key_size = 4,
     value_size = PERF_MAX_STACK_DEPTH * 8, max_entries = 1000, map_flags = 0\<rparr>"

record packetloss =
  insp_pl_event :: "insp_pl_event_t perf"
  insp_packetloss_feature_switch :: feature_switch

definition kfree_skb :: "kenv \<Rightarrow> kfree_skb_args \<Rightarrow> packetloss \<Rightarrow> int \<times> packetloss" where
  "kfree_skb k args s =
     (let skb = kf_skb args;
          event = \<lparr>pl_tuple = zero_tuple, pl_location = 0, pl_stack_id = 0\<rparr>;
          r = set_tuple k skb (pl_tuple event);
          event = event\<lparr>pl_tuple := snd r\<rparr>
      in if fst r < 0 then (0, s)
         else
           let event = event\<lparr>pl_location := kf_location args\<rparr>;
               packetloss_stack_key = 0;
               enable_packetloss_stack =
                 is_enable k (insp_packetloss_feature_switch s) packetloss_stack_key;
               event = (if enable_packetloss_stack
                        then event\<lparr>pl_stack_id := bpf_get_stackid k KERN_STACKID_FLAGS\<rparr> else event)
           in (0, s\<lparr>insp_pl_event := snd (bpf_perf_event_output k (insp_pl_event s)
                                            BPF_F_CURRENT_CPU event)\<rparr>))"

definition packetloss_step :: "kenv \<Rightarrow> kfree_skb_args \<Rightarrow> packetloss \<Rightarrow> packetloss" where
  "packetloss_step k args s = snd (kfree_skb k args s)"

section \<open>Properties\<close>

lemma kfree_skb_eq:
  "insp_pl_event (packetloss_step k args s) =
     insp_pl_event s @
     (if fst (set_tuple k (kf_skb args) zero_tuple) = 0 \<and> 0 \<le> k_perf k
      then [(k_cpu k, \<lparr>pl_tuple = snd (set_tuple k (kf_skb args) zero_tuple),
                        pl_location = kf_location args,
                        pl_stack_id = if is_enable k (insp_packetloss_feature_switch s) 0
                                      then k_stackid k KERN_STACKID_FLAGS else 0\<rparr>)]
      else []) \<and>
   insp_packetloss_feature_switch (packetloss_step k args s) = insp_packetloss_feature_switch s"
  using set_tuple_status [of k "kf_skb args" zero_tuple]
  by (auto simp: packetloss_step_def kfree_skb_def perf_output_current_cpu helper_defs Let_def)

text \<open>What one call reports: the event of the buffer, or nothing.\<close>

definition drop_report :: "feature_switch \<Rightarrow> kenv \<times> kfree_skb_args \<Rightarrow> (u32 \<times> insp_pl_event_t) list" where
  "drop_report sw x =
     (let k = fst x; args = snd x in
      if fst (set_tuple k (kf_skb args) zero_tuple) = 0 \<and> 0 \<le> k_perf k
      then [(k_cpu k, \<lparr>pl_tuple = snd (set_tuple k (kf_skb args) zero_tuple),
                        pl_location = kf_location args,
                        pl_stack_id = if is_enable k sw 0 then k_stackid k KERN_STACKID_FLAGS else 0\<rparr>)]
      else [])"

lemma packetloss_log_gen:
  "insp_packetloss_feature_switch s = sw \<Longrightarrow>
     insp_pl_event (run_probe packetloss_step xs s) = insp_pl_event s @ concat (map (drop_report sw) xs)"
proof (induction xs arbitrary: s)
  case (Cons x xs)
  have "insp_packetloss_feature_switch (packetloss_step (fst x) (snd x) s) = sw"
    using Cons.prems kfree_skb_eq by blast
  with Cons show ?case by (simp add: kfree_skb_eq drop_report_def Let_def)
qed simp

text \<open>
  The log of the packet loss probe is exactly one event per freed buffer that has a
  readable IP header and whose sample is not lost, in order, each with the tuple of the buffer, the
  location of the drop and the stack id if the switch of that CPU is on; nothing else is reported.
\<close>

lemma packetloss_log:
  "insp_pl_event (run_probe packetloss_step xs \<lparr>insp_pl_event = [], insp_packetloss_feature_switch = sw\<rparr>) =
     concat (map (drop_report sw) xs)"
  by (simp add: packetloss_log_gen)

end
