(* ===== verification/Kallsyms.thy ===== *)
theory Kallsyms
  imports GoText "HOL-Library.AList"
begin

text \<open>
  The symbols of the kernel, \<^verbatim>\<open>src/pkg/exporter/bpfutil/kallsyms.go\<close>: reading the list, and the
  search for the function that contains an address. The cache in front of the search is a library; it
  is the parameter \<open>L\<close>, a record of the operations the code calls.
\<close>

section \<open>Caches\<close>

record ('c, 'k, 'v) lru =
  lru_Get :: "'c \<Rightarrow> 'k \<Rightarrow> 'v option \<times> 'c"
  lru_Add :: "'c \<Rightarrow> 'k \<Rightarrow> 'v \<Rightarrow> 'c"
  lru_Remove :: "'c \<Rightarrow> 'k \<Rightarrow> 'c"
  lru_Keys :: "'c \<Rightarrow> 'k list"

text \<open>
  What the cache documents, in terms of its contents: looking up gives the entry and keeps the contents,
  adding stores the entry and may drop others only when there are as many as the size already,
  removing deletes, and the keys are listed once.
\<close>

definition lru_ok :: "nat \<Rightarrow> ('c, 'k, 'v) lru \<Rightarrow> ('c \<Rightarrow> 'k \<rightharpoonup> 'v) \<Rightarrow> bool" where
  "lru_ok cap L view \<longleftrightarrow>
     (\<forall>c k. fst (lru_Get L c k) = view c k \<and> view (snd (lru_Get L c k)) = view c) \<and>
     (\<forall>c k v. view (lru_Add L c k v) \<subseteq>\<^sub>m (view c)(k \<mapsto> v) \<and> view (lru_Add L c k v) k = Some v \<and>
        (k \<in> dom (view c) \<or> card (dom (view c)) < cap \<longrightarrow> view (lru_Add L c k v) = (view c)(k \<mapsto> v))) \<and>
     (\<forall>c k. view (lru_Remove L c k) = (view c)(k := None)) \<and>
     (\<forall>c. distinct (lru_Keys L c) \<and> set (lru_Keys L c) = dom (view c))"

section \<open>Symbols\<close>

record KernelSymbol =
  ks_start :: u64
  ks_symboltype :: string
  ks_symbol :: string
  ks_module :: string
  ks_offset :: int

text \<open>Hexadecimal with capital letters and the sign in front, \<^verbatim>\<open>%X\<close> on an \<^verbatim>\<open>int\<close>.\<close>

definition upper :: "char \<Rightarrow> char" where
  "upper c = (if c \<in> set ''abcdef'' then char_of (of_char c - 32 :: nat) else c)"

definition hexX :: "int \<Rightarrow> string" where
  "hexX i = (if i < 0 then ''-'' else []) @ map upper (radix 16 (nat \<bar>i\<bar>))"

definition GetExpr :: "KernelSymbol \<Rightarrow> string" where
  "GetExpr k = ks_symbol k @ ''+0x'' @ hexX (ks_offset k)"

text \<open>
  A line of \<^verbatim>\<open>/proc/kallsyms\<close>. A line with fewer than three words panics, one whose address does not
  parse is skipped. \<open>srt\<close> stands for \<^verbatim>\<open>sort.Slice\<close>, which leaves the order of equal addresses open.
\<close>

definition parse_symbol :: "string \<Rightarrow> KernelSymbol option go" where
  "parse_symbol line =
     (let raw = Fields line in
      if length raw < 1 then Panic
      else case ParseUint (raw ! 0) 16 64 of
        (pt, None) \<Rightarrow>
          if length raw < 3 then Panic
          else Ret (Some \<lparr>ks_start = of_nat pt, ks_symboltype = raw ! 1, ks_symbol = raw ! 2,
            ks_module = (if length raw = 4 then raw ! 3 else ''kernel''), ks_offset = 0\<rparr>)
      | (_, Some _) \<Rightarrow> Ret None)"

definition getAllSyms :: "(KernelSymbol list \<Rightarrow> KernelSymbol list) \<Rightarrow> string list \<Rightarrow> KernelSymbol list go" where
  "getAllSyms srt lines =
     go_bind (go_foldl (\<lambda>ks line. go_bind (parse_symbol line)
         (\<lambda>s. Ret (case s of None \<Rightarrow> ks | Some k \<Rightarrow> ks @ [k]))) [] lines)
       (\<lambda>ks. Ret (srt ks))"

datatype sym_error = AddrOutOfRange | AddrNotFound | AddrInvalid

definition symbol_at :: "u64 \<Rightarrow> KernelSymbol \<Rightarrow> KernelSymbol" where
  "symbol_at pt k =
     \<lparr>ks_start = ks_start k, ks_symboltype = ks_symbol k, ks_symbol = ks_symbol k, ks_module = ks_module k,
      ks_offset = sint (pt - ks_start k)\<rparr>"

text \<open>The search by address text, with the index of the next symbol read before the bound is checked.\<close>

fun pt_loop :: "u64 \<Rightarrow> KernelSymbol list \<Rightarrow> (sym_error + KernelSymbol) go" where
  "pt_loop pt [] = Ret (Inl AddrNotFound)"
| "pt_loop pt (k # ks) =
     (if ks_start k \<le> pt then
        case ks of
          [] \<Rightarrow> Panic
        | k' # _ \<Rightarrow> if ks_start k' > pt then Ret (Inr (symbol_at pt k)) else pt_loop pt ks
      else pt_loop pt ks)"

definition GetSymByPt :: "KernelSymbol list \<Rightarrow> string \<Rightarrow> (sym_error + KernelSymbol) go" where
  "GetSymByPt ks addr =
     (case (if HasPrefix addr ''0x'' then ParseUint (drop 2 addr) 16 64 else ParseUint addr 10 64) of
        (_, Some _) \<Rightarrow> Ret (Inl AddrInvalid)
      | (pt, None) \<Rightarrow>
          if ks = [] then Panic
          else if of_nat pt > ks_start (last ks) then Ret (Inl AddrOutOfRange)
          else pt_loop (of_nat pt) ks)"

section \<open>The binary search\<close>

text \<open>The found index, or \<open>-1\<close>, and the lower bound at the end of the loop.\<close>

function sym_loop :: "KernelSymbol list \<Rightarrow> u64 \<Rightarrow> int \<Rightarrow> int \<Rightarrow> int \<times> int" where
  "sym_loop ks pt i j =
     (if i < j then
        let mid = i + (j - i) div 2; midVal = ks_start (ks ! nat mid)
        in if pt < midVal then sym_loop ks pt i mid
           else if pt > midVal then sym_loop ks pt (mid + 1) j
           else (mid, i)
      else (- 1, i))"
  by pat_completeness auto
termination
  by (relation "measure (\<lambda>(ks, pt, i, j). nat (j - i))") auto

declare sym_loop.simps [simp del]

definition search_symbol :: "KernelSymbol list \<Rightarrow> u64 \<Rightarrow> int option go" where
  "search_symbol ks pt =
     (let (found, i) = sym_loop ks pt 0 (int (length ks) - 1) in
      if found \<noteq> - 1 then Ret (Some found)
      else if nat i \<ge> length ks then Panic
      else
        let found = (if i \<ge> 1 \<and> pt > ks_start (ks ! nat (i - 1)) \<and> pt < ks_start (ks ! nat i) then i - 1 else - 1);
            found = (if pt \<ge> ks_start (ks ! nat i) then i else found)
        in Ret (if found = - 1 then None else Some found))"

definition GetSymPtFromBpfLocation ::
    "('c, u64, KernelSymbol) lru \<Rightarrow> KernelSymbol list \<Rightarrow> u64 \<Rightarrow> 'c \<Rightarrow> ((sym_error + KernelSymbol) \<times> 'c) go" where
  "GetSymPtFromBpfLocation L ks pt cache =
     (case lru_Get L cache pt of
        (Some ksym, cache1) \<Rightarrow> Ret (Inr ksym, cache1)
      | (None, cache1) \<Rightarrow>
          go_bind (search_symbol ks pt) (\<lambda>found.
            case found of
              None \<Rightarrow> Ret (Inl AddrNotFound, cache1)
            | Some f \<Rightarrow>
                let ksym = symbol_at pt (ks ! nat f) in Ret (Inr ksym, lru_Add L cache1 pt ksym)))"

text \<open>The symbols of the addresses of a stack; addresses without a symbol are left out.\<close>

fun GetSymsByStack ::
    "('c, u64, KernelSymbol) lru \<Rightarrow> KernelSymbol list \<Rightarrow> u64 list \<Rightarrow> 'c \<Rightarrow> (KernelSymbol list \<times> 'c) go" where
  "GetSymsByStack L ks [] cache = Ret ([], cache)"
| "GetSymsByStack L ks (a # as) cache =
     go_bind (GetSymPtFromBpfLocation L ks a cache) (\<lambda>(res, cache).
       go_bind (GetSymsByStack L ks as cache) (\<lambda>(syms, cache).
         Ret (case res of Inl _ \<Rightarrow> syms | Inr s \<Rightarrow> s # syms, cache)))"

section \<open>The search is right\<close>

definition addr_sorted :: "KernelSymbol list \<Rightarrow> bool" where
  "addr_sorted ks = sorted (map ks_start ks)"

lemma addr_sorted_nth: "addr_sorted ks \<Longrightarrow> i \<le> j \<Longrightarrow> j < length ks \<Longrightarrow> ks_start (ks ! i) \<le> ks_start (ks ! j)"
  by (simp add: addr_sorted_def sorted_iff_nth_mono)

definition search_inv :: "KernelSymbol list \<Rightarrow> u64 \<Rightarrow> int \<Rightarrow> int \<Rightarrow> bool" where
  "search_inv ks pt i j \<longleftrightarrow>
     0 \<le> i \<and> i \<le> j \<and> j < int (length ks) \<and> (\<forall>x. x < nat i \<longrightarrow> ks_start (ks ! x) < pt) \<and>
     (j = int (length ks) - 1 \<or> ks_start (ks ! nat j) > pt)"

lemma sym_loop_step:
  "i < j \<Longrightarrow> i + (j - i) div 2 = m \<Longrightarrow>
     sym_loop ks pt i j =
       (if pt < ks_start (ks ! nat m) then sym_loop ks pt i m
        else if pt > ks_start (ks ! nat m) then sym_loop ks pt (m + 1) j else (m, i))"
  by (subst sym_loop.simps) (simp add: Let_def)

lemma search_inv_left: "search_inv ks pt i j \<Longrightarrow> i \<le> m \<Longrightarrow> m < j \<Longrightarrow> pt < ks_start (ks ! nat m) \<Longrightarrow> search_inv ks pt i m"
  by (simp add: search_inv_def)

lemma search_inv_right:
  assumes "addr_sorted ks" and "search_inv ks pt i j" and "i \<le> m" "m < j" and "ks_start (ks ! nat m) < pt"
  shows "search_inv ks pt (m + 1) j"
proof -
  have "0 \<le> m" "m < int (length ks)" using assms(2-4) by (auto simp: search_inv_def)
  then have "nat m < length ks" by simp
  then have "ks_start (ks ! x) < pt" if "x \<le> nat m" for x
    using addr_sorted_nth [OF assms(1) that] assms(5) by (metis le_less_trans)
  then show ?thesis using assms by (simp add: search_inv_def)
qed

lemma sym_loop_inv:
  assumes "addr_sorted ks" and "search_inv ks pt i j" and "sym_loop ks pt i j = (found, i')"
  shows "0 \<le> found \<and> found < int (length ks) \<and> ks_start (ks ! nat found) = pt \<or>
    found = - 1 \<and> search_inv ks pt i' i'"
  using assms(2,3)
proof (induction "nat (j - i)" arbitrary: i j rule: less_induct)
  case (less i j)
  show ?case
  proof (cases "i < j")
    case False
    then have "found = - 1" "i' = i" "j = i" using less(2,3) by (simp_all add: sym_loop.simps search_inv_def)
    then show ?thesis using less(2) by simp
  next
    case True
    obtain m where m: "i + (j - i) div 2 = m" by simp
    have mid: "i \<le> m" "m < j" using True m by auto
    note step = sym_loop_step [OF True m, of ks pt]
    consider "pt < ks_start (ks ! nat m)" | "pt > ks_start (ks ! nat m)" | "pt = ks_start (ks ! nat m)"
      by force
    then show ?thesis
    proof cases
      case 1
      then show ?thesis
        using less(1) [of m i] search_inv_left [OF less(2) mid] less(3) mid step True by simp
    next
      case 2
      then have "sym_loop ks pt (m + 1) j = (found, i')" using less(3) step order_less_not_sym [OF 2] by simp
      with 2 show ?thesis
        using less(1) [of j "m + 1"] search_inv_right [OF assms(1) less(2) mid] mid by simp
    next
      case 3
      then show ?thesis using less(2,3) mid step by (simp add: search_inv_def)
    qed
  qed
qed

text \<open>The symbol of an address: the one with the greatest start at or below it.\<close>

definition symbol_of :: "KernelSymbol list \<Rightarrow> u64 \<Rightarrow> int option \<Rightarrow> bool" where
  "symbol_of ks pt found \<longleftrightarrow>
     (case found of
        None \<Rightarrow> \<forall>k \<in> set ks. pt < ks_start k
      | Some f \<Rightarrow> 0 \<le> f \<and> f < int (length ks) \<and> ks_start (ks ! nat f) \<le> pt \<and>
          (\<forall>k \<in> set ks. ks_start k \<le> pt \<longrightarrow> ks_start k \<le> ks_start (ks ! nat f)))"

lemma search_symbol_ok:
  assumes "addr_sorted ks" and "ks \<noteq> []"
  shows "\<exists>found. search_symbol ks pt = Ret found \<and> symbol_of ks pt found"
proof -
  obtain found i where loop: "sym_loop ks pt 0 (int (length ks) - 1) = (found, i)" by fastforce
  have "search_inv ks pt 0 (int (length ks) - 1)" using assms(2) by (simp add: search_inv_def Suc_le_eq)
  from sym_loop_inv [OF assms(1) this loop] consider
    (hit) "0 \<le> found" "found < int (length ks)" "ks_start (ks ! nat found) = pt"
    | (miss) "found = - 1" "search_inv ks pt i i" by blast
  then show ?thesis
  proof cases
    case hit
    then have "found \<noteq> - 1" by simp
    then have "search_symbol ks pt = Ret (Some found)" using loop by (simp add: search_symbol_def)
    moreover have "symbol_of ks pt (Some found)" using hit by (simp add: symbol_of_def)
    ultimately show ?thesis by blast
  next
    case miss
    have i: "0 \<le> i" "nat i < length ks" "i = int (length ks) - 1 \<or> pt < ks_start (ks ! nat i)"
      and below: "x < nat i \<Longrightarrow> ks_start (ks ! x) < pt" for x
      using miss(2) by (auto simp: search_inv_def nat_less_iff)
    have mono: "ks_start (ks ! a) \<le> ks_start (ks ! b)" if "a \<le> b" "b < length ks" for a b
      using addr_sorted_nth [OF assms(1) that] .
    consider (last) "ks_start (ks ! nat i) \<le> pt" | (first) "pt < ks_start (ks ! nat i)" "i = 0"
      | (mid) "pt < ks_start (ks ! nat i)" "1 \<le> i" using i(1) by fastforce
    then show ?thesis
    proof cases
      case last
      then have "nat i = length ks - 1" using i by auto
      then have "\<forall>k \<in> set ks. ks_start k \<le> ks_start (ks ! nat i)"
        using mono i(2) by (auto simp: in_set_conv_nth)
      moreover have "search_symbol ks pt = Ret (Some i)"
        using last i(1,2) loop miss(1) by (simp add: search_symbol_def)
      ultimately show ?thesis using last i(1,2) by (simp add: symbol_of_def nat_less_iff)
    next
      case first
      have "pt < ks_start k" if "k \<in> set ks" for k
        using that first mono [of 0] by (auto simp: in_set_conv_nth intro: less_le_trans)
      moreover have "\<not> ks_start (ks ! nat i) \<le> pt" using first(1) by simp
      ultimately show ?thesis using first(2) i(2) loop miss(1) by (simp add: search_symbol_def symbol_of_def)
    next
      case mid
      have "ks_start k \<le> ks_start (ks ! nat (i - 1))" if k: "k \<in> set ks" "ks_start k \<le> pt" for k
      proof -
        obtain x where x: "x < length ks" "k = ks ! x" using k(1) by (auto simp: in_set_conv_nth)
        have "\<not> nat i \<le> x" using mono [of "nat i" x] x k(2) mid(1) by auto
        then have "x \<le> nat (i - 1)" by simp
        moreover have "nat (i - 1) < length ks" using i(2) by simp
        ultimately show ?thesis using mono x(2) by simp
      qed
      moreover have start: "ks_start (ks ! nat (i - 1)) < pt" using below mid(2) by simp
      moreover have "i - 1 < int (length ks)" using i(2) by simp
      ultimately have "symbol_of ks pt (Some (i - 1))" using mid(2) by (simp add: symbol_of_def)
      moreover have "\<not> ks_start (ks ! nat i) \<le> pt" "\<not> length ks \<le> nat i" "i - 1 \<noteq> - 1" using mid i(2) by simp_all
      then have "search_symbol ks pt = Ret (Some (i - 1))"
        using mid start loop miss(1) by (simp add: search_symbol_def del: nat_le_iff)
      ultimately show ?thesis by blast
    qed
  qed
qed

text \<open>
  The cached search. The entries of the cache stay what the search gives, so a lookup returns the same with
  and without the cache.
\<close>

definition locations_ok :: "KernelSymbol list \<Rightarrow> (u64 \<rightharpoonup> KernelSymbol) \<Rightarrow> bool" where
  "locations_ok ks m \<longleftrightarrow> (\<forall>pt k. m pt = Some k \<longrightarrow>
     (\<exists>f. search_symbol ks pt = Ret (Some f) \<and> k = symbol_at pt (ks ! nat f)))"

lemma locations_okD:
  "locations_ok ks m \<Longrightarrow> m pt = Some k \<Longrightarrow>
     \<exists>f. search_symbol ks pt = Ret (Some f) \<and> k = symbol_at pt (ks ! nat f)"
  by (simp add: locations_ok_def)

definition locate :: "KernelSymbol list \<Rightarrow> u64 \<Rightarrow> KernelSymbol option" where
  "locate ks pt =
     (case search_symbol ks pt of Ret (Some f) \<Rightarrow> Some (symbol_at pt (ks ! nat f)) | _ \<Rightarrow> None)"

lemma map_le_SomeD: "m \<subseteq>\<^sub>m m' \<Longrightarrow> m x = Some y \<Longrightarrow> m' x = Some y"
  by (metis map_le_def domI)

lemma lru_ok_Get: "lru_ok cap L view \<Longrightarrow> fst (lru_Get L c k) = view c k \<and> view (snd (lru_Get L c k)) = view c"
  by (simp add: lru_ok_def)

lemma lru_ok_Add: "lru_ok cap L view \<Longrightarrow> view (lru_Add L c k v) \<subseteq>\<^sub>m (view c)(k \<mapsto> v)"
  by (simp add: lru_ok_def)

lemma GetSymPtFromBpfLocation_locate:
  assumes ok: "lru_ok cap L view" and "addr_sorted ks" "ks \<noteq> []" and inv: "locations_ok ks (view c)"
  shows "\<exists>c'. GetSymPtFromBpfLocation L ks pt c =
      Ret (case locate ks pt of None \<Rightarrow> Inl AddrNotFound | Some k \<Rightarrow> Inr k, c') \<and> locations_ok ks (view c')"
proof -
  obtain r c1 where get: "lru_Get L c pt = (r, c1)" by fastforce
  have r: "r = view c pt" "view c1 = view c" using lru_ok_Get [OF ok, of c pt] get by simp_all
  obtain found where search: "search_symbol ks pt = Ret found" using search_symbol_ok [OF assms(2,3)] by blast
  show ?thesis
  proof (cases r)
    case (Some k)
    then obtain f where "search_symbol ks pt = Ret (Some f)" "k = symbol_at pt (ks ! nat f)"
      using locations_okD [OF inv] r(1) by metis
    then have "locate ks pt = Some k" by (simp add: locate_def)
    then show ?thesis using get Some r(2) inv by (simp add: GetSymPtFromBpfLocation_def)
  next
    case None
    show ?thesis
    proof (cases found)
      case found: None
      then show ?thesis using get None search r(2) inv by (simp add: GetSymPtFromBpfLocation_def locate_def)
    next
      case (Some f)
      let ?k = "symbol_at pt (ks ! nat f)"
      have "locations_ok ks (view (lru_Add L c1 pt ?k))"
        unfolding locations_ok_def
      proof (intro allI impI)
        fix p k assume "view (lru_Add L c1 pt ?k) p = Some k"
        then have "((view c1)(pt \<mapsto> ?k)) p = Some k" using map_le_SomeD [OF lru_ok_Add [OF ok]] by blast
        then show "\<exists>f. search_symbol ks p = Ret (Some f) \<and> k = symbol_at p (ks ! nat f)"
          using locations_okD [OF inv, of p k] r(2) search Some by (cases "p = pt") auto
      qed
      then show ?thesis using get None search Some by (simp add: GetSymPtFromBpfLocation_def locate_def Let_def)
    qed
  qed
qed

lemma GetSymsByStack_locate:
  assumes ok: "lru_ok cap L view" and "addr_sorted ks" "ks \<noteq> []" and "locations_ok ks (view c)"
  shows "\<exists>c'. GetSymsByStack L ks as c = Ret (List.map_filter (locate ks) as, c') \<and> locations_ok ks (view c')"
  using assms(4)
proof (induction as arbitrary: c)
  case (Cons a as)
  obtain c1 where c1: "GetSymPtFromBpfLocation L ks a c =
      Ret (case locate ks a of None \<Rightarrow> Inl AddrNotFound | Some k \<Rightarrow> Inr k, c1)" "locations_ok ks (view c1)"
    using GetSymPtFromBpfLocation_locate [OF ok assms(2,3) Cons.prems] by blast
  with Cons.IH [OF c1(2)] show ?case by (auto simp: map_filter_simps split: option.split)
qed (simp add: map_filter_simps)

text \<open>The same as text, for the addresses of a stack.\<close>

fun GetSymsStrByStack ::
    "('c, u64, KernelSymbol) lru \<Rightarrow> KernelSymbol list \<Rightarrow> u64 list \<Rightarrow> 'c \<Rightarrow> (string list \<times> 'c) go" where
  "GetSymsStrByStack L ks [] cache = Ret ([], cache)"
| "GetSymsStrByStack L ks (a # as) cache =
     go_bind (GetSymPtFromBpfLocation L ks a cache) (\<lambda>(res, cache).
       go_bind (GetSymsStrByStack L ks as cache) (\<lambda>(strs, cache).
         Ret (case res of Inl _ \<Rightarrow> strs | Inr s \<Rightarrow> (ks_symbol s @ ''+0x'' @ hexX (ks_offset s)) # strs, cache)))"

lemma GetSymsStrByStack_eq:
  "GetSymsStrByStack L ks as c = go_bind (GetSymsByStack L ks as c) (\<lambda>(syms, c'). Ret (map GetExpr syms, c'))"
proof (induction as arbitrary: c)
  case (Cons a as)
  show ?case
  proof (cases "GetSymPtFromBpfLocation L ks a c")
    case (Ret x)
    then show ?thesis
      using Cons by (cases x; cases "GetSymsByStack L ks as (snd x)") (auto simp: GetExpr_def split: sum.splits)
  qed simp_all
qed simp

text \<open>
  Without symbols every lookup that the cache does not answer panics. The other search panics on the
  address of the last symbol, where it reads the start of the next one.
\<close>

lemma no_symbols_panic: "fst (lru_Get L c pt) = None \<Longrightarrow> GetSymPtFromBpfLocation L [] pt c = Panic"
  by (cases "lru_Get L c pt") (simp add: GetSymPtFromBpfLocation_def search_symbol_def sym_loop.simps)

lemma pt_loop_last: "ks \<noteq> [] \<Longrightarrow> addr_sorted ks \<Longrightarrow> pt_loop (ks_start (last ks)) ks = Panic"
proof (induction ks)
  case (Cons k ks)
  show ?case
  proof (cases ks)
    case (Cons k' ks')
    then have "pt_loop (ks_start (last ks)) ks = Panic" using Cons.IH Cons.prems by (simp add: addr_sorted_def)
    moreover have "ks_start k' \<le> ks_start (last ks)" "ks_start k \<le> ks_start (last ks)"
      using Cons.prems Cons by (auto simp: addr_sorted_def)
    ultimately show ?thesis using Cons by (simp add: not_less [symmetric])
  qed simp
qed simp

section \<open>The table of symbols\<close>

lemma parse_symbol_plain:
  "\<lbrakk>Fields line = a # t # n # rest; ParseUint a 16 64 = (pt, None)\<rbrakk> \<Longrightarrow>
     parse_symbol line = Ret (Some \<lparr>ks_start = of_nat pt, ks_symboltype = t, ks_symbol = n,
       ks_module = (if length rest = 1 then hd rest else ''kernel''), ks_offset = 0\<rparr>)"
  by (cases rest) (auto simp: parse_symbol_def Let_def)

definition sorts :: "(KernelSymbol list \<Rightarrow> KernelSymbol list) \<Rightarrow> bool" where
  "sorts srt \<longleftrightarrow> (\<forall>ks. addr_sorted (srt ks) \<and> set (srt ks) = set ks)"

lemma getAllSyms_sorted: "getAllSyms srt lines = Ret ks \<Longrightarrow> sorts srt \<Longrightarrow> addr_sorted ks"
  by (auto simp: getAllSyms_def go_bind_Ret_iff sorts_def)

lemma getAllSyms_fold:
  "go_foldl (\<lambda>ks line. go_bind (parse_symbol line) (\<lambda>s. Ret (case s of None \<Rightarrow> ks | Some k \<Rightarrow> ks @ [k]))) acc lines =
     Ret ks \<Longrightarrow> set ks = set acc \<union> {k. \<exists>line \<in> set lines. parse_symbol line = Ret (Some k)}"
proof (induction lines arbitrary: acc)
  case (Cons l lines)
  then obtain r where r: "parse_symbol l = Ret r" by (cases "parse_symbol l") auto
  then show ?case using Cons.IH [of "case r of None \<Rightarrow> acc | Some k \<Rightarrow> acc @ [k]"] Cons.prems
    by (cases r) auto
qed simp

lemma getAllSyms_set:
  assumes "getAllSyms srt lines = Ret ks" and "sorts srt"
  shows "set ks = {k. \<exists>line \<in> set lines. parse_symbol line = Ret (Some k)}"
proof -
  obtain ks' where ks': "go_foldl (\<lambda>ks line. go_bind (parse_symbol line)
      (\<lambda>s. Ret (case s of None \<Rightarrow> ks | Some k \<Rightarrow> ks @ [k]))) [] lines = Ret ks'" "ks = srt ks'"
    using assms(1) by (auto simp: getAllSyms_def go_bind_Ret_iff)
  moreover have "set (srt ks') = set ks'" using assms(2) unfolding sorts_def by blast
  ultimately show ?thesis using getAllSyms_fold [OF ks'(1)] by simp
qed

text \<open>
  C10: once the symbols have been read from the lines of the kernel and there is at least
  one, looking up an address always returns, whatever is cached: the symbol with the greatest start at
  or below the address, with the distance as offset, or an error if the address is below every symbol.
  A cache entry never differs from what the search would give.
\<close>

theorem symbol_lookup:
  assumes "lru_ok 100 L view" and "sorts srt" and "getAllSyms srt lines = Ret ks" and "ks \<noteq> []"
    and "locations_ok ks (view c)"
  shows "\<exists>res c'. GetSymPtFromBpfLocation L ks pt c = Ret (res, c') \<and> locations_ok ks (view c') \<and>
    (case res of
       Inl e \<Rightarrow> \<forall>k \<in> set ks. pt < ks_start k
     | Inr r \<Rightarrow> \<exists>k \<in> set ks. r = symbol_at pt k \<and> ks_start k \<le> pt \<and>
         (\<forall>k' \<in> set ks. ks_start k' \<le> pt \<longrightarrow> ks_start k' \<le> ks_start k))"
proof -
  have sorted: "addr_sorted ks" using getAllSyms_sorted assms(2,3) by blast
  obtain c' where c': "GetSymPtFromBpfLocation L ks pt c =
      Ret (case locate ks pt of None \<Rightarrow> Inl AddrNotFound | Some k \<Rightarrow> Inr k, c')" "locations_ok ks (view c')"
    using GetSymPtFromBpfLocation_locate [OF assms(1) sorted assms(4,5)] by blast
  obtain found where found: "search_symbol ks pt = Ret found" "symbol_of ks pt found"
    using search_symbol_ok [OF sorted assms(4)] by blast
  show ?thesis
  proof (cases found)
    case None
    then show ?thesis using c' found by (simp add: locate_def symbol_of_def)
  next
    case (Some f)
    then have "ks ! nat f \<in> set ks" using found(2) by (simp add: symbol_of_def nat_less_iff)
    moreover have "locate ks pt = Some (symbol_at pt (ks ! nat f))" using Some found(1) by (simp add: locate_def)
    ultimately show ?thesis using c' found(2) Some by (auto simp: symbol_of_def)
  qed
qed

text \<open>A cache that keeps everything, and two lines of the kernel.\<close>

definition keep_all :: "(('k \<times> 'v) list, 'k, 'v) lru" where
  "keep_all = \<lparr>lru_Get = \<lambda>c k. (map_of c k, c), lru_Add = \<lambda>c k v. AList.update k v c,
     lru_Remove = \<lambda>c k. AList.delete k c, lru_Keys = \<lambda>c. remdups (map fst c)\<rparr>"

lemma keep_all_ok: "lru_ok cap keep_all map_of"
  by (simp add: lru_ok_def keep_all_def update_conv' delete_conv' dom_map_of_conv_image_fst)

definition insort_syms :: "KernelSymbol list \<Rightarrow> KernelSymbol list" where
  "insort_syms ks = sort_key ks_start ks"

lemma insort_syms_sorts: "sorts insort_syms"
  by (simp add: sorts_def insort_syms_def addr_sorted_def)

definition two_lines :: "string list" where
  "two_lines = [''ffffffff81000000 T _text'', ''ffffffff80000000 t nf_hook_slow [nf]'']"

definition two_syms :: "KernelSymbol list" where
  "two_syms =
     [\<lparr>ks_start = 0xffffffff80000000, ks_symboltype = ''t'', ks_symbol = ''nf_hook_slow'', ks_module = ''[nf]'',
       ks_offset = 0\<rparr>,
      \<lparr>ks_start = 0xffffffff81000000, ks_symboltype = ''T'', ks_symbol = ''_text'', ks_module = ''kernel'',
       ks_offset = 0\<rparr>]"

lemma two_lines_syms: "getAllSyms insort_syms two_lines = Ret two_syms"
proof -
  have radix: "radix 16 0xffffffff81000000 = ''ffffffff81000000''"
    "radix 16 0xffffffff80000000 = ''ffffffff80000000''"
    by (simp_all add: radix.simps digit_def char_of_def bit_0)
  have "ParseUint ''ffffffff81000000'' 16 64 = (0xffffffff81000000, None)"
    "ParseUint ''ffffffff80000000'' 16 64 = (0xffffffff80000000, None)"
    unfolding radix [symmetric] by (simp_all add: ParseUint_radix)
  moreover have "Fields ''ffffffff81000000 T _text'' = [''ffffffff81000000'', ''T'', ''_text'']"
    "Fields ''ffffffff80000000 t nf_hook_slow [nf]'' = [''ffffffff80000000'', ''t'', ''nf_hook_slow'', ''[nf]'']"
    by code_simp+
  ultimately have "parse_symbol ''ffffffff81000000 T _text'' = Ret (Some (two_syms ! 1))"
    "parse_symbol ''ffffffff80000000 t nf_hook_slow [nf]'' = Ret (Some (two_syms ! 0))"
    by (simp_all add: parse_symbol_plain) (simp_all add: two_syms_def)
  then show ?thesis by (simp add: getAllSyms_def two_lines_def insort_syms_def) (simp add: two_syms_def)
qed

theorem symbol_lookup_witness:
  "\<exists>c'. GetSymPtFromBpfLocation keep_all two_syms 0xffffffff80000010 [] =
     Ret (Inr \<lparr>ks_start = 0xffffffff80000000, ks_symboltype = ''nf_hook_slow'', ks_symbol = ''nf_hook_slow'',
       ks_module = ''[nf]'', ks_offset = 16\<rparr>, c')"
proof -
  have "two_syms \<noteq> []" "locations_ok two_syms (map_of [])" by (simp_all add: two_syms_def locations_ok_def)
  from symbol_lookup [OF keep_all_ok insort_syms_sorts two_lines_syms this, of "0xffffffff80000010"]
  obtain res c' where r: "GetSymPtFromBpfLocation keep_all two_syms 0xffffffff80000010 [] = Ret (res, c')"
    "case res of
       Inl e \<Rightarrow> \<forall>k \<in> set two_syms. 0xffffffff80000010 < ks_start k
     | Inr r \<Rightarrow> \<exists>k \<in> set two_syms. r = symbol_at 0xffffffff80000010 k \<and> ks_start k \<le> 0xffffffff80000010 \<and>
         (\<forall>k' \<in> set two_syms. ks_start k' \<le> 0xffffffff80000010 \<longrightarrow> ks_start k' \<le> ks_start k)"
    by blast
  then have "res = Inr (symbol_at 0xffffffff80000010 (two_syms ! 0))"
    by (cases res) (simp_all add: two_syms_def)
  moreover have "symbol_at 0xffffffff80000010 (two_syms ! 0) =
      \<lparr>ks_start = 0xffffffff80000000, ks_symboltype = ''nf_hook_slow'', ks_symbol = ''nf_hook_slow'',
       ks_module = ''[nf]'', ks_offset = 16\<rparr>"
    by (simp add: two_syms_def symbol_at_def)
  ultimately show ?thesis using r(1) by simp
qed

end
