(* ===== verification/PacketlossExport.thy ===== *)
theory PacketlossExport
  imports Packetloss Export Kallsyms
begin

text \<open>
  The user-space half of the packet loss probe,
  \<^verbatim>\<open>src/pkg/exporter/probe/tracepacketloss/packetloss.go\<close>: the loop over the events of the kernel, the
  counters per protocol and hosts, and their collection. The counters are shared objects, the cache holds
  pointers to them; they live in an explicit heap. Caches, clock, stack traces and the ring buffer are
  library code and are arguments.
\<close>

section \<open>State\<close>

record Counter =
  c_lastUpdate :: s64
  c_snatched :: bool
  c_Total :: u32
  c_Netfilter :: u32

record cacheKey =
  ck_protocol :: u8
  ck_src :: string
  ck_dst :: string

record Event =
  e_Timestamp :: s64
  e_Type :: string
  e_Labels :: "Label list"
  e_Message :: string

text \<open>The address of a counter is its index in the heap; the cache never holds \<^verbatim>\<open>nil\<close>.\<close>

record ('c, 'd) packetLossProbe =
  p_cache :: 'c
  p_heap :: "Counter list"
  p_locationCache :: 'd
  p_sink :: "Event list option"

record ('c, 'd) plenv =
  pe_lru :: "('c, cacheKey, nat) lru"
  pe_loc :: "('d, u64, KernelSymbol) lru"
  pe_kallsyms :: "KernelSymbol list"
  pe_stackmap :: "u32 \<Rightarrow> u64 list option"
  pe_enableStack :: bool
  pe_ipcache :: nettop_IPCache
  pe_node :: string

definition new_Counter :: Counter where
  "new_Counter = \<lparr>c_lastUpdate = 0, c_snatched = False, c_Total = 0, c_Netfilter = 0\<rparr>"

definition uselessSymbols :: "string list" where
  "uselessSymbols = [''sk_stream_kill_queues'', ''unix_release_sock'', ''nfnetlink_rcv_batch'', ''skb_queue_purge'']"

definition ignoreSymbolList :: "string list" where
  "ignoreSymbolList = []"

definition netfilterSymbol :: string where
  "netfilterSymbol = ''nf_hook_slow''"

section \<open>The loop over the events\<close>

definition toProbeTuple :: "tuple \<Rightarrow> Tuple_t" where
  "toProbeTuple t =
     \<lparr>t_Protocol = l4_proto t, t_Sport = sport t, t_Dport = dport t,
      t_Src = GetAddrStr (l3_proto t) (saddr t), t_Dst = GetAddrStr (l3_proto t) (daddr t)\<rparr>"

definition find_symbol ::
    "('c, 'd) plenv \<Rightarrow> u64 \<Rightarrow> ('c, 'd) packetLossProbe \<Rightarrow> ((sym_error + KernelSymbol) \<times> ('c, 'd) packetLossProbe) go" where
  "find_symbol E loc p =
     go_bind (GetSymPtFromBpfLocation (pe_loc E) (pe_kallsyms E) loc (p_locationCache p))
       (\<lambda>(r, d). Ret (r, p\<lparr>p_locationCache := d\<rparr>))"

definition ignoreLocation ::
    "('c, 'd) plenv \<Rightarrow> u64 \<Rightarrow> ('c, 'd) packetLossProbe \<Rightarrow> (bool \<times> ('c, 'd) packetLossProbe) go" where
  "ignoreLocation E loc p =
     go_bind (find_symbol E loc p) (\<lambda>(r, p).
       Ret (case r of Inl _ \<Rightarrow> False | Inr k \<Rightarrow> ks_symbol k \<in> set uselessSymbols, p))"

text \<open>An assignment through a pointer to a counter.\<close>

definition modify_counter ::
    "(Counter \<Rightarrow> Counter) \<Rightarrow> nat \<Rightarrow> ('c, 'd) packetLossProbe \<Rightarrow> ('c, 'd) packetLossProbe" where
  "modify_counter f a p = p\<lparr>p_heap := (p_heap p)[a := f (p_heap p ! a)]\<rparr>"

definition countByLocation ::
    "('c, 'd) plenv \<Rightarrow> u64 \<Rightarrow> nat \<Rightarrow> ('c, 'd) packetLossProbe \<Rightarrow> ('c, 'd) packetLossProbe go" where
  "countByLocation E loc a p =
     go_bind (find_symbol E loc p) (\<lambda>(r, p).
       case r of
         Inl _ \<Rightarrow> Ret p
       | Inr k \<Rightarrow>
           if ks_symbol k = netfilterSymbol
           then Ret (modify_counter (\<lambda>v. v\<lparr>c_Netfilter := c_Netfilter v + 1\<rparr>) a p)
           else Ret p)"


definition tuple_key :: "Tuple_t \<Rightarrow> cacheKey" where
  "tuple_key t = \<lparr>ck_protocol = t_Protocol t, ck_src = t_Src t, ck_dst = t_Dst t\<rparr>"

definition get_counter :: "('c, 'd) plenv \<Rightarrow> cacheKey \<Rightarrow> ('c, 'd) packetLossProbe \<Rightarrow> nat \<times> ('c, 'd) packetLossProbe" where
  "get_counter E key p =
     (case lru_Get (pe_lru E) (p_cache p) key of
        (Some a, c) \<Rightarrow> (a, p\<lparr>p_cache := c\<rparr>)
      | (None, c) \<Rightarrow>
          let a = length (p_heap p)
          in (a, p\<lparr>p_heap := p_heap p @ [new_Counter], p_cache := lru_Add (pe_lru E) c key a\<rparr>))"

text \<open>\<open>now\<close> is the reading of the clock.\<close>

definition add2Cache ::
    "('c, 'd) plenv \<Rightarrow> u64 \<Rightarrow> Tuple_t \<Rightarrow> s64 \<Rightarrow> ('c, 'd) packetLossProbe \<Rightarrow> ('c, 'd) packetLossProbe go" where
  "add2Cache E loc t now p =
     (let key = tuple_key t;
          (a, p) = get_counter E key p;
          p = modify_counter (\<lambda>v. v\<lparr>c_Total := c_Total v + 1\<rparr>) a p
      in go_bind (countByLocation E loc a p) (\<lambda>p.
           Ret (modify_counter (\<lambda>v. v\<lparr>c_lastUpdate := now, c_snatched := False\<rparr>) a p)))"

text \<open>
  What a round of the loop reads: an error, the closing, lost samples, a sample that does not decode, or
  one with its event. A start or stop of the other half of the probe sets the reader to
  \<^verbatim>\<open>nil\<close>; a loop that is busy with an event at that time then reads through the nil pointer.
\<close>

datatype perf_record = NoReader | ReadFailed | Closed | LostSamples nat | Malformed | Sample insp_pl_event_t

text \<open>The stack of an event as text; no text at all if a symbol is to be ignored.\<close>

definition stack_message :: "KernelSymbol list \<Rightarrow> string option" where
  "stack_message stacks =
     (if \<exists>k \<in> set stacks. ks_symbol k \<in> set ignoreSymbolList then None
      else Some (join [CHR 0x0A] (map GetExpr stacks)))"

definition send :: "Event \<Rightarrow> ('c, 'd) packetLossProbe \<Rightarrow> ('c, 'd) packetLossProbe" where
  "send e p = (case p_sink p of None \<Rightarrow> p | Some es \<Rightarrow> p\<lparr>p_sink := Some (es @ [e])\<rparr>)"

definition handle_event ::
    "('c, 'd) plenv \<Rightarrow> insp_pl_event_t \<Rightarrow> s64 \<times> s64 \<Rightarrow> ('c, 'd) packetLossProbe \<Rightarrow> ('c, 'd) packetLossProbe go" where
  "handle_event E event now p =
     go_bind (ignoreLocation E (pl_location event) p) (\<lambda>(ignore, p).
       if ignore then Ret p
       else
         let t = toProbeTuple (pl_tuple event)
         in go_bind (add2Cache E (pl_location event) t (fst now) p) (\<lambda>p.
           let evt = \<lparr>e_Timestamp = snd now, e_Type = ''PacketLoss'',
                 e_Labels = BuildTupleEventLabels (pe_ipcache E) t, e_Message = ''''\<rparr>
           in if pe_enableStack E then
                case pe_stackmap E (ucast (pl_stack_id event)) of
                  None \<Rightarrow> Ret p
                | Some addrs \<Rightarrow>
                    go_bind (GetSymsByStack (pe_loc E) (pe_kallsyms E) addrs (p_locationCache p)) (\<lambda>(stacks, d).
                      let p = p\<lparr>p_locationCache := d\<rparr>
                      in case stack_message stacks of
                           None \<Rightarrow> Ret p
                         | Some m \<Rightarrow> Ret (send (evt\<lparr>e_Message := m\<rparr>) p))
              else Ret (send evt p)))"

text \<open>The loop ends when the reader is closed; at the end of the records it waits.\<close>

fun perfLoop ::
    "('c, 'd) plenv \<Rightarrow> (perf_record \<times> s64 \<times> s64) list \<Rightarrow> ('c, 'd) packetLossProbe \<Rightarrow> ('c, 'd) packetLossProbe go" where
  "perfLoop E [] p = Ret p"
| "perfLoop E ((r, now) # rs) p =
     (case r of
        NoReader \<Rightarrow> Panic
      | Closed \<Rightarrow> Ret p
      | ReadFailed \<Rightarrow> perfLoop E rs p
      | LostSamples _ \<Rightarrow> perfLoop E rs p
      | Malformed \<Rightarrow> perfLoop E rs p
      | Sample event \<Rightarrow> go_bind (handle_event E event now p) (perfLoop E rs))"

section \<open>Collection\<close>

definition pl_labels :: "('c, 'd) plenv \<Rightarrow> cacheKey \<Rightarrow> string list" where
  "pl_labels E key =
     BuildTupleMetricsLabels (pe_ipcache E)
       \<lparr>t_Protocol = ck_protocol key, t_Sport = 0, t_Dport = 0, t_Src = ck_src key, t_Dst = ck_dst key\<rparr> @
     [pe_node E]"

definition collect_counter ::
    "('c, 'd) plenv \<Rightarrow> (cacheKey \<Rightarrow> s64) \<Rightarrow> emission list \<times> ('c, 'd) packetLossProbe \<Rightarrow> cacheKey \<Rightarrow>
     emission list \<times> ('c, 'd) packetLossProbe" where
  "collect_counter E now s key =
     (let (out, p) = s in
      case lru_Get (pe_lru E) (p_cache p) key of
        (None, c) \<Rightarrow> (out, p\<lparr>p_cache := c\<rparr>)
      | (Some a, c) \<Rightarrow>
          let p = p\<lparr>p_cache := c\<rparr>;
              counter = p_heap p ! a;
              p = (if sint (now key - c_lastUpdate counter) > 30 * 1000000000 \<and> c_snatched counter
                   then modify_counter (\<lambda>v. v\<lparr>c_Total := 0, c_Netfilter := 0\<rparr>) a
                          (p\<lparr>p_cache := lru_Remove (pe_lru E) (p_cache p) key\<rparr>)
                   else p);
              labels = pl_labels E key;
              counter = p_heap p ! a
          in (out @ [(''total'', labels, float64 (unat (c_Total counter))), (''netfilter'', labels, float64 (unat (c_Netfilter counter)))],
              modify_counter (\<lambda>v. v\<lparr>c_snatched := True\<rparr>) a p))"

definition pl_collectOnce ::
    "('c, 'd) plenv \<Rightarrow> (cacheKey \<Rightarrow> s64) \<Rightarrow> ('c, 'd) packetLossProbe \<Rightarrow> emission list \<times> ('c, 'd) packetLossProbe" where
  "pl_collectOnce E now p = foldl (collect_counter E now) ([], p) (lru_Keys (pe_lru E) (p_cache p))"

section \<open>Counting\<close>

text \<open>The losses of a key among the events of the kernel, and those in the packet filter.\<close>

definition event_key :: "insp_pl_event_t \<Rightarrow> cacheKey" where
  "event_key event = tuple_key (toProbeTuple (pl_tuple event))"

definition located :: "KernelSymbol list \<Rightarrow> string list \<Rightarrow> u64 \<Rightarrow> bool" where
  "located ks names loc = (case locate ks loc of None \<Rightarrow> False | Some k \<Rightarrow> ks_symbol k \<in> set names)"

definition counted_loss :: "KernelSymbol list \<Rightarrow> insp_pl_event_t \<Rightarrow> bool" where
  "counted_loss ks event \<longleftrightarrow> \<not> located ks uselessSymbols (pl_location event)"

definition losses :: "KernelSymbol list \<Rightarrow> insp_pl_event_t list \<Rightarrow> cacheKey \<Rightarrow> insp_pl_event_t list" where
  "losses ks evs key = filter (\<lambda>e. counted_loss ks e \<and> event_key e = key) evs"

definition netfilter_losses :: "KernelSymbol list \<Rightarrow> insp_pl_event_t list \<Rightarrow> cacheKey \<Rightarrow> insp_pl_event_t list" where
  "netfilter_losses ks evs key = filter (\<lambda>e. located ks [netfilterSymbol] (pl_location e)) (losses ks evs key)"

fun samples :: "(perf_record \<times> s64 \<times> s64) list \<Rightarrow> insp_pl_event_t list" where
  "samples [] = []"
| "samples ((r, now) # rs) = (case r of Closed \<Rightarrow> [] | Sample e \<Rightarrow> e # samples rs | _ \<Rightarrow> samples rs)"

record ('c, 'd) pl_views =
  v_cache :: "'c \<Rightarrow> cacheKey \<rightharpoonup> nat"
  v_loc :: "'d \<Rightarrow> u64 \<rightharpoonup> KernelSymbol"

definition env_ok :: "('c, 'd) plenv \<Rightarrow> ('c, 'd) pl_views \<Rightarrow> bool" where
  "env_ok E V \<longleftrightarrow>
     lru_ok 10240 (pe_lru E) (v_cache V) \<and> lru_ok 100 (pe_loc E) (v_loc V) \<and>
     addr_sorted (pe_kallsyms E) \<and> pe_kallsyms E \<noteq> []"

definition counter_of :: "KernelSymbol list \<Rightarrow> insp_pl_event_t list \<Rightarrow> cacheKey \<Rightarrow> Counter \<Rightarrow> bool" where
  "counter_of ks evs key v \<longleftrightarrow>
     c_Total v = of_nat (length (losses ks evs key)) \<and>
     c_Netfilter v = of_nat (length (netfilter_losses ks evs key)) \<and> \<not> c_snatched v"

text \<open>The counters of the keys in \<open>D\<close>, each with an object of its own, say what happened in \<open>evs\<close>.\<close>

definition counters_ok ::
    "KernelSymbol list \<Rightarrow> cacheKey set \<Rightarrow> insp_pl_event_t list \<Rightarrow> (cacheKey \<rightharpoonup> nat) \<Rightarrow> Counter list \<Rightarrow> bool" where
  "counters_ok ks D evs m h \<longleftrightarrow>
     dom m = D \<and>
     (\<forall>key a. m key = Some a \<longrightarrow> a < length h \<and> counter_of ks evs key (h ! a)) \<and>
     (\<forall>key key' a. m key = Some a \<longrightarrow> m key' = Some a \<longrightarrow> key = key')"

definition counted_keys :: "KernelSymbol list \<Rightarrow> insp_pl_event_t list \<Rightarrow> cacheKey set" where
  "counted_keys ks evs = event_key ` set (filter (counted_loss ks) evs)"

definition pl_inv ::
    "('c, 'd) plenv \<Rightarrow> ('c, 'd) pl_views \<Rightarrow> insp_pl_event_t list \<Rightarrow> ('c, 'd) packetLossProbe \<Rightarrow> bool" where
  "pl_inv E V evs p \<longleftrightarrow>
     counters_ok (pe_kallsyms E) (counted_keys (pe_kallsyms E) evs) evs (v_cache V (p_cache p)) (p_heap p) \<and>
     locations_ok (pe_kallsyms E) (v_loc V (p_locationCache p))"

lemma find_symbol_locate:
  assumes "env_ok E V" and "locations_ok (pe_kallsyms E) (v_loc V (p_locationCache p))"
  shows "\<exists>d. find_symbol E loc p =
      Ret (case locate (pe_kallsyms E) loc of None \<Rightarrow> Inl AddrNotFound | Some k \<Rightarrow> Inr k, p\<lparr>p_locationCache := d\<rparr>) \<and>
    locations_ok (pe_kallsyms E) (v_loc V d)"
  using GetSymPtFromBpfLocation_locate [of 100 "pe_loc E" "v_loc V" "pe_kallsyms E" "p_locationCache p" loc] assms
  by (auto simp: env_ok_def find_symbol_def)

lemma ignoreLocation_located:
  assumes "env_ok E V" and "locations_ok (pe_kallsyms E) (v_loc V (p_locationCache p))"
  shows "\<exists>d. ignoreLocation E loc p = Ret (located (pe_kallsyms E) uselessSymbols loc, p\<lparr>p_locationCache := d\<rparr>) \<and>
    locations_ok (pe_kallsyms E) (v_loc V d)"
proof -
  obtain d where d: "find_symbol E loc p =
      Ret (case locate (pe_kallsyms E) loc of None \<Rightarrow> Inl AddrNotFound | Some k \<Rightarrow> Inr k, p\<lparr>p_locationCache := d\<rparr>)"
    "locations_ok (pe_kallsyms E) (v_loc V d)" using find_symbol_locate [OF assms] by blast
  then have "ignoreLocation E loc p = Ret (located (pe_kallsyms E) uselessSymbols loc, p\<lparr>p_locationCache := d\<rparr>)"
    by (simp add: ignoreLocation_def located_def split: option.splits)
  with d(2) show ?thesis by blast
qed

lemma countByLocation_located:
  assumes "env_ok E V" and "locations_ok (pe_kallsyms E) (v_loc V (p_locationCache p))"
  shows "\<exists>d. countByLocation E loc a p =
      Ret ((if located (pe_kallsyms E) [netfilterSymbol] loc
            then modify_counter (\<lambda>v. v\<lparr>c_Netfilter := c_Netfilter v + 1\<rparr>) a p else p)\<lparr>p_locationCache := d\<rparr>) \<and>
    locations_ok (pe_kallsyms E) (v_loc V d)"
proof -
  obtain d where d: "find_symbol E loc p =
      Ret (case locate (pe_kallsyms E) loc of None \<Rightarrow> Inl AddrNotFound | Some k \<Rightarrow> Inr k, p\<lparr>p_locationCache := d\<rparr>)"
    "locations_ok (pe_kallsyms E) (v_loc V d)" using find_symbol_locate [OF assms] by blast
  then have "countByLocation E loc a p =
      Ret ((if located (pe_kallsyms E) [netfilterSymbol] loc
            then modify_counter (\<lambda>v. v\<lparr>c_Netfilter := c_Netfilter v + 1\<rparr>) a p else p)\<lparr>p_locationCache := d\<rparr>)"
    by (simp add: countByLocation_def located_def modify_counter_def split: option.splits)
  with d(2) show ?thesis by blast
qed


text \<open>Allocation and assignment on the counters.\<close>

lemma counters_ok_alloc:
  assumes "counters_ok ks D evs m h" and "key \<notin> D" and "losses ks evs key = []"
  shows "counters_ok ks (insert key D) evs (m(key \<mapsto> length h)) (h @ [new_Counter])"
proof -
  have "counter_of ks evs key new_Counter"
    using assms(3) by (simp add: counter_of_def new_Counter_def netfilter_losses_def)
  moreover have "a < length h \<and> counter_of ks evs key' (h ! a)" if "m key' = Some a" for key' a
    using assms(1) that by (simp add: counters_ok_def)
  moreover have "dom m = D" "m key' = Some a \<Longrightarrow> m key'' = Some a \<Longrightarrow> key' = key''" for key' key'' a
    using assms(1) unfolding counters_ok_def by (blast, blast)
  ultimately show ?thesis unfolding counters_ok_def
    by (fastforce simp: nth_append less_Suc_eq split: if_splits)
qed

lemma counters_ok_assign:
  assumes "counters_ok ks D evs m h" and "m key = Some a" and "event_key e = key"
    and "counter_of ks (evs @ [e]) key v"
  shows "counters_ok ks D (evs @ [e]) m (h[a := v])"
proof -
  have "counter_of ks (evs @ [e]) key' (h ! b)" if "m key' = Some b" "key' \<noteq> key" for key' b
    using assms(1,3) that by (simp add: counters_ok_def counter_of_def losses_def netfilter_losses_def)
  moreover have "b \<noteq> a" if "m key' = Some b" "key' \<noteq> key" for key' b
    using assms(1,2) that unfolding counters_ok_def by blast
  ultimately show ?thesis using assms unfolding counters_ok_def
    by (metis length_list_update nth_list_update_eq nth_list_update_neq option.inject)
qed

lemma get_counter_ok:
  assumes env: "env_ok E V" and inv: "counters_ok ks D evs (v_cache V (p_cache p)) (p_heap p)"
    and "finite D" and "card (insert key D) \<le> 10240" and "key \<notin> D \<Longrightarrow> losses ks evs key = []"
  shows "\<exists>a p'. get_counter E key p = (a, p') \<and> v_cache V (p_cache p') key = Some a \<and>
    counters_ok ks (insert key D) evs (v_cache V (p_cache p')) (p_heap p') \<and>
    p_locationCache p' = p_locationCache p"
proof -
  have ok: "lru_ok 10240 (pe_lru E) (v_cache V)" using env by (simp add: env_ok_def)
  obtain r c where get: "lru_Get (pe_lru E) (p_cache p) key = (r, c)" by fastforce
  have r: "r = v_cache V (p_cache p) key" "v_cache V c = v_cache V (p_cache p)"
    using lru_ok_Get [OF ok, of "p_cache p" key] get by simp_all
  have dom: "dom (v_cache V c) = D" using inv r(2) by (simp add: counters_ok_def)
  show ?thesis
  proof (cases r)
    case (Some a)
    then have "key \<in> D" using r dom by (metis domI)
    then show ?thesis using get Some r inv by (simp add: get_counter_def insert_absorb)
  next
    case None
    then have new: "key \<notin> D" using r dom by (metis domIff)
    then have "card (dom (v_cache V c)) < 10240" using assms(3,4) dom by simp
    then have "v_cache V (lru_Add (pe_lru E) c key a) = (v_cache V c)(key \<mapsto> a)" for a
      using ok by (simp add: lru_ok_def)
    then show ?thesis
      using get None r(2) counters_ok_alloc [OF inv new assms(5) [OF new]]
      by (simp add: get_counter_def Let_def)
  qed
qed

text \<open>The assignments of one event together.\<close>

definition count_event :: "KernelSymbol list \<Rightarrow> u64 \<Rightarrow> s64 \<Rightarrow> Counter \<Rightarrow> Counter" where
  "count_event ks loc now v =
     v\<lparr>c_Total := c_Total v + 1, c_Netfilter := c_Netfilter v + (if located ks [netfilterSymbol] loc then 1 else 0),
       c_lastUpdate := now, c_snatched := False\<rparr>"

lemma add2Cache_eq:
  assumes env: "env_ok E V" and loc: "locations_ok (pe_kallsyms E) (v_loc V (p_locationCache p))"
    and get: "get_counter E (tuple_key t) p = (a, p')" "p_locationCache p' = p_locationCache p"
    and a: "a < length (p_heap p')"
  shows "\<exists>d. add2Cache E l t now p =
      Ret (p'\<lparr>p_heap := (p_heap p')[a := count_event (pe_kallsyms E) l now (p_heap p' ! a)], p_locationCache := d\<rparr>) \<and>
    locations_ok (pe_kallsyms E) (v_loc V d)"
proof -
  let ?p = "modify_counter (\<lambda>v. v\<lparr>c_Total := c_Total v + 1\<rparr>) a p'"
  have "locations_ok (pe_kallsyms E) (v_loc V (p_locationCache ?p))"
    using loc get(2) by (simp add: modify_counter_def)
  from countByLocation_located [OF env this, of l a] obtain d where
    "countByLocation E l a ?p =
      Ret ((if located (pe_kallsyms E) [netfilterSymbol] l
            then modify_counter (\<lambda>v. v\<lparr>c_Netfilter := c_Netfilter v + 1\<rparr>) a ?p else ?p)\<lparr>p_locationCache := d\<rparr>)"
    "locations_ok (pe_kallsyms E) (v_loc V d)" by blast
  then show ?thesis
    using get(1) a by (intro exI [of _ d]) (simp add: add2Cache_def modify_counter_def count_event_def Let_def)
qed

lemma count_event_counter_of:
  assumes "counter_of ks evs key v" and "event_key e = key" and "counted_loss ks e"
  shows "counter_of ks (evs @ [e]) key (count_event ks (pl_location e) now v)"
  using assms by (simp add: counter_of_def count_event_def losses_def netfilter_losses_def)

lemma add2Cache_inv:
  assumes env: "env_ok E V" and inv: "pl_inv E V evs p" and e: "counted_loss (pe_kallsyms E) e"
    and card: "card (counted_keys (pe_kallsyms E) (evs @ [e])) \<le> 10240"
  shows "\<exists>p'. add2Cache E (pl_location e) (toProbeTuple (pl_tuple e)) now p = Ret p' \<and> pl_inv E V (evs @ [e]) p'"
proof -
  let ?ks = "pe_kallsyms E" and ?key = "event_key e" and ?D = "counted_keys (pe_kallsyms E) evs"
  have D: "counted_keys ?ks (evs @ [e]) = insert ?key ?D" "finite ?D"
    using e by (simp_all add: counted_keys_def)
  have "?key \<notin> ?D \<Longrightarrow> losses ?ks evs ?key = []"
    by (auto simp: counted_keys_def losses_def filter_empty_conv image_iff)
  from get_counter_ok [OF env _ D(2) _ this, of p] obtain a p' where
    get: "get_counter E ?key p = (a, p')" "v_cache V (p_cache p') ?key = Some a"
      "p_locationCache p' = p_locationCache p"
    and ok: "counters_ok ?ks (insert ?key ?D) evs (v_cache V (p_cache p')) (p_heap p')"
    using inv card D(1) by (auto simp: pl_inv_def)
  have a: "a < length (p_heap p')" "counter_of ?ks evs ?key (p_heap p' ! a)"
    using ok get(2) by (simp_all add: counters_ok_def)
  have "locations_ok ?ks (v_loc V (p_locationCache p))" using inv by (simp add: pl_inv_def)
  from add2Cache_eq [OF env this _ get(3) a(1), of "toProbeTuple (pl_tuple e)" "pl_location e" now] get(1)
  obtain d where
    add: "add2Cache E (pl_location e) (toProbeTuple (pl_tuple e)) now p =
      Ret (p'\<lparr>p_heap := (p_heap p')[a := count_event ?ks (pl_location e) now (p_heap p' ! a)], p_locationCache := d\<rparr>)"
    and d: "locations_ok ?ks (v_loc V d)" by (auto simp: event_key_def)
  have "counters_ok ?ks (insert ?key ?D) (evs @ [e]) (v_cache V (p_cache p'))
      ((p_heap p')[a := count_event ?ks (pl_location e) now (p_heap p' ! a)])"
    by (rule counters_ok_assign [OF ok get(2) refl count_event_counter_of [OF a(2) refl e]])
  with add d show ?thesis by (simp add: pl_inv_def D(1))
qed


text \<open>What follows the counting of an event leaves the counters alone.\<close>

lemma pl_inv_send: "pl_inv E V evs (send e p) = pl_inv E V evs p"
  by (simp add: send_def pl_inv_def split: option.splits)

lemma stack_message_Some: "stack_message stacks = Some (join [CHR 0x0A] (map GetExpr stacks))"
  by (simp add: stack_message_def ignoreSymbolList_def)

lemma pl_inv_locations: "pl_inv E V evs p \<Longrightarrow> locations_ok (pe_kallsyms E) (v_loc V d) \<Longrightarrow> pl_inv E V evs (p\<lparr>p_locationCache := d\<rparr>)"
  by (simp add: pl_inv_def)

lemma handle_event_inv:
  assumes env: "env_ok E V" and inv: "pl_inv E V evs p"
    and card: "card (counted_keys (pe_kallsyms E) (evs @ [e])) \<le> 10240"
  shows "\<exists>p'. handle_event E e now p = Ret p' \<and> pl_inv E V (evs @ [e]) p'"
proof -
  have "locations_ok (pe_kallsyms E) (v_loc V (p_locationCache p))" using inv by (simp add: pl_inv_def)
  from ignoreLocation_located [OF env this, of "pl_location e"] obtain d where
    ign: "ignoreLocation E (pl_location e) p =
      Ret (located (pe_kallsyms E) uselessSymbols (pl_location e), p\<lparr>p_locationCache := d\<rparr>)"
    and d: "locations_ok (pe_kallsyms E) (v_loc V d)" by blast
  let ?p = "p\<lparr>p_locationCache := d\<rparr>"
  have inv': "pl_inv E V evs ?p" using pl_inv_locations [OF inv d] .
  show ?thesis
  proof (cases "counted_loss (pe_kallsyms E) e")
    case False
    then have "losses (pe_kallsyms E) (evs @ [e]) = losses (pe_kallsyms E) evs"
      "counted_keys (pe_kallsyms E) (evs @ [e]) = counted_keys (pe_kallsyms E) evs"
      by (auto simp: losses_def counted_keys_def)
    then have "pl_inv E V (evs @ [e]) ?p"
      using inv' by (simp add: pl_inv_def counters_ok_def counter_of_def netfilter_losses_def)
    then show ?thesis using ign False by (simp add: handle_event_def counted_loss_def)
  next
    case True
    obtain p' where p': "add2Cache E (pl_location e) (toProbeTuple (pl_tuple e)) (fst now) ?p = Ret p'"
      "pl_inv E V (evs @ [e]) p'" using add2Cache_inv [OF env inv' True card] by blast
    have loc: "lru_ok 100 (pe_loc E) (v_loc V)" "addr_sorted (pe_kallsyms E)" "pe_kallsyms E \<noteq> []"
      using env by (simp_all add: env_ok_def)
    have "locations_ok (pe_kallsyms E) (v_loc V (p_locationCache p'))" using p'(2) by (simp add: pl_inv_def)
    note stack = GetSymsByStack_locate [OF loc this]
    have "\<exists>p''. handle_event E e now p = Ret p'' \<and> pl_inv E V (evs @ [e]) p''"
    proof (cases "pe_enableStack E")
      case False
      then show ?thesis
        using ign True p' by (simp add: handle_event_def counted_loss_def Let_def pl_inv_send)
    next
      case stacks: True
      show ?thesis
      proof (cases "pe_stackmap E (ucast (pl_stack_id e))")
        case None
        then show ?thesis using ign True p' stacks by (simp add: handle_event_def counted_loss_def Let_def)
      next
        case (Some addrs)
        obtain d' where "GetSymsByStack (pe_loc E) (pe_kallsyms E) addrs (p_locationCache p') =
            Ret (List.map_filter (locate (pe_kallsyms E)) addrs, d')"
          "locations_ok (pe_kallsyms E) (v_loc V d')" using stack by blast
        then show ?thesis
          using ign True p' stacks Some pl_inv_locations [OF p'(2)]
          by (simp add: handle_event_def counted_loss_def Let_def stack_message_Some pl_inv_send)
      qed
    qed
    then show ?thesis .
  qed
qed

lemma counted_keys_mono: "set evs \<subseteq> set evs' \<Longrightarrow> card (counted_keys ks evs) \<le> card (counted_keys ks evs')"
  by (rule card_mono) (auto simp: counted_keys_def)

lemma perfLoop_inv:
  assumes env: "env_ok E V" and "pl_inv E V evs p"
    and "card (counted_keys (pe_kallsyms E) (evs @ samples rs)) \<le> 10240" and "NoReader \<notin> fst ` set rs"
  shows "\<exists>p'. perfLoop E rs p = Ret p' \<and> pl_inv E V (evs @ samples rs) p'"
  using assms(2-4)
proof (induction rs arbitrary: evs p)
  case (Cons x rs)
  obtain r now where x: "x = (r, now)" by (cases x)
  show ?case
  proof (cases r)
    case (Sample e)
    have "set (evs @ [e]) \<subseteq> set (evs @ samples (x # rs))" by (auto simp: x Sample)
    then have "card (counted_keys (pe_kallsyms E) (evs @ [e])) \<le> 10240"
      using Cons.prems(2) counted_keys_mono le_trans by blast
    from handle_event_inv [OF env Cons.prems(1) this, of now] obtain p' where
      "handle_event E e now p = Ret p'" "pl_inv E V (evs @ [e]) p'" by blast
    with Cons.IH [of "evs @ [e]" p'] Cons.prems(2,3) show ?thesis by (simp add: x Sample)
  qed (use Cons in \<open>simp_all add: x\<close>)
qed simp


section \<open>Exported counters\<close>

definition counter_emissions :: "('c, 'd) plenv \<Rightarrow> cacheKey \<Rightarrow> nat \<Rightarrow> nat \<Rightarrow> emission list" where
  "counter_emissions E key t n =
     [(''total'', pl_labels E key, t), (''netfilter'', pl_labels E key, n)]"

lemma collect_counter_fresh:
  assumes "lru_ok cap (pe_lru E) view" and "view (p_cache p) key = Some a" and "\<not> c_snatched (p_heap p ! a)"
  shows "\<exists>p'. collect_counter E now (out, p) key =
      (out @ counter_emissions E key (unat (c_Total (p_heap p ! a))) (unat (c_Netfilter (p_heap p ! a))), p') \<and>
    view (p_cache p') = view (p_cache p) \<and> (\<forall>b. b \<noteq> a \<longrightarrow> p_heap p' ! b = p_heap p ! b)"
proof -
  obtain r c where get: "lru_Get (pe_lru E) (p_cache p) key = (r, c)" by fastforce
  have "r = Some a" "view c = view (p_cache p)"
    using lru_ok_Get [OF assms(1), of "p_cache p" key] get assms(2) by simp_all
  then show ?thesis
    using get assms(3) by (simp add: collect_counter_def modify_counter_def counter_emissions_def float64_u32 Let_def)
qed

lemma collect_fresh:
  assumes ok: "lru_ok cap (pe_lru E) view" and "distinct keys" and "view (p_cache p) = m"
    and inj: "\<And>key key' a. m key = Some a \<Longrightarrow> m key' = Some a \<Longrightarrow> key = key'"
    and "\<forall>key \<in> set keys. \<exists>a. m key = Some a \<and> p_heap p ! a = h key \<and> \<not> c_snatched (h key)"
  shows "fst (foldl (collect_counter E now) (out, p) keys) =
    out @ concat (map (\<lambda>key. counter_emissions E key (unat (c_Total (h key))) (unat (c_Netfilter (h key)))) keys)"
  using assms(2,3,5)
proof (induction keys arbitrary: out p)
  case (Cons key keys)
  obtain a where a: "m key = Some a" "p_heap p ! a = h key" "\<not> c_snatched (h key)" using Cons.prems(3) by auto
  obtain p' where p': "collect_counter E now (out, p) key =
      (out @ counter_emissions E key (unat (c_Total (h key))) (unat (c_Netfilter (h key))), p')"
    "view (p_cache p') = m" "\<forall>b. b \<noteq> a \<longrightarrow> p_heap p' ! b = p_heap p ! b"
    using collect_counter_fresh [OF ok, of p key a now out] a Cons.prems(2) by auto
  have "\<exists>b. m key' = Some b \<and> p_heap p' ! b = h key' \<and> \<not> c_snatched (h key')" if k: "key' \<in> set keys" for key'
  proof -
    obtain b where b: "m key' = Some b" "p_heap p ! b = h key'" "\<not> c_snatched (h key')"
      using Cons.prems(3) k by auto
    have "key' \<noteq> key" using Cons.prems(1) k by auto
    then have "b \<noteq> a" using inj [of key' b key] a(1) b(1) by auto
    then show ?thesis using b p'(3) by auto
  qed
  then show ?case using Cons.IH [of p'] Cons.prems(1) p' by simp
qed simp

text \<open>
  With symbols to search and while the reader is there, the loop does not panic whatever the records are,
  and the next collection publishes one pair of samples for each protocol and pair of hosts that lost a
  packet, up to 10240 of them.
\<close>

lemma losses_published:
  assumes "env_ok E V" and "v_cache V (p_cache p) = Map.empty"
    and "locations_ok (pe_kallsyms E) (v_loc V (p_locationCache p))"
    and "card (counted_keys (pe_kallsyms E) (samples rs)) \<le> 10240" and "NoReader \<notin> fst ` set rs"
  shows "\<exists>p' keys. perfLoop E rs p = Ret p' \<and> distinct keys \<and>
    set keys = counted_keys (pe_kallsyms E) (samples rs) \<and>
    fst (pl_collectOnce E now p') =
      concat (map (\<lambda>key. counter_emissions E key
        (length (losses (pe_kallsyms E) (samples rs) key) mod 2 ^ 32)
        (length (netfilter_losses (pe_kallsyms E) (samples rs) key) mod 2 ^ 32)) keys)"
proof -
  let ?ks = "pe_kallsyms E" and ?evs = "samples rs"
  have "pl_inv E V [] p"
    using assms(2,3) by (simp add: pl_inv_def counters_ok_def counted_keys_def)
  then obtain p' where p': "perfLoop E rs p = Ret p'" "pl_inv E V ?evs p'"
    using perfLoop_inv [OF assms(1), of "[]" p rs] assms(4,5) by auto
  have lru: "lru_ok 10240 (pe_lru E) (v_cache V)" using assms(1) by (simp add: env_ok_def)
  let ?m = "v_cache V (p_cache p')" and ?keys = "lru_Keys (pe_lru E) (p_cache p')"
  have ok: "counters_ok ?ks (counted_keys ?ks ?evs) ?evs ?m (p_heap p')" using p'(2) by (simp add: pl_inv_def)
  have keys: "distinct ?keys" "set ?keys = counted_keys ?ks ?evs"
    using lru ok by (simp_all add: lru_ok_def counters_ok_def)
  define h where "h key = p_heap p' ! the (?m key)" for key
  have h: "counter_of ?ks ?evs key (h key)" "\<exists>a. ?m key = Some a \<and> p_heap p' ! a = h key" if "key \<in> set ?keys" for key
    using ok that keys(2) unfolding counters_ok_def h_def by (metis domD option.sel)+
  have "fst (pl_collectOnce E now p') =
      concat (map (\<lambda>key. counter_emissions E key (unat (c_Total (h key))) (unat (c_Netfilter (h key)))) ?keys)"
    unfolding pl_collectOnce_def
  proof (subst collect_fresh [OF lru keys(1) refl])
    show "\<forall>key \<in> set ?keys. \<exists>a. ?m key = Some a \<and> p_heap p' ! a = h key \<and> \<not> c_snatched (h key)"
      using h by (auto simp: counter_of_def)
  qed (use ok in \<open>auto simp: counters_ok_def\<close>)
  also have "\<dots> = concat (map (\<lambda>key. counter_emissions E key (length (losses ?ks ?evs key) mod 2 ^ 32)
      (length (netfilter_losses ?ks ?evs key) mod 2 ^ 32)) ?keys)"
    using h(1) by (intro arg_cong [where f = concat] map_cong)
      (simp_all add: counter_of_def unsigned_of_nat take_bit_eq_mod)
  finally show ?thesis using p'(1) keys by blast
qed


text \<open>
  A counter that was collected before and has not changed for thirty seconds is published once more, as
  zero, and leaves the cache.
\<close>

lemma idle_counter_expires:
  assumes "lru_ok cap (pe_lru E) view" and "view (p_cache p) key = Some a" and "a < length (p_heap p)"
    and "c_snatched (p_heap p ! a)" and "sint (now key - c_lastUpdate (p_heap p ! a)) > 30 * 1000000000"
  shows "\<exists>p'. collect_counter E now (out, p) key = (out @ counter_emissions E key 0 0, p') \<and>
    view (p_cache p') = (view (p_cache p))(key := None)"
proof -
  obtain r c where get: "lru_Get (pe_lru E) (p_cache p) key = (r, c)" by fastforce
  have "r = Some a" "view c = view (p_cache p)"
    using lru_ok_Get [OF assms(1), of "p_cache p" key] get assms(2) by simp_all
  moreover have "view (lru_Remove (pe_lru E) c key) = (view c)(key := None)"
    using assms(1) by (simp add: lru_ok_def)
  ultimately show ?thesis
    using get assms(3-5) by (simp add: collect_counter_def modify_counter_def counter_emissions_def float64_u32 Let_def)
qed

text \<open>Caches that keep everything, and two symbols.\<close>

definition pl_sample_env :: "((cacheKey \<times> nat) list, (u64 \<times> KernelSymbol) list) plenv" where
  "pl_sample_env = \<lparr>pe_lru = keep_all, pe_loc = keep_all, pe_kallsyms = two_syms, pe_stackmap = \<lambda>_. None,
     pe_enableStack = False, pe_ipcache = init_IPCache, pe_node = ''node1''\<rparr>"

lemma pl_sample_env_ok: "env_ok pl_sample_env \<lparr>v_cache = map_of, v_loc = map_of\<rparr>"
  by (simp add: env_ok_def pl_sample_env_def keep_all_ok) (simp add: addr_sorted_def two_syms_def)

lemma pl_sample_located:
  "located two_syms [netfilterSymbol] 0xffffffff80000010" "\<not> located two_syms uselessSymbols 0xffffffff80000010"
proof -
  have "search_symbol two_syms 0xffffffff80000010 = Ret (Some 0)"
    by (simp add: search_symbol_def two_syms_def sym_loop.simps)
  then have "locate two_syms 0xffffffff80000010 = Some (symbol_at 0xffffffff80000010 (two_syms ! 0))"
    by (simp add: locate_def)
  then show "located two_syms [netfilterSymbol] 0xffffffff80000010" "\<not> located two_syms uselessSymbols 0xffffffff80000010"
    by (simp_all add: located_def symbol_at_def netfilterSymbol_def uselessSymbols_def) (simp_all add: two_syms_def)
qed

end
