(* ===== verification/Tcpretrans.thy ===== *)
theory Tcpretrans
  imports Inspector Latency
begin

text \<open>
  The retransmission probe, \<^verbatim>\<open>src/bpf/tcpretrans.c\<close>: for every retransmitted segment it
  copies the ports and the IPv6 form of the addresses from the record of the tracepoint. The record
  is in kernel memory; its layout is the structure the file declares.
\<close>

section \<open>State and handler\<close>

definition tp_tcp_retransmit_skb_args :: ctype where
  "tp_tcp_retransmit_skb_args = CStruct False [
     Member ''unused'' (CInt 8),
     Member ''skbaddr'' CPtr,
     Member ''skaddr'' CPtr,
     Member ''state'' (CInt 4),
     Member ''sport'' (CInt 2),
     Member ''dport'' (CInt 2),
     Member ''saddr'' (CArr (CInt 1) 4),
     Member ''daddr'' (CArr (CInt 1) 4),
     Member ''saddr_v6'' (CArr (CInt 1) 16),
     Member ''daddr_v6'' (CArr (CInt 1) 16)]"

record insp_tcpretrans_event_t =
  rt_tuple :: tuple
  rt_stack_id :: s64

definition insp_tcp_retrans_stack_def :: bpf_map_def where
  "insp_tcp_retrans_stack_def = \<lparr>map_type = BPF_MAP_TYPE_STACK_TRACE, key_size = 4,
     value_size = PERF_MAX_STACK_DEPTH * 8, max_entries = 1000, map_flags = 0\<rparr>"

record tcpretrans_state =
  insp_tcp_retrans_event :: "insp_tcpretrans_event_t perf"

definition arg_addr :: "u64 \<Rightarrow> string \<Rightarrow> u64" where
  "arg_addr args m = args + of_nat (offsetof tp_tcp_retransmit_skb_args [m])"

definition tcpretrans :: "kenv \<Rightarrow> u64 \<Rightarrow> tcpretrans_state \<Rightarrow> int \<times> tcpretrans_state" where
  "tcpretrans k args s =
     (let event = \<lparr>rt_tuple = zero_tuple, rt_stack_id = 0\<rparr>;
          tpl = rt_tuple event;
          tpl = tpl\<lparr>sport := le_word (snd (bpf_probe_read_kernel k (word_le (sport tpl)) 2
                                             (arg_addr args ''sport'')))\<rparr>;
          tpl = tpl\<lparr>dport := le_word (snd (bpf_probe_read_kernel k (word_le (dport tpl)) 2
                                             (arg_addr args ''dport'')))\<rparr>;
          tpl = tpl\<lparr>l4_proto := IPPROTO_TCP\<rparr>;
          tpl = tpl\<lparr>saddr := snd (bpf_probe_read_kernel k (saddr tpl) 16 (arg_addr args ''saddr_v6''))\<rparr>;
          tpl = tpl\<lparr>daddr := snd (bpf_probe_read_kernel k (daddr tpl) 16 (arg_addr args ''daddr_v6''))\<rparr>;
          event = event\<lparr>rt_tuple := tpl\<rparr>;
          event = event\<lparr>rt_stack_id := bpf_get_stackid k KERN_STACKID_FLAGS\<rparr>
      in (0, s\<lparr>insp_tcp_retrans_event := snd (bpf_perf_event_output k (insp_tcp_retrans_event s)
                                                BPF_F_CURRENT_CPU event)\<rparr>))"

section \<open>Properties\<close>

lemma retransmit_args_layout:
  "offsetof tp_tcp_retransmit_skb_args [''sport''] = 28"
  "offsetof tp_tcp_retransmit_skb_args [''dport''] = 30"
  "offsetof tp_tcp_retransmit_skb_args [''saddr_v6''] = 40"
  "offsetof tp_tcp_retransmit_skb_args [''daddr_v6''] = 56"
  "sizeof tp_tcp_retransmit_skb_args = 72"
  unfolding offsetof_def tp_tcp_retransmit_skb_args_def
  by (simp_all add: layout_simps cong: layout_congs)

text \<open>The bytes of a tracepoint record: fixed part, state, ports, addresses.\<close>

definition retransmit_bytes :: "bytes \<Rightarrow> u16 \<Rightarrow> u16 \<Rightarrow> bytes \<Rightarrow> bytes \<Rightarrow> bytes \<Rightarrow> bytes" where
  "retransmit_bytes hdr sp dp v4 s6 d6 = hdr @ word_le sp @ word_le dp @ v4 @ s6 @ d6"

text \<open>
  Every retransmission whose record is readable adds one event, unless the sample is
  lost: the tuple has the ports and the two sixteen-byte addresses of the record and the protocol
  TCP. The network-layer protocol of the tuple is left zero.
\<close>

lemma tcpretrans_event:
  assumes "holds k args (retransmit_bytes hdr sp dp v4 s6 d6)"
    and "length hdr = 28" and "length v4 = 8" and "length s6 = 16" and "length d6 = 16"
  shows "insp_tcp_retrans_event (snd (tcpretrans k args s)) =
    (if k_perf k < 0 then insp_tcp_retrans_event s
     else insp_tcp_retrans_event s @
       [(k_cpu k, \<lparr>rt_tuple = \<lparr>saddr = s6, daddr = d6, sport = sp, dport = dp, l3_proto = 0,
                               l4_proto = IPPROTO_TCP, tuple_pad = 0\<rparr>,
                   rt_stack_id = k_stackid k KERN_STACKID_FLAGS\<rparr>)])"
proof -
  have len: "length (retransmit_bytes hdr sp dp v4 s6 d6) = 72"
    using assms(2-5) by (simp add: retransmit_bytes_def)
  have slices: "slice 28 2 (retransmit_bytes hdr sp dp v4 s6 d6) = word_le sp"
    "slice 30 2 (retransmit_bytes hdr sp dp v4 s6 d6) = word_le dp"
    "slice 40 16 (retransmit_bytes hdr sp dp v4 s6 d6) = s6"
    "slice 56 16 (retransmit_bytes hdr sp dp v4 s6 d6) = d6"
    using assms(2-5) by (simp_all add: retransmit_bytes_def slice_def)
  note reads = holds_slice [OF assms(1), of 28 2] holds_slice [OF assms(1), of 30 2]
    holds_slice [OF assms(1), of 40 16] holds_slice [OF assms(1), of 56 16]
  show ?thesis
    using reads
    by (simp add: tcpretrans_def len slices arg_addr_def retransmit_args_layout probe_read_kernel_eq
        probe_bytes_read perf_output_current_cpu helper_defs zero_tuple_def)
qed

lemma tcpretrans_event_witness:
  "insp_tcp_retrans_event (snd (tcpretrans
      (sample_kernel\<lparr>k_mem := mem_of [(4096,
         retransmit_bytes (replicate 28 0) 80 1000 (replicate 8 0) (replicate 16 1) (replicate 16 2))]\<rparr>)
      4096 \<lparr>insp_tcp_retrans_event = []\<rparr>)) =
    [(0, \<lparr>rt_tuple = \<lparr>saddr = replicate 16 1, daddr = replicate 16 2, sport = 80, dport = 1000,
                      l3_proto = 0, l4_proto = IPPROTO_TCP, tuple_pad = 0\<rparr>, rt_stack_id = 0\<rparr>)]"
proof -
  define bs where "bs = retransmit_bytes (replicate 28 0) 80 1000 (replicate 8 0) (replicate 16 1)
    (replicate 16 2)"
  have "length bs = 72" by (simp add: bs_def retransmit_bytes_def)
  then have "holds (sample_kernel\<lparr>k_mem := mem_of [(4096, bs)]\<rparr>) 4096 bs"
    by (simp add: holds_mem_of slice_def)
  from tcpretrans_event [OF this [unfolded bs_def]] show ?thesis by simp
qed

end
