(* ===== verification/Tcpreset.thy ===== *)
theory Tcpreset
  imports Inspector Latency
begin

text \<open>
  The TCP reset probe, \<^verbatim>\<open>src/bpf/tcpreset.c\<close>: resets sent in reply to a segment, sent
  actively by a socket and received are reported with the state of the socket, the tuple and the
  metadata.
\<close>

section \<open>State and handlers\<close>

definition RESET_NOSOCK :: u32 where "RESET_NOSOCK = 1"

definition RESET_ACTIVE :: u32 where "RESET_ACTIVE = 2"

definition RESET_PROCESS :: u32 where "RESET_PROCESS = 4"

definition RESET_RECEIVE :: u32 where "RESET_RECEIVE = 8"

lemmas reset_types = RESET_NOSOCK_def RESET_ACTIVE_def RESET_PROCESS_def RESET_RECEIVE_def

text \<open>The packed record of the receive tracepoint; the handler uses the socket only.\<close>

record receive_reset_args =
  rr_pad :: u64
  rr_skaddr :: u64
  rr_sport :: u16
  rr_dport :: u16
  rr_saddr :: bytes
  rr_daddr :: bytes
  rr_saddr_v6 :: bytes
  rr_daddr_v6 :: bytes
  rr_sock_cookie :: u64

text \<open>Declared by the file and not used.\<close>

record send_reset_args =
  sr_pad :: u64
  sr_skbaddr :: u64
  sr_skaddr :: u64
  sr_state :: u32
  sr_sport :: u16
  sr_dport :: u16
  sr_saddr :: bytes
  sr_daddr :: bytes
  sr_saddr_v6 :: bytes
  sr_daddr_v6 :: bytes

record insp_tcpreset_event_t =
  te_type :: u32
  te_state :: u8
  te_tuple :: tuple
  te_skb_meta :: skb_meta
  te_stack_id :: s64

definition zero_tcpreset_event :: insp_tcpreset_event_t where
  "zero_tcpreset_event = \<lparr>te_type = 0, te_state = 0, te_tuple = zero_tuple, te_skb_meta = zero_meta,
     te_stack_id = 0\<rparr>"

definition insp_tcpreset_stack_def :: bpf_map_def where
  "insp_tcpreset_stack_def = \<lparr>map_type = BPF_MAP_TYPE_STACK_TRACE, key_size = 4,
     value_size = PERF_MAX_STACK_DEPTH * 8, max_entries = 1000, map_flags = 0\<rparr>"

record tcpreset =
  insp_tcpreset_events :: "insp_tcpreset_event_t perf"

definition read_state :: "kenv \<Rightarrow> u64 \<Rightarrow> u8 \<Rightarrow> u8" where
  "read_state k sk old = le_word (snd (bpf_core_read k (word_le old) 1 (field_addr k sk Sk_skc_state)))"

definition emit :: "kenv \<Rightarrow> insp_tcpreset_event_t \<Rightarrow> tcpreset \<Rightarrow> tcpreset" where
  "emit k event s =
     s\<lparr>insp_tcpreset_events := snd (bpf_perf_event_output k (insp_tcpreset_events s)
                                      BPF_F_CURRENT_CPU event)\<rparr>"

definition trace_sendreset :: "arch \<Rightarrow> kenv \<Rightarrow> pt_regs \<Rightarrow> tcpreset \<Rightarrow> int \<times> tcpreset" where
  "trace_sendreset a k ctx s =
     (let sk = PT_REGS_PARM1 a ctx;
          skb = PT_REGS_PARM2 a ctx;
          event = zero_tcpreset_event;
          event = (if sk \<noteq> 0 then event\<lparr>te_type := RESET_PROCESS\<rparr> else event\<lparr>te_type := RESET_NOSOCK\<rparr>);
          event = event\<lparr>te_state := read_state k sk (te_state event)\<rparr>;
          event = event\<lparr>te_stack_id := bpf_get_stackid k BPF_F_FAST_STACK_CMP\<rparr>;
          event = event\<lparr>te_tuple := snd (set_tuple k skb (te_tuple event))\<rparr>;
          event = event\<lparr>te_skb_meta := set_meta k skb (te_skb_meta event)\<rparr>
      in (0, emit k event s))"

definition trace_sendactive :: "arch \<Rightarrow> kenv \<Rightarrow> pt_regs \<Rightarrow> tcpreset \<Rightarrow> int \<times> tcpreset" where
  "trace_sendactive a k ctx s =
     (let sk = PT_REGS_PARM1 a ctx;
          event = zero_tcpreset_event;
          event = event\<lparr>te_type := RESET_ACTIVE\<rparr>;
          event = event\<lparr>te_state := read_state k sk (te_state event)\<rparr>;
          event = event\<lparr>te_tuple := set_tuple_sock k sk (te_tuple event)\<rparr>;
          event = event\<lparr>te_skb_meta := set_meta_sock k sk (te_skb_meta event)\<rparr>
      in (0, emit k event s))"

definition insp_rstrx :: "kenv \<Rightarrow> receive_reset_args \<Rightarrow> tcpreset \<Rightarrow> int \<times> tcpreset" where
  "insp_rstrx k ctx s =
     (let event = zero_tcpreset_event;
          event = event\<lparr>te_stack_id := bpf_get_stackid k BPF_F_FAST_STACK_CMP\<rparr>
      in if sint (ucast (te_stack_id event) :: s32) < 0 then (0, s)
         else
           let event = event\<lparr>te_type := RESET_RECEIVE\<rparr>;
               sk = rr_skaddr ctx;
               event = event\<lparr>te_state := read_state k sk (te_state event)\<rparr>;
               event = event\<lparr>te_tuple := set_tuple_sock k sk (te_tuple event)\<rparr>;
               event = event\<lparr>te_skb_meta := set_meta_sock k sk (te_skb_meta event)\<rparr>
           in (0, emit k event s))"

datatype tcpreset_call =
    Tcp_v4_send_reset pt_regs | Tcp_send_active_reset pt_regs | Tcp_receive_reset receive_reset_args

fun tcpreset_step :: "arch \<Rightarrow> kenv \<Rightarrow> tcpreset_call \<Rightarrow> tcpreset \<Rightarrow> tcpreset" where
  "tcpreset_step a k (Tcp_v4_send_reset ctx) s = snd (trace_sendreset a k ctx s)"
| "tcpreset_step a k (Tcp_send_active_reset ctx) s = snd (trace_sendactive a k ctx s)"
| "tcpreset_step a k (Tcp_receive_reset args) s = snd (insp_rstrx k args s)"

section \<open>Properties\<close>

text \<open>The event a call reports, if it reports one.\<close>

fun reset_event :: "arch \<Rightarrow> kenv \<Rightarrow> tcpreset_call \<Rightarrow> insp_tcpreset_event_t option" where
  "reset_event a k (Tcp_v4_send_reset ctx) =
     Some \<lparr>te_type = (if PT_REGS_PARM1 a ctx = 0 then RESET_NOSOCK else RESET_PROCESS),
           te_state = read_state k (PT_REGS_PARM1 a ctx) 0,
           te_tuple = snd (set_tuple k (PT_REGS_PARM2 a ctx) zero_tuple),
           te_skb_meta = set_meta k (PT_REGS_PARM2 a ctx) zero_meta,
           te_stack_id = k_stackid k BPF_F_FAST_STACK_CMP\<rparr>"
| "reset_event a k (Tcp_send_active_reset ctx) =
     Some \<lparr>te_type = RESET_ACTIVE, te_state = read_state k (PT_REGS_PARM1 a ctx) 0,
           te_tuple = set_tuple_sock k (PT_REGS_PARM1 a ctx) zero_tuple,
           te_skb_meta = set_meta_sock k (PT_REGS_PARM1 a ctx) zero_meta, te_stack_id = 0\<rparr>"
| "reset_event a k (Tcp_receive_reset args) =
     (if sint (ucast (k_stackid k BPF_F_FAST_STACK_CMP) :: s32) < 0 then None
      else Some \<lparr>te_type = RESET_RECEIVE, te_state = read_state k (rr_skaddr args) 0,
             te_tuple = set_tuple_sock k (rr_skaddr args) zero_tuple,
             te_skb_meta = set_meta_sock k (rr_skaddr args) zero_meta,
             te_stack_id = k_stackid k BPF_F_FAST_STACK_CMP\<rparr>)"

definition reset_report :: "arch \<Rightarrow> kenv \<times> tcpreset_call \<Rightarrow> (u32 \<times> insp_tcpreset_event_t) list" where
  "reset_report a x =
     (case reset_event a (fst x) (snd x) of
        Some ev \<Rightarrow> if 0 \<le> k_perf (fst x) then [(k_cpu (fst x), ev)] else []
      | None \<Rightarrow> [])"

lemma tcpreset_step_eq:
  "insp_tcpreset_events (tcpreset_step a k e s) = insp_tcpreset_events s @ reset_report a (k, e)"
  by (cases e)
    (auto simp: trace_sendreset_def trace_sendactive_def insp_rstrx_def emit_def reset_report_def
      zero_tcpreset_event_def perf_output_current_cpu helper_defs Let_def)

declare tcpreset_step.simps [simp del]

lemma tcpreset_log_gen:
  "insp_tcpreset_events (run_probe (tcpreset_step a) xs s) =
     insp_tcpreset_events s @ concat (map (reset_report a) xs)"
  by (induction xs arbitrary: s) (simp_all add: tcpreset_step_eq)

text \<open>
  The log is one event per reset in order: every reset sent is reported, and a received
  one unless the kernel gives no stack id for it; only samples the kernel loses are missing. A reset
  sent without a socket has the type for that, the others the types for processing, active and
  received resets.
\<close>

lemma tcpreset_log:
  "insp_tcpreset_events (run_probe (tcpreset_step a) xs \<lparr>insp_tcpreset_events = []\<rparr>) =
     concat (map (reset_report a) xs)"
  by (simp add: tcpreset_log_gen)

text \<open>
  The type of an event tells exactly whether a reset was sent without a socket:
  a call logs an event of the type \<^verbatim>\<open>RESET_NOSOCK\<close> if and only if it is a reset in reply to a
  segment, its socket pointer is null and the sample is not lost.
\<close>

lemma tcpreset_type_nosock:
  "RESET_NOSOCK \<in> te_type ` snd ` set (insp_tcpreset_events
      (tcpreset_step a k e \<lparr>insp_tcpreset_events = []\<rparr>)) \<longleftrightarrow>
     (\<exists>ctx. e = Tcp_v4_send_reset ctx \<and> PT_REGS_PARM1 a ctx = 0 \<and> 0 \<le> k_perf k)"
  by (cases e) (auto simp: tcpreset_step_eq reset_report_def reset_types split: option.splits if_splits)

end
