(* ===== verification/Biolatency.thy ===== *)
theory Biolatency
  imports Inspector Latency
begin

text \<open>
  The block I/O latency probe, \<^verbatim>\<open>src/bpf/tracebiolatency.c\<close>: \<open>biolat_start\<close> notes the task
  and the time a request is accounted, \<open>biolat_finish\<close> reports the request when it took more than
  ten milliseconds. Both interpret \<open>prompt_probe\<close>.
\<close>

section \<open>State\<close>

record insp_biolat_entry_t =
  et_target :: bytes
  et_disk :: bytes
  et_pid :: u32
  et_start :: u64
  et_latency :: u64

record insp_biolat_event_t =
  be_target :: bytes
  be_disk :: bytes
  be_pid :: u32
  be_latency :: u64

text \<open>Two further records of the file are not used by its handlers.\<close>

record insp_biolat_metric_t =
  bm_pid :: u32
  bm_bucket :: u32

definition insp_biolat_metric_def :: bpf_map_def where
  "insp_biolat_metric_def = \<lparr>map_type = BPF_MAP_TYPE_HASH, key_size = 8, value_size = 60,
     max_entries = 10000, map_flags = 0\<rparr>"

definition insp_biolat_entry_def :: bpf_map_def where
  "insp_biolat_entry_def = \<lparr>map_type = BPF_MAP_TYPE_HASH, key_size = 8, value_size = 60,
     max_entries = 10000, map_flags = 0\<rparr>"

record biolat =
  insp_biolat_metric :: "(u64, insp_biolat_entry_t) bpf_hash"
  insp_biolat_entry :: "(u64, insp_biolat_entry_t) bpf_hash"
  insp_biolat_evts :: "insp_biolat_event_t perf"
  biolat_trace :: "(u64 \<times> u64 \<times> u64) list"  \<comment> \<open>what \<^verbatim>\<open>bpf_printk\<close> wrote\<close>

definition biolat_init :: biolat where
  "biolat_init = \<lparr>insp_biolat_metric = hash_empty insp_biolat_metric_def,
     insp_biolat_entry = hash_empty insp_biolat_entry_def, insp_biolat_evts = [],
     biolat_trace = []\<rparr>"

section \<open>Handlers\<close>

definition biolat_start :: "arch \<Rightarrow> kenv \<Rightarrow> pt_regs \<Rightarrow> biolat \<Rightarrow> int \<times> biolat" where
  "biolat_start a k ctx s =
     (let rq = PT_REGS_PARM1 a ctx;
          et = \<lparr>et_target = replicate TASK_COMM_LEN 0, et_disk = replicate TASK_COMM_LEN 0,
                et_pid = 0, et_start = 0, et_latency = 0\<rparr>;
          et = et\<lparr>et_pid := ucast (drop_bit 32 (bpf_get_current_pid_tgid k))\<rparr>;
          et = et\<lparr>et_start := bpf_ktime_get_ns k\<rparr>;
          et = et\<lparr>et_target := snd (bpf_get_current_comm k (et_target et) TASK_COMM_LEN)\<rparr>
      in (0, s\<lparr>insp_biolat_entry := snd (hash_update k (insp_biolat_entry s) rq et 0)\<rparr>))"

text \<open>The entry is map memory, which a probe read always can read.\<close>

definition biolat_finish :: "arch \<Rightarrow> kenv \<Rightarrow> pt_regs \<Rightarrow> biolat \<Rightarrow> int \<times> biolat" where
  "biolat_finish a k ctx s =
     (let rq = PT_REGS_PARM1 a ctx
      in case hash_lookup (insp_biolat_entry s) rq of
           None \<Rightarrow> (0, s)
         | Some biot \<Rightarrow>
             (let now = bpf_ktime_get_ns k;
                  latency = now - et_start biot;
                  s1 = (if latency > 10000000 then
                          (let event = \<lparr>be_target = replicate TASK_COMM_LEN 0,
                                        be_disk = replicate TASK_COMM_LEN 0, be_pid = 0,
                                        be_latency = 0\<rparr>;
                               event = event\<lparr>be_latency := latency\<rparr>;
                               event = event\<lparr>be_pid := et_pid biot\<rparr>;
                               event = event\<lparr>be_target := et_target biot\<rparr>
                           in s\<lparr>biolat_trace := biolat_trace s @ [(now, et_start biot, latency)],
                                insp_biolat_evts := snd (bpf_perf_event_output k (insp_biolat_evts s)
                                                           BPF_F_CURRENT_CPU event)\<rparr>)
                        else s)
              in (0, s1\<lparr>insp_biolat_entry := snd (hash_delete k (insp_biolat_entry s1) rq)\<rparr>)))"

section \<open>The probe as a latency probe\<close>

datatype biolat_call = Blk_account_io_start pt_regs | Blk_account_io_done pt_regs

fun biolat_step :: "arch \<Rightarrow> kenv \<Rightarrow> biolat_call \<Rightarrow> biolat \<Rightarrow> biolat" where
  "biolat_step a k (Blk_account_io_start ctx) s = snd (biolat_start a k ctx s)"
| "biolat_step a k (Blk_account_io_done ctx) s = snd (biolat_finish a k ctx s)"

fun biolat_opens :: "arch \<Rightarrow> kenv \<Rightarrow> biolat_call \<Rightarrow> u64 option" where
  "biolat_opens a k (Blk_account_io_start ctx) = Some (PT_REGS_PARM1 a ctx)"
| "biolat_opens a k (Blk_account_io_done ctx) = None"

fun biolat_closes :: "arch \<Rightarrow> kenv \<Rightarrow> biolat_call \<Rightarrow> u64 option" where
  "biolat_closes a k (Blk_account_io_start ctx) = None"
| "biolat_closes a k (Blk_account_io_done ctx) = Some (PT_REGS_PARM1 a ctx)"

text \<open>The entry a start event makes and the event reported for it.\<close>

definition biolat_note :: "kenv \<Rightarrow> biolat_call \<Rightarrow> insp_biolat_entry_t" where
  "biolat_note k e = \<lparr>et_target = overlay (k_comm k 20) (replicate 20 0), et_disk = replicate 20 0,
     et_pid = k_tgid k, et_start = k_now k, et_latency = 0\<rparr>"

definition biolat_report :: "kenv \<Rightarrow> biolat_call \<Rightarrow> insp_biolat_entry_t \<Rightarrow> insp_biolat_event_t" where
  "biolat_report k e v = \<lparr>be_target = et_target v, be_disk = replicate 20 0, be_pid = et_pid v,
     be_latency = k_now k - et_start v\<rparr>"

lemma biolat_start_eq:
  "snd (biolat_start a k ctx s) =
     s\<lparr>insp_biolat_entry := snd (hash_update k (insp_biolat_entry s) (PT_REGS_PARM1 a ctx)
                                  (biolat_note k (Blk_account_io_start ctx)) BPF_ANY)\<rparr>"
  by (simp add: biolat_start_def biolat_note_def bpf_get_current_comm_def BPF_ANY_def helper_defs
      TASK_COMM_LEN_def)

lemma biolat_finish_eq:
  "snd (biolat_finish a k ctx s) =
     (case hash_lookup (insp_biolat_entry s) (PT_REGS_PARM1 a ctx) of
        None \<Rightarrow> s
      | Some v \<Rightarrow>
          if 10000000 < k_now k - et_start v
          then s\<lparr>biolat_trace := biolat_trace s @ [(k_now k, et_start v, k_now k - et_start v)],
                 insp_biolat_evts :=
                   (if k_perf k < 0 then insp_biolat_evts s
                    else insp_biolat_evts s @ [(k_cpu k, biolat_report k (Blk_account_io_done ctx) v)]),
                 insp_biolat_entry := snd (hash_delete k (insp_biolat_entry s) (PT_REGS_PARM1 a ctx))\<rparr>
          else s\<lparr>insp_biolat_entry := snd (hash_delete k (insp_biolat_entry s) (PT_REGS_PARM1 a ctx))\<rparr>)"
  by (simp add: biolat_finish_def biolat_report_def perf_output_current_cpu helper_defs Let_def
      TASK_COMM_LEN_def split: option.splits)

interpretation biolat: prompt_probe "biolat_step a" "\<lambda>s. hash_lookup (insp_biolat_entry s)"
    "\<lambda>s. map snd (insp_biolat_evts s)" "biolat_opens a" "biolat_closes a" biolat_note et_start
    biolat_report 10000000 "biolat_closes a" for a
proof unfold_locales
  fix k e x v and s :: biolat
  assume "hash_lookup (insp_biolat_entry (biolat_step a k e s)) x = Some v"
  then show "hash_lookup (insp_biolat_entry s) x = Some v \<or>
      biolat_opens a k e = Some x \<and> v = biolat_note k e"
    by (cases e)
      (auto simp: biolat_start_eq biolat_finish_eq hash_lookup_update split: if_splits option.splits)
next
  fix k e and s :: biolat
  show "map snd (insp_biolat_evts (biolat_step a k e s)) = map snd (insp_biolat_evts s) \<or>
      (\<exists>x v. biolat_closes a k e = Some x \<and> hash_lookup (insp_biolat_entry s) x = Some v \<and>
         10000000 < k_now k - et_start v \<and>
         map snd (insp_biolat_evts (biolat_step a k e s)) =
           map snd (insp_biolat_evts s) @ [biolat_report k e v])"
    by (cases e) (auto simp: biolat_start_eq biolat_finish_eq split: option.splits)
next
  fix k e x and s :: biolat
  assume "biolat_opens a k e = Some x" "hash_lookup (insp_biolat_entry s) x \<noteq> None"
  then show "hash_lookup (insp_biolat_entry (biolat_step a k e s)) x = Some (biolat_note k e)"
    by (cases e) (auto simp: biolat_start_eq hash_lookup_update)
next
  fix k e x and s :: biolat
  assume "biolat_closes a k e = Some x"
  then show "hash_lookup (insp_biolat_entry (biolat_step a k e s)) x = None"
    by (cases e) (auto simp: biolat_finish_eq split: option.splits)
next
  fix k e x and s :: biolat
  assume "biolat_opens a k e \<noteq> Some x" "biolat_closes a k e \<noteq> Some x"
  then show "hash_lookup (insp_biolat_entry (biolat_step a k e s)) x =
      hash_lookup (insp_biolat_entry s) x"
    by (cases e) (auto simp: biolat_start_eq biolat_finish_eq split: option.splits)
next
  fix k e x v and s :: biolat
  assume "biolat_closes a k e = Some x" "hash_lookup (insp_biolat_entry s) x = Some v"
    "10000000 < k_now k - et_start v" "0 \<le> k_perf k"
  then show "biolat_report k e v \<in> set (map snd (insp_biolat_evts (biolat_step a k e s)))"
    by (cases e) (auto simp: biolat_finish_eq biolat_report_def)
qed

section \<open>Properties\<close>

lemma biolat_init_simps [simp]:
  "hash_lookup (insp_biolat_entry biolat_init) = Map.empty" "insp_biolat_evts biolat_init = []"
  by (auto simp: biolat_init_def)

text \<open>
  C19: every event of a run of the block I/O probe belongs to a request that was
  started and finished in the run: its latency is the difference of the two time stamps and exceeds
  ten milliseconds, its process and task name are those current when the request was started, and
  between the two events the request was neither started again nor finished.
\<close>

theorem biolat_reports_sound:
  assumes "r \<in> set (map snd (insp_biolat_evts (run_probe (biolat_step a) xs biolat_init)))"
  shows "\<exists>i j rq. interval (biolat_opens a) (biolat_closes a) xs i j rq \<and>
    undisturbed (biolat_opens a) (biolat_closes a) xs i j rq \<and>
    10000000 < k_now (fst (xs ! j)) - k_now (fst (xs ! i)) \<and>
    r = \<lparr>be_target = overlay (k_comm (fst (xs ! i)) 20) (replicate 20 0),
         be_disk = replicate 20 0, be_pid = k_tgid (fst (xs ! i)),
         be_latency = k_now (fst (xs ! j)) - k_now (fst (xs ! i))\<rparr>"
  using biolat.reported_run_latest [of biolat_init r a xs] assms
  unfolding biolat.measured_def Let_def biolat_note_def biolat_report_def by auto

text \<open>A request at 64 that starts at time 5 and takes twenty milliseconds.\<close>

definition bio_regs :: pt_regs where "bio_regs r = 64"

definition bio_run :: "(kenv \<times> biolat_call) list" where
  "bio_run = [(sample_kernel\<lparr>k_now := 5, k_tgid := 42\<rparr>, Blk_account_io_start bio_regs),
              (sample_kernel\<lparr>k_now := 20000005, k_cpu := 3\<rparr>, Blk_account_io_done bio_regs)]"

lemma bio_run_events:
  "insp_biolat_evts (run_probe (biolat_step Amd64) bio_run biolat_init) =
     [(3, \<lparr>be_target = replicate 20 0, be_disk = replicate 20 0, be_pid = 42,
           be_latency = 20000000\<rparr>)]"
  by (simp add: bio_run_def biolat_start_eq biolat_finish_eq hash_lookup_update hash_accepts_def
      biolat_note_def biolat_report_def biolat_init_def hash_empty_def insp_biolat_entry_def_def
      flag_defs hash_lookup_def overlay_def)

theorem biolat_reports_sound_witness:
  "\<exists>i j rq. interval (biolat_opens Amd64) (biolat_closes Amd64) bio_run i j rq \<and>
    undisturbed (biolat_opens Amd64) (biolat_closes Amd64) bio_run i j rq \<and>
    10000000 < k_now (fst (bio_run ! j)) - k_now (fst (bio_run ! i)) \<and>
    \<lparr>be_target = replicate 20 0, be_disk = replicate 20 0, be_pid = 42, be_latency = 20000000\<rparr> =
    \<lparr>be_target = overlay (k_comm (fst (bio_run ! i)) 20) (replicate 20 0),
         be_disk = replicate 20 0, be_pid = k_tgid (fst (bio_run ! i)),
         be_latency = k_now (fst (bio_run ! j)) - k_now (fst (bio_run ! i))\<rparr>"
  by (rule biolat_reports_sound) (simp add: bio_run_events)

text \<open>
  No slow request is missed. When a request is started while the table has
  room, is not touched in between and finishes more than ten milliseconds later, and the sample is
  not lost, then its event is in the log, whatever else happens before, between and after.
\<close>

lemma biolat_slow_reported:
  assumes "PT_REGS_PARM1 a ctx = PT_REGS_PARM1 a ctx'"
    and "length (hash_ents (insp_biolat_entry (run_probe (biolat_step a) pre biolat_init))) <
           max_entries (hash_def (insp_biolat_entry (run_probe (biolat_step a) pre biolat_init)))"
    and "room_accepted k"
    and "\<forall>(k, e) \<in> set mid. biolat_opens a k e \<noteq> Some (PT_REGS_PARM1 a ctx) \<and>
                             biolat_closes a k e \<noteq> Some (PT_REGS_PARM1 a ctx)"
    and "k_now k \<le> k_now k'" and "10000000 < k_now k' - k_now k" and "0 \<le> k_perf k'"
  shows "\<lparr>be_target = overlay (k_comm k 20) (replicate 20 0), be_disk = replicate 20 0,
          be_pid = k_tgid k, be_latency = k_now k' - k_now k\<rparr> \<in>
    set (map snd (insp_biolat_evts (run_probe (biolat_step a)
      ((pre @ [(k, Blk_account_io_start ctx)]) @ mid @ (k', Blk_account_io_done ctx') # post)
      biolat_init)))"
proof -
  have started: "hash_lookup (insp_biolat_entry (run_probe (biolat_step a)
      (pre @ [(k, Blk_account_io_start ctx)]) biolat_init)) (PT_REGS_PARM1 a ctx) =
      Some (biolat_note k (Blk_account_io_start ctx))"
    using hash_accepts_room [OF assms(3,2)] by (simp add: biolat_start_eq hash_lookup_update)
  show ?thesis
    using biolat.slow_interval_reported [OF started assms(4), of k' "Blk_account_io_done ctx'" post]
      assms(1,5-7)
    by (simp add: biolat_note_def biolat_report_def)
qed

lemma biolat_slow_reported_witness:
  "\<lparr>be_target = overlay (k_comm (sample_kernel\<lparr>k_now := 5\<rparr>) 20) (replicate 20 0),
     be_disk = replicate 20 0, be_pid = 0,
     be_latency = k_now (sample_kernel\<lparr>k_now := 20000005\<rparr>) - 5\<rparr> \<in>
   set (map snd (insp_biolat_evts (run_probe (biolat_step Amd64)
     (([] @ [(sample_kernel\<lparr>k_now := 5\<rparr>, Blk_account_io_start bio_regs)]) @ [] @
      (sample_kernel\<lparr>k_now := 20000005\<rparr>, Blk_account_io_done bio_regs) # []) biolat_init)))"
proof -
  have "room_accepted (sample_kernel\<lparr>k_now := 5\<rparr>)" by (simp add: room_accepted_def)
  from biolat_slow_reported [of Amd64 bio_regs bio_regs "[]" "sample_kernel\<lparr>k_now := 5\<rparr>" "[]"
      "sample_kernel\<lparr>k_now := 20000005\<rparr>" "[]", OF _ _ this]
  show ?thesis by (simp add: biolat_init_def hash_empty_def insp_biolat_entry_def_def)
qed

text \<open>
  On a kernel that refuses new entries in a full table, the table of open
  requests keeps one entry per request and never more than the ten thousand it is declared for.
\<close>

lemma biolat_table_bounded:
  assumes "\<forall>(k, e) \<in> set xs. full_refused k"
  shows "hash_ok (insp_biolat_entry (run_probe (biolat_step a) xs biolat_init)) \<and>
    card (dom (hash_lookup (insp_biolat_entry (run_probe (biolat_step a) xs biolat_init)))) \<le> 10000"
proof -
  define P where "P s \<longleftrightarrow> hash_ok (insp_biolat_entry s) \<and>
    hash_def (insp_biolat_entry s) = insp_biolat_entry_def" for s :: biolat
  have "P (run_probe (biolat_step a) xs biolat_init)"
  proof (rule run_probe_invariant)
    show "P biolat_init" by (auto simp: P_def biolat_init_def)
    fix k e and s :: biolat assume "(k, e) \<in> set xs" "P s"
    with assms show "P (biolat_step a k e s)"
      by (cases e) (auto simp: P_def biolat_start_eq biolat_finish_eq split: option.splits)
  qed
  then show ?thesis
    using hash_ok_card_dom by (fastforce simp: P_def insp_biolat_entry_def_def)
qed

end
