(* ===== verification/Netiftx.thy ===== *)
theory Netiftx
  imports Inspector Latency
begin

text \<open>
  The transmit latency probe, \<^verbatim>\<open>src/bpf/netiftxlatency.c\<close>: the time a socket buffer waits
  in the queueing discipline (from \<^verbatim>\<open>net_dev_queue\<close> to \<^verbatim>\<open>net_dev_start_xmit\<close>)
  and in the driver (from there to \<^verbatim>\<open>net_dev_xmit\<close>), reported above 100 milliseconds.
\<close>

section \<open>State\<close>

definition netiftx_THRESH :: u64 where "netiftx_THRESH = 100 * 1000 * 1000"

definition ACTION_QDISC :: u32 where "ACTION_QDISC = 1"

definition ACTION_XMIT :: u32 where "ACTION_XMIT = 2"

lemma actions_distinct [simp]: "ACTION_QDISC \<noteq> ACTION_XMIT" "ACTION_XMIT \<noteq> ACTION_QDISC"
  by (simp_all add: ACTION_QDISC_def ACTION_XMIT_def)

record net_dev_queue_args =
  nq_unused :: u64
  nq_skbaddr :: u64
  nq_len :: u32
  nq_name :: u32

record net_dev_start_xmit_args =
  ns_unused :: u64
  ns_name :: u32
  ns_queue_mapping :: u16
  ns_skbaddr :: u64
  ns_vlan_tagged :: bool
  ns_vlan_proto :: u16
  ns_vlan_tci :: u16
  ns_protocol :: u16
  ns_ip_summed :: u8
  ns_len :: u32
  ns_data_len :: u32
  ns_network_offset :: u32
  ns_transport_offset_valid :: bool
  ns_transport_offset :: u32
  ns_tx_flags :: u8
  ns_gso_size :: u16
  ns_gso_segs :: u16
  ns_gso_type :: u16

record net_dev_xmit_args =
  nx_unused :: u64
  nx_skbaddr :: u64
  nx_len :: u32
  nx_rc :: u32
  nx_name :: u32

record insp_nftxlat_event_t =
  ne_target :: bytes
  ne_type :: u32
  ne_tuple :: tuple
  ne_skb_meta :: skb_meta
  ne_pid :: u32
  ne_cpu :: u32
  ne_latency :: u64
  ne_stack_id :: s64

record insp_nftxlat_metric_t =
  nm_netns :: u32
  nm_bucket :: u32
  nm_action :: u32
  nm_cpu :: u32

definition netiftx_metric_def :: bpf_map_def where
  "netiftx_metric_def = \<lparr>map_type = BPF_MAP_TYPE_HASH, key_size = 16, value_size = 8,
     max_entries = 4096, map_flags = 0\<rparr>"

definition insp_txq_def :: bpf_map_def where
  "insp_txq_def = \<lparr>map_type = BPF_MAP_TYPE_HASH, key_size = 8, value_size = 8,
     max_entries = 10000, map_flags = 0\<rparr>"

definition insp_txs_def :: bpf_map_def where
  "insp_txs_def = \<lparr>map_type = BPF_MAP_TYPE_HASH, key_size = 8, value_size = 8,
     max_entries = 10000, map_flags = 0\<rparr>"

record netiftx =
  netiftx_metric :: "(insp_nftxlat_metric_t, u64) bpf_hash"
  insp_txq :: "(u64, u64) bpf_hash"
  insp_txs :: "(u64, u64) bpf_hash"
  netiftx_event :: "insp_nftxlat_event_t perf"

definition netiftx_init :: netiftx where
  "netiftx_init = \<lparr>netiftx_metric = hash_empty netiftx_metric_def, insp_txq = hash_empty insp_txq_def,
     insp_txs = hash_empty insp_txs_def, netiftx_event = []\<rparr>"

section \<open>Handlers\<close>

definition zero_nftxlat_event :: insp_nftxlat_event_t where
  "zero_nftxlat_event = \<lparr>ne_target = replicate TASK_COMM_LEN 0, ne_type = 0, ne_tuple = zero_tuple,
     ne_skb_meta = zero_meta, ne_pid = 0, ne_cpu = 0, ne_latency = 0, ne_stack_id = 0\<rparr>"

definition report_txlat_events :: "kenv \<Rightarrow> u64 \<Rightarrow> u64 \<Rightarrow> u32 \<Rightarrow> netiftx \<Rightarrow> int \<times> netiftx" where
  "report_txlat_events k skb latency action s =
     (let event = zero_nftxlat_event;
          event = event\<lparr>ne_type := action\<rparr>;
          event = event\<lparr>ne_target := snd (bpf_get_current_comm k (ne_target event) TASK_COMM_LEN)\<rparr>;
          event = event\<lparr>ne_pid := ucast (drop_bit 32 (bpf_get_current_pid_tgid k))\<rparr>;
          event = event\<lparr>ne_cpu := bpf_get_smp_processor_id k\<rparr>;
          event = event\<lparr>ne_tuple := snd (set_tuple k skb (ne_tuple event))\<rparr>;
          event = event\<lparr>ne_skb_meta := set_meta k skb (ne_skb_meta event)\<rparr>;
          event = event\<lparr>ne_latency := latency\<rparr>
      in (0, s\<lparr>netiftx_event := snd (bpf_perf_event_output k (netiftx_event s) BPF_F_CURRENT_CPU event)\<rparr>))"

definition net_dev_queue :: "kenv \<Rightarrow> net_dev_queue_args \<Rightarrow> netiftx \<Rightarrow> int \<times> netiftx" where
  "net_dev_queue k ctx s =
     (let ts = bpf_ktime_get_ns k;
          skb = nq_skbaddr ctx
      in (0, s\<lparr>insp_txq := snd (hash_update k (insp_txq s) skb ts 0)\<rparr>))"

definition net_dev_start_xmit :: "kenv \<Rightarrow> net_dev_start_xmit_args \<Rightarrow> netiftx \<Rightarrow> int \<times> netiftx" where
  "net_dev_start_xmit k ctx s =
     (let skb = ns_skbaddr ctx
      in case hash_lookup (insp_txq s) skb of
           None \<Rightarrow> (0, s)
         | Some tsp \<Rightarrow>
             (let ts = bpf_ktime_get_ns k;
                  latency = ts - tsp;
                  s1 = (if latency > netiftx_THRESH
                        then snd (report_txlat_events k skb latency ACTION_QDISC s) else s)
              in (0, s1\<lparr>insp_txs := snd (hash_update k (insp_txs s1) skb ts 0)\<rparr>)))"

definition net_dev_xmit :: "kenv \<Rightarrow> net_dev_xmit_args \<Rightarrow> netiftx \<Rightarrow> int \<times> netiftx" where
  "net_dev_xmit k ctx s =
     (let skb = nx_skbaddr ctx
      in case hash_lookup (insp_txs s) skb of
           None \<Rightarrow> (0, s)
         | Some tsp \<Rightarrow>
             (let ts = bpf_ktime_get_ns k;
                  latency = ts - tsp;
                  s1 = (if latency > netiftx_THRESH
                        then snd (report_txlat_events k skb latency ACTION_XMIT s) else s)
              in (0, s1\<lparr>insp_txs := snd (hash_delete k (insp_txs s1) skb)\<rparr>)))"

datatype netiftx_call =
    Net_dev_queue net_dev_queue_args
  | Net_dev_start_xmit net_dev_start_xmit_args
  | Net_dev_xmit net_dev_xmit_args

fun netiftx_step :: "kenv \<Rightarrow> netiftx_call \<Rightarrow> netiftx \<Rightarrow> netiftx" where
  "netiftx_step k (Net_dev_queue ctx) s = snd (net_dev_queue k ctx s)"
| "netiftx_step k (Net_dev_start_xmit ctx) s = snd (net_dev_start_xmit k ctx s)"
| "netiftx_step k (Net_dev_xmit ctx) s = snd (net_dev_xmit k ctx s)"

section \<open>The two phases as latency probes\<close>

definition txlat_event :: "u32 \<Rightarrow> kenv \<Rightarrow> u64 \<Rightarrow> u64 \<Rightarrow> insp_nftxlat_event_t" where
  "txlat_event action k skb t = \<lparr>ne_target = overlay (k_comm k 20) (replicate 20 0), ne_type = action,
     ne_tuple = snd (set_tuple k skb zero_tuple), ne_skb_meta = set_meta k skb zero_meta,
     ne_pid = k_tgid k, ne_cpu = k_cpu k, ne_latency = k_now k - t, ne_stack_id = 0\<rparr>"

definition events_of :: "u32 \<Rightarrow> netiftx \<Rightarrow> insp_nftxlat_event_t list" where
  "events_of action s = filter (\<lambda>e. ne_type e = action) (map snd (netiftx_event s))"

fun queue_key :: "kenv \<Rightarrow> netiftx_call \<Rightarrow> u64 option" where
  "queue_key k (Net_dev_queue ctx) = Some (nq_skbaddr ctx)"
| "queue_key k _ = None"

fun start_xmit_key :: "kenv \<Rightarrow> netiftx_call \<Rightarrow> u64 option" where
  "start_xmit_key k (Net_dev_start_xmit ctx) = Some (ns_skbaddr ctx)"
| "start_xmit_key k _ = None"

fun xmit_key :: "kenv \<Rightarrow> netiftx_call \<Rightarrow> u64 option" where
  "xmit_key k (Net_dev_xmit ctx) = Some (nx_skbaddr ctx)"
| "xmit_key k _ = None"

fun call_skb :: "netiftx_call \<Rightarrow> u64" where
  "call_skb (Net_dev_queue ctx) = nq_skbaddr ctx"
| "call_skb (Net_dev_start_xmit ctx) = ns_skbaddr ctx"
| "call_skb (Net_dev_xmit ctx) = nx_skbaddr ctx"

lemma report_txlat_events_eq:
  "snd (report_txlat_events k skb (k_now k - t) action s) =
     s\<lparr>netiftx_event := (if k_perf k < 0 then netiftx_event s
                         else netiftx_event s @ [(k_cpu k, txlat_event action k skb t)])\<rparr>"
  by (simp add: report_txlat_events_def txlat_event_def zero_nftxlat_event_def perf_output_current_cpu
      bpf_get_current_comm_def helper_defs TASK_COMM_LEN_def)

lemma netiftx_step_txq:
  "insp_txq (netiftx_step k e s) =
     (case e of Net_dev_queue ctx \<Rightarrow> snd (hash_update k (insp_txq s) (nq_skbaddr ctx) (k_now k) BPF_ANY)
      | _ \<Rightarrow> insp_txq s)"
  by (cases e)
    (auto simp: net_dev_queue_def net_dev_start_xmit_def net_dev_xmit_def helper_defs flag_defs
      report_txlat_events_eq Let_def split: option.splits)

lemma netiftx_step_txs:
  "insp_txs (netiftx_step k e s) =
     (case e of
        Net_dev_queue ctx \<Rightarrow> insp_txs s
      | Net_dev_start_xmit ctx \<Rightarrow>
          if hash_lookup (insp_txq s) (ns_skbaddr ctx) = None then insp_txs s
          else snd (hash_update k (insp_txs s) (ns_skbaddr ctx) (k_now k) BPF_ANY)
      | Net_dev_xmit ctx \<Rightarrow>
          if hash_lookup (insp_txs s) (nx_skbaddr ctx) = None then insp_txs s
          else snd (hash_delete k (insp_txs s) (nx_skbaddr ctx)))"
  by (cases e)
    (auto simp: net_dev_queue_def net_dev_start_xmit_def net_dev_xmit_def helper_defs flag_defs
      report_txlat_events_eq Let_def split: option.splits)

lemma events_of_report:
  "events_of act (s\<lparr>netiftx_event := netiftx_event s @ [(c, txlat_event act' k skb t)]\<rparr>) =
     events_of act s @ (if act' = act then [txlat_event act' k skb t] else [])"
  by (simp add: events_of_def txlat_event_def)

lemma events_of_update [simp]:
  "events_of act (s\<lparr>insp_txq := m\<rparr>) = events_of act s"
  "events_of act (s\<lparr>insp_txs := m\<rparr>) = events_of act s"
  by (simp_all add: events_of_def)

lemma events_of_step:
  "events_of act (netiftx_step k e s) =
     events_of act s @
     (case e of
        Net_dev_queue ctx \<Rightarrow> []
      | Net_dev_start_xmit ctx \<Rightarrow>
          (case hash_lookup (insp_txq s) (ns_skbaddr ctx) of
             Some t \<Rightarrow> if netiftx_THRESH < k_now k - t \<and> 0 \<le> k_perf k \<and> act = ACTION_QDISC
                       then [txlat_event act k (ns_skbaddr ctx) t] else []
           | None \<Rightarrow> [])
      | Net_dev_xmit ctx \<Rightarrow>
          (case hash_lookup (insp_txs s) (nx_skbaddr ctx) of
             Some t \<Rightarrow> if netiftx_THRESH < k_now k - t \<and> 0 \<le> k_perf k \<and> act = ACTION_XMIT
                       then [txlat_event act k (nx_skbaddr ctx) t] else []
           | None \<Rightarrow> []))"
  by (cases e)
    (auto simp: net_dev_queue_def net_dev_start_xmit_def net_dev_xmit_def helper_defs
      report_txlat_events_eq events_of_report Let_def split: option.splits)

interpretation qdisc: prompt_probe netiftx_step "\<lambda>s. hash_lookup (insp_txq s)" "events_of ACTION_QDISC"
    queue_key start_xmit_key "\<lambda>k e. k_now k" "\<lambda>t. t" "\<lambda>k e. txlat_event ACTION_QDISC k (call_skb e)"
    netiftx_THRESH "\<lambda>k e. None"
  by unfold_locales
    (auto simp: netiftx_step_txq events_of_step hash_lookup_update
      elim!: queue_key.elims start_xmit_key.elims split: netiftx_call.splits if_splits option.splits)

interpretation xmit: latency_probe netiftx_step "\<lambda>s. hash_lookup (insp_txs s)" "events_of ACTION_XMIT"
    start_xmit_key xmit_key "\<lambda>k e. k_now k" "\<lambda>t. t" "\<lambda>k e. txlat_event ACTION_XMIT k (call_skb e)"
    netiftx_THRESH
  by unfold_locales
    (auto simp: netiftx_step_txs events_of_step hash_lookup_update
      split: netiftx_call.splits if_splits option.splits)

section \<open>Properties\<close>

lemma netiftx_init_simps [simp]:
  "hash_lookup (insp_txq netiftx_init) = Map.empty" "hash_lookup (insp_txs netiftx_init) = Map.empty"
  "events_of act netiftx_init = []" "netiftx_event netiftx_init = []"
  by (auto simp: netiftx_init_def events_of_def)

lemma netiftx_event_types:
  "\<forall>e \<in> set (map snd (netiftx_event (run_probe netiftx_step xs netiftx_init))).
     ne_type e = ACTION_QDISC \<or> ne_type e = ACTION_XMIT"
proof (rule run_probe_invariant)
  fix k e and s :: netiftx
  assume "\<forall>e \<in> set (map snd (netiftx_event s)). ne_type e = ACTION_QDISC \<or> ne_type e = ACTION_XMIT"
  then show "\<forall>e \<in> set (map snd (netiftx_event (netiftx_step k e s))).
      ne_type e = ACTION_QDISC \<or> ne_type e = ACTION_XMIT"
    by (cases e)
      (auto simp: net_dev_queue_def net_dev_start_xmit_def net_dev_xmit_def helper_defs
        report_txlat_events_eq txlat_event_def Let_def split: option.splits)
qed simp

lemma closing_skb:
  "start_xmit_key k e = Some x \<Longrightarrow> call_skb e = x" "xmit_key k e = Some x \<Longrightarrow> call_skb e = x"
  by (auto elim!: start_xmit_key.elims xmit_key.elims)

text \<open>
  C37: every event of the transmit probe measures one of its two phases: a queueing
  event the time from the latest queueing of the buffer to its transmission, a driver event the
  time from a start of transmission of the buffer to its end, each above 100 milliseconds. Its
  task, processor, tuple and metadata are those at the end of the phase.
\<close>

theorem netiftx_reports_sound:
  assumes "e \<in> set (map snd (netiftx_event (run_probe netiftx_step xs netiftx_init)))"
  shows "\<exists>i j skb. netiftx_THRESH < k_now (fst (xs ! j)) - k_now (fst (xs ! i)) \<and>
    (interval queue_key start_xmit_key xs i j skb \<and>
       undisturbed queue_key (\<lambda>k e. None) xs i j skb \<and>
       e = txlat_event ACTION_QDISC (fst (xs ! j)) skb (k_now (fst (xs ! i))) \<or>
     interval start_xmit_key xmit_key xs i j skb \<and>
       e = txlat_event ACTION_XMIT (fst (xs ! j)) skb (k_now (fst (xs ! i))))"
proof -
  from assms netiftx_event_types have "ne_type e = ACTION_QDISC \<or> ne_type e = ACTION_XMIT" by blast
  then consider "e \<in> set (events_of ACTION_QDISC (run_probe netiftx_step xs netiftx_init))"
    | "e \<in> set (events_of ACTION_XMIT (run_probe netiftx_step xs netiftx_init))"
    using assms by (auto simp: events_of_def)
  then show ?thesis
  proof cases
    case 1
    from qdisc.reported_run_latest [OF _ _ this] obtain i j skb where
      "interval queue_key start_xmit_key xs i j skb" "undisturbed queue_key (\<lambda>k e. None) xs i j skb"
      "qdisc.measured xs i j e" by auto
    moreover from this(1) have "call_skb (snd (xs ! j)) = skb"
      by (auto simp: interval_def intro: closing_skb)
    ultimately show ?thesis by (auto simp: qdisc.measured_def Let_def)
  next
    case 2
    from xmit.reported_run [OF _ _ this] obtain i j skb where
      "interval start_xmit_key xmit_key xs i j skb" "xmit.measured xs i j e" by auto
    moreover from this(1) have "call_skb (snd (xs ! j)) = skb"
      by (auto simp: interval_def intro: closing_skb)
    ultimately show ?thesis by (auto simp: xmit.measured_def Let_def)
  qed
qed

definition tx_run :: "(kenv \<times> netiftx_call) list" where
  "tx_run =
     [(sample_kernel\<lparr>k_now := 1000\<rparr>,
       Net_dev_queue \<lparr>nq_unused = 0, nq_skbaddr = 64, nq_len = 0, nq_name = 0\<rparr>),
      (sample_kernel\<lparr>k_now := 200001000\<rparr>,
       Net_dev_start_xmit \<lparr>ns_unused = 0, ns_name = 0, ns_queue_mapping = 0, ns_skbaddr = 64,
         ns_vlan_tagged = False, ns_vlan_proto = 0, ns_vlan_tci = 0, ns_protocol = 0, ns_ip_summed = 0,
         ns_len = 0, ns_data_len = 0, ns_network_offset = 0, ns_transport_offset_valid = False,
         ns_transport_offset = 0, ns_tx_flags = 0, ns_gso_size = 0, ns_gso_segs = 0,
         ns_gso_type = 0\<rparr>)]"

lemma tx_run_event:
  "netiftx_event (run_probe netiftx_step tx_run netiftx_init) =
     [(0, txlat_event ACTION_QDISC (sample_kernel\<lparr>k_now := 200001000\<rparr>) 64 1000)]"
  using report_txlat_events_eq [of "sample_kernel\<lparr>k_now := 200001000\<rparr>" 64 1000 ACTION_QDISC]
  by (simp add: tx_run_def net_dev_queue_def net_dev_start_xmit_def helper_defs Let_def
      netiftx_init_def hash_lookup_update hash_accepts_def hash_empty_def insp_txq_def_def
      hash_lookup_def flag_defs netiftx_THRESH_def)

theorem netiftx_reports_sound_witness:
  "\<exists>i j skb. netiftx_THRESH < k_now (fst (tx_run ! j)) - k_now (fst (tx_run ! i)) \<and>
    (interval queue_key start_xmit_key tx_run i j skb \<and>
       undisturbed queue_key (\<lambda>k e. None) tx_run i j skb \<and>
       txlat_event ACTION_QDISC (sample_kernel\<lparr>k_now := 200001000\<rparr>) 64 1000 =
         txlat_event ACTION_QDISC (fst (tx_run ! j)) skb (k_now (fst (tx_run ! i))) \<or>
     interval start_xmit_key xmit_key tx_run i j skb \<and>
       txlat_event ACTION_QDISC (sample_kernel\<lparr>k_now := 200001000\<rparr>) 64 1000 =
         txlat_event ACTION_XMIT (fst (tx_run ! j)) skb (k_now (fst (tx_run ! i))))"
  by (rule netiftx_reports_sound) (simp add: tx_run_event)

text \<open>
  No handler ever deletes from the table of queued buffers. Once the table holds as
  many buffers as it is declared for, on a kernel that refuses new entries in a full table, a
  buffer that is not among them never gets an entry again, so its queueing delay is never
  measured.
\<close>

lemma txq_entries_leak:
  assumes "max_entries (hash_def (insp_txq s)) \<le> length (hash_ents (insp_txq s))"
    and "\<forall>(k, e) \<in> set xs. full_refused k"
  shows "dom (hash_lookup (insp_txq (run_probe netiftx_step xs s))) = dom (hash_lookup (insp_txq s))"
proof -
  define P where "P t \<longleftrightarrow> dom (hash_lookup (insp_txq t)) = dom (hash_lookup (insp_txq s)) \<and>
    max_entries (hash_def (insp_txq t)) \<le> length (hash_ents (insp_txq t))" for t :: netiftx
  have "P (run_probe netiftx_step xs s)"
  proof (rule run_probe_invariant)
    show "P s" using assms(1) by (simp add: P_def)
    fix k e and t :: netiftx assume "(k, e) \<in> set xs" and t: "P t"
    with assms(2) have k: "full_refused k" by auto
    show "P (netiftx_step k e t)"
    proof (cases "\<exists>ctx. e = Net_dev_queue ctx \<and> hash_accepts k (insp_txq t) (nq_skbaddr ctx) BPF_ANY")
      case True
      then obtain ctx where ctx: "e = Net_dev_queue ctx"
        "hash_accepts k (insp_txq t) (nq_skbaddr ctx) BPF_ANY" by auto
      then obtain v where "hash_lookup (insp_txq t) (nq_skbaddr ctx) = Some v"
        using hash_accepts_full [OF k _ ctx(2)] t by (auto simp: P_def)
      moreover have "insp_txq (netiftx_step k e t) =
          snd (hash_update k (insp_txq t) (nq_skbaddr ctx) (k_now k) BPF_ANY)"
        using ctx by (simp add: netiftx_step_txq del: netiftx_step.simps)
      moreover from calculation(1) t have "nq_skbaddr ctx \<in> dom (hash_lookup (insp_txq s))"
        by (auto simp: P_def)
      ultimately show ?thesis
        using t ctx by (simp add: P_def hash_lookup_update length_hash_update insert_absorb)
    next
      case False
      with t show ?thesis
        by (cases e) (auto simp: P_def netiftx_step_txq hash_update_eq simp del: netiftx_step.simps)
    qed
  qed
  then show ?thesis by (simp add: P_def)
qed

text \<open>A table full of the buffers 0 to 9999 in which the buffer 20000 is queued.\<close>

definition full_txq :: netiftx where
  "full_txq = netiftx_init\<lparr>insp_txq :=
     \<lparr>hash_def = insp_txq_def, hash_ents = map (\<lambda>i. (of_nat i, 0)) [0..<10000]\<rparr>\<rparr>"

lemma txq_entries_leak_witness:
  "max_entries (hash_def (insp_txq full_txq)) \<le> length (hash_ents (insp_txq full_txq)) \<and>
   dom (hash_lookup (insp_txq (run_probe netiftx_step
     [(sample_kernel, Net_dev_queue \<lparr>nq_unused = 0, nq_skbaddr = 20000, nq_len = 0, nq_name = 0\<rparr>)]
     full_txq))) =
   dom (hash_lookup (insp_txq full_txq))"
proof
  show full: "max_entries (hash_def (insp_txq full_txq)) \<le> length (hash_ents (insp_txq full_txq))"
    by (simp add: full_txq_def insp_txq_def_def)
  show "dom (hash_lookup (insp_txq (run_probe netiftx_step
     [(sample_kernel, Net_dev_queue \<lparr>nq_unused = 0, nq_skbaddr = 20000, nq_len = 0, nq_name = 0\<rparr>)]
     full_txq))) =
   dom (hash_lookup (insp_txq full_txq))"
    by (rule txq_entries_leak [OF full]) (simp add: full_refused_def)
qed

text \<open>
  No slow wait in the queue is missed: a buffer that is queued while the table has
  room and taken for transmission more than 100 milliseconds later, without having been queued again,
  is reported when the sample is not lost.
\<close>

lemma qdisc_slow_reported:
  assumes "nq_skbaddr ctx = ns_skbaddr ctx'"
    and "length (hash_ents (insp_txq (run_probe netiftx_step pre netiftx_init))) <
           max_entries (hash_def (insp_txq (run_probe netiftx_step pre netiftx_init)))"
    and "room_accepted k"
    and "\<forall>(k, e) \<in> set mid. queue_key k e \<noteq> Some (nq_skbaddr ctx)"
    and "k_now k \<le> k_now k'" and "netiftx_THRESH < k_now k' - k_now k" and "0 \<le> k_perf k'"
  shows "txlat_event ACTION_QDISC k' (ns_skbaddr ctx') (k_now k) \<in>
    set (map snd (netiftx_event (run_probe netiftx_step
      ((pre @ [(k, Net_dev_queue ctx)]) @ mid @ (k', Net_dev_start_xmit ctx') # post) netiftx_init)))"
proof -
  have started: "hash_lookup (insp_txq (run_probe netiftx_step (pre @ [(k, Net_dev_queue ctx)])
      netiftx_init)) (nq_skbaddr ctx) = Some (k_now k)"
    using hash_accepts_room [OF assms(3,2)]
    by (simp add: net_dev_queue_def helper_defs hash_lookup_update flag_defs)
  have "\<forall>(k, e) \<in> set mid. queue_key k e \<noteq> Some (nq_skbaddr ctx) \<and> None \<noteq> Some (nq_skbaddr ctx)"
    using assms(4) by auto
  from qdisc.slow_interval_reported [OF started this, of k' "Net_dev_start_xmit ctx'" post]
  show ?thesis using assms(1,5-7) by (simp add: events_of_def)
qed

lemma qdisc_slow_reported_witness:
  "txlat_event ACTION_QDISC (sample_kernel\<lparr>k_now := 200001000\<rparr>) 64 1000 \<in>
   set (map snd (netiftx_event (run_probe netiftx_step
     (([] @ [(fst (tx_run ! 0), snd (tx_run ! 0))]) @ [] @ (fst (tx_run ! 1), snd (tx_run ! 1)) # [])
     netiftx_init)))"
proof -
  have "room_accepted (sample_kernel\<lparr>k_now := 1000\<rparr>)" by (simp add: room_accepted_def)
  from qdisc_slow_reported [of "\<lparr>nq_unused = 0, nq_skbaddr = 64, nq_len = 0, nq_name = 0\<rparr>"
      "\<lparr>ns_unused = 0, ns_name = 0, ns_queue_mapping = 0, ns_skbaddr = 64,
         ns_vlan_tagged = False, ns_vlan_proto = 0, ns_vlan_tci = 0, ns_protocol = 0, ns_ip_summed = 0,
         ns_len = 0, ns_data_len = 0, ns_network_offset = 0, ns_transport_offset_valid = False,
         ns_transport_offset = 0, ns_tx_flags = 0, ns_gso_size = 0, ns_gso_segs = 0,
         ns_gso_type = 0\<rparr>" "[]" "sample_kernel\<lparr>k_now := 1000\<rparr>" "[]"
      "sample_kernel\<lparr>k_now := 200001000\<rparr>" "[]", OF _ _ this]
  show ?thesis
    by (simp add: tx_run_def netiftx_init_def hash_empty_def insp_txq_def_def netiftx_THRESH_def)
qed

end
