(* ===== verification/Kernellatency.thy ===== *)
theory Kernellatency
  imports Inspector Latency
begin

text \<open>
  The stack latency probe, \<^verbatim>\<open>src/bpf/kernellatency.c\<close>: it follows a socket buffer through
  the receive path (from \<^verbatim>\<open>ip_rcv\<close> to \<^verbatim>\<open>ip_local_deliver_finish\<close>) and the
  transmit path (from \<^verbatim>\<open>__ip_queue_xmit\<close> to \<^verbatim>\<open>ip_finish_output2\<close>), notes the
  time at four points of each and reports buffers that take more than ten milliseconds.
\<close>

section \<open>State\<close>

definition RX_KLATENCY :: u32 where "RX_KLATENCY = 1"

definition TX_KLATENCY :: u32 where "TX_KLATENCY = 2"

definition klat_THRESH :: u64 where "klat_THRESH = 10000000"

lemma directions_distinct [simp]: "RX_KLATENCY \<noteq> TX_KLATENCY" "TX_KLATENCY \<noteq> RX_KLATENCY"
  by (simp_all add: RX_KLATENCY_def TX_KLATENCY_def)

record txlatency_t =
  tx_queuexmit :: u64
  tx_local :: u64
  tx_output :: u64
  tx_finish :: u64

record rxlatency_t =
  rx_rcv :: u64
  rx_rcvfinish :: u64
  rx_local :: u64
  rx_localfinish :: u64

record insp_kl_event_t =
  ke_target :: bytes
  ke_tuple :: tuple
  ke_skb_meta :: skb_meta
  ke_pid :: u32
  ke_cpu :: u32
  ke_direction :: u32
  ke_latency :: u64
  ke_point1 :: u64
  ke_point2 :: u64
  ke_point3 :: u64
  ke_point4 :: u64

definition insp_kernelrx_entry_def :: bpf_map_def where
  "insp_kernelrx_entry_def = \<lparr>map_type = BPF_MAP_TYPE_HASH, key_size = 8, value_size = 32,
     max_entries = 10000, map_flags = 0\<rparr>"

definition insp_kerneltx_entry_def :: bpf_map_def where
  "insp_kerneltx_entry_def = \<lparr>map_type = BPF_MAP_TYPE_HASH, key_size = 8, value_size = 32,
     max_entries = 10000, map_flags = 0\<rparr>"

text \<open>A stack trace table declared by the file but used by none of its handlers.\<close>

definition insp_klatency_stack_def :: bpf_map_def where
  "insp_klatency_stack_def = \<lparr>map_type = BPF_MAP_TYPE_STACK_TRACE, key_size = 4,
     value_size = PERF_MAX_STACK_DEPTH * 8, max_entries = 1000, map_flags = 0\<rparr>"

record klat =
  insp_kernelrx_entry :: "(u64, rxlatency_t) bpf_hash"
  insp_kerneltx_entry :: "(u64, txlatency_t) bpf_hash"
  insp_klatency_event :: "insp_kl_event_t perf"

definition klat_init :: klat where
  "klat_init = \<lparr>insp_kernelrx_entry = hash_empty insp_kernelrx_entry_def,
     insp_kerneltx_entry = hash_empty insp_kerneltx_entry_def, insp_klatency_event = []\<rparr>"

section \<open>Handlers\<close>

definition zero_kl_event :: insp_kl_event_t where
  "zero_kl_event = \<lparr>ke_target = replicate TASK_COMM_LEN 0, ke_tuple = zero_tuple,
     ke_skb_meta = zero_meta, ke_pid = 0, ke_cpu = 0, ke_direction = 0, ke_latency = 0,
     ke_point1 = 0, ke_point2 = 0, ke_point3 = 0, ke_point4 = 0\<rparr>"

text \<open>The points are read from the entry, which is map memory and always readable.\<close>

definition update_rxlat :: "kenv \<Rightarrow> u64 \<Rightarrow> rxlatency_t \<Rightarrow> klat \<Rightarrow> int \<times> klat" where
  "update_rxlat k skb lat s =
     (if rx_localfinish lat > rx_rcv lat then
        (let latency = rx_localfinish lat - rx_rcv lat
         in if latency > klat_THRESH then
              (let event = zero_kl_event;
                   event = event\<lparr>ke_target := snd (bpf_get_current_comm k (ke_target event) TASK_COMM_LEN)\<rparr>;
                   event = event\<lparr>ke_tuple := snd (set_tuple k skb (ke_tuple event))\<rparr>;
                   event = event\<lparr>ke_skb_meta := set_meta k skb (ke_skb_meta event)\<rparr>;
                   event = event\<lparr>ke_pid := ucast (drop_bit 32 (bpf_get_current_pid_tgid k))\<rparr>;
                   event = event\<lparr>ke_cpu := bpf_get_smp_processor_id k\<rparr>;
                   event = event\<lparr>ke_direction := RX_KLATENCY\<rparr>;
                   event = event\<lparr>ke_latency := latency\<rparr>;
                   event = event\<lparr>ke_point1 := rx_rcv lat\<rparr>;
                   event = event\<lparr>ke_point2 := rx_rcvfinish lat\<rparr>;
                   event = event\<lparr>ke_point3 := rx_local lat\<rparr>;
                   event = event\<lparr>ke_point4 := rx_localfinish lat\<rparr>
               in (0, s\<lparr>insp_klatency_event := snd (bpf_perf_event_output k (insp_klatency_event s)
                                                      BPF_F_CURRENT_CPU event)\<rparr>))
            else (0, s))
      else (0, s))"

definition update_txlat :: "kenv \<Rightarrow> u64 \<Rightarrow> txlatency_t \<Rightarrow> klat \<Rightarrow> int \<times> klat" where
  "update_txlat k skb lat s =
     (if tx_finish lat > tx_queuexmit lat then
        (let latency = tx_finish lat - tx_queuexmit lat
         in if latency > klat_THRESH then
              (let event = zero_kl_event;
                   event = event\<lparr>ke_target := snd (bpf_get_current_comm k (ke_target event) TASK_COMM_LEN)\<rparr>;
                   event = event\<lparr>ke_tuple := snd (set_tuple k skb (ke_tuple event))\<rparr>;
                   event = event\<lparr>ke_skb_meta := set_meta k skb (ke_skb_meta event)\<rparr>;
                   event = event\<lparr>ke_pid := ucast (drop_bit 32 (bpf_get_current_pid_tgid k))\<rparr>;
                   event = event\<lparr>ke_cpu := bpf_get_smp_processor_id k\<rparr>;
                   event = event\<lparr>ke_direction := TX_KLATENCY\<rparr>;
                   event = event\<lparr>ke_latency := latency\<rparr>;
                   event = event\<lparr>ke_point1 := tx_queuexmit lat\<rparr>;
                   event = event\<lparr>ke_point2 := tx_local lat\<rparr>;
                   event = event\<lparr>ke_point3 := tx_output lat\<rparr>;
                   event = event\<lparr>ke_point4 := tx_finish lat\<rparr>
               in (0, s\<lparr>insp_klatency_event := snd (bpf_perf_event_output k (insp_klatency_event s)
                                                      BPF_F_CURRENT_CPU event)\<rparr>))
            else (0, s))
      else (0, s))"

definition klatency_ip_rcv :: "arch \<Rightarrow> kenv \<Rightarrow> pt_regs \<Rightarrow> klat \<Rightarrow> int \<times> klat" where
  "klatency_ip_rcv a k ctx s =
     (let skb = PT_REGS_PARM1 a ctx;
          lat = \<lparr>rx_rcv = 0, rx_rcvfinish = 0, rx_local = 0, rx_localfinish = 0\<rparr>;
          lat = lat\<lparr>rx_rcv := bpf_ktime_get_ns k\<rparr>
      in (0, s\<lparr>insp_kernelrx_entry := snd (hash_update k (insp_kernelrx_entry s) skb lat BPF_ANY)\<rparr>))"

definition klatency_ip_rcv_finish :: "arch \<Rightarrow> kenv \<Rightarrow> pt_regs \<Rightarrow> klat \<Rightarrow> int \<times> klat" where
  "klatency_ip_rcv_finish a k ctx s =
     (let skb = PT_REGS_PARM3 a ctx
      in case hash_lookup (insp_kernelrx_entry s) skb of
           None \<Rightarrow> (0, s)
         | Some lat \<Rightarrow>
             (0, s\<lparr>insp_kernelrx_entry :=
                     hash_modify (\<lambda>l. l\<lparr>rx_rcvfinish := bpf_ktime_get_ns k\<rparr>) skb (insp_kernelrx_entry s)\<rparr>))"

definition klatency_ip_local_deliver :: "arch \<Rightarrow> kenv \<Rightarrow> pt_regs \<Rightarrow> klat \<Rightarrow> int \<times> klat" where
  "klatency_ip_local_deliver a k ctx s =
     (let skb = PT_REGS_PARM1 a ctx
      in case hash_lookup (insp_kernelrx_entry s) skb of
           None \<Rightarrow> (0, s)
         | Some lat \<Rightarrow>
             (0, s\<lparr>insp_kernelrx_entry :=
                     hash_modify (\<lambda>l. l\<lparr>rx_local := bpf_ktime_get_ns k\<rparr>) skb (insp_kernelrx_entry s)\<rparr>))"

definition klatency_ip_local_deliver_finish :: "arch \<Rightarrow> kenv \<Rightarrow> pt_regs \<Rightarrow> klat \<Rightarrow> int \<times> klat" where
  "klatency_ip_local_deliver_finish a k ctx s =
     (let skb = PT_REGS_PARM3 a ctx
      in case hash_lookup (insp_kernelrx_entry s) skb of
           None \<Rightarrow> (0, s)
         | Some lat \<Rightarrow>
             (let set_finish = (\<lambda>l. l\<lparr>rx_localfinish := bpf_ktime_get_ns k\<rparr>);
                  s1 = s\<lparr>insp_kernelrx_entry := hash_modify set_finish skb (insp_kernelrx_entry s)\<rparr>;
                  s2 = snd (update_rxlat k skb (set_finish lat) s1)
              in (0, s2\<lparr>insp_kernelrx_entry := snd (hash_delete k (insp_kernelrx_entry s2) skb)\<rparr>)))"

definition klatency_ip_queue_xmit :: "arch \<Rightarrow> kenv \<Rightarrow> pt_regs \<Rightarrow> klat \<Rightarrow> int \<times> klat" where
  "klatency_ip_queue_xmit a k ctx s =
     (let skb = PT_REGS_PARM2 a ctx;
          lat = \<lparr>tx_queuexmit = 0, tx_local = 0, tx_output = 0, tx_finish = 0\<rparr>;
          lat = lat\<lparr>tx_queuexmit := bpf_ktime_get_ns k\<rparr>
      in (0, s\<lparr>insp_kerneltx_entry := snd (hash_update k (insp_kerneltx_entry s) skb lat BPF_ANY)\<rparr>))"

definition klatency_ip_local :: "arch \<Rightarrow> kenv \<Rightarrow> pt_regs \<Rightarrow> klat \<Rightarrow> int \<times> klat" where
  "klatency_ip_local a k ctx s =
     (let skb = PT_REGS_PARM3 a ctx
      in case hash_lookup (insp_kerneltx_entry s) skb of
           None \<Rightarrow> (0, s)
         | Some lat \<Rightarrow>
             (0, s\<lparr>insp_kerneltx_entry :=
                     hash_modify (\<lambda>l. l\<lparr>tx_local := bpf_ktime_get_ns k\<rparr>) skb (insp_kerneltx_entry s)\<rparr>))"

definition klatency_ip_output :: "arch \<Rightarrow> kenv \<Rightarrow> pt_regs \<Rightarrow> klat \<Rightarrow> int \<times> klat" where
  "klatency_ip_output a k ctx s =
     (let skb = PT_REGS_PARM3 a ctx
      in case hash_lookup (insp_kerneltx_entry s) skb of
           None \<Rightarrow> (0, s)
         | Some lat \<Rightarrow>
             (0, s\<lparr>insp_kerneltx_entry :=
                     hash_modify (\<lambda>l. l\<lparr>tx_output := bpf_ktime_get_ns k\<rparr>) skb (insp_kerneltx_entry s)\<rparr>))"

definition klatency_ip_finish_output2 :: "arch \<Rightarrow> kenv \<Rightarrow> pt_regs \<Rightarrow> klat \<Rightarrow> int \<times> klat" where
  "klatency_ip_finish_output2 a k ctx s =
     (let skb = PT_REGS_PARM3 a ctx
      in case hash_lookup (insp_kerneltx_entry s) skb of
           None \<Rightarrow> (0, s)
         | Some lat \<Rightarrow>
             (let set_finish = (\<lambda>l. l\<lparr>tx_finish := bpf_ktime_get_ns k\<rparr>);
                  s1 = s\<lparr>insp_kerneltx_entry := hash_modify set_finish skb (insp_kerneltx_entry s)\<rparr>;
                  s2 = snd (update_txlat k skb (set_finish lat) s1)
              in (0, s2\<lparr>insp_kerneltx_entry := snd (hash_delete k (insp_kerneltx_entry s2) skb)\<rparr>)))"

definition report_kfree :: "arch \<Rightarrow> kenv \<Rightarrow> pt_regs \<Rightarrow> klat \<Rightarrow> int \<times> klat" where
  "report_kfree a k ctx s =
     (let skb = PT_REGS_PARM1 a ctx;
          s1 = (case hash_lookup (insp_kernelrx_entry s) skb of
                  None \<Rightarrow> s
                | Some latrx \<Rightarrow>
                    s\<lparr>insp_kernelrx_entry := snd (hash_delete k (insp_kernelrx_entry s) skb)\<rparr>);
          s2 = (case hash_lookup (insp_kerneltx_entry s1) skb of
                  None \<Rightarrow> s1
                | Some lattx \<Rightarrow>
                    s1\<lparr>insp_kerneltx_entry := snd (hash_delete k (insp_kerneltx_entry s1) skb)\<rparr>)
      in (0, s2))"

definition report_consume :: "arch \<Rightarrow> kenv \<Rightarrow> pt_regs \<Rightarrow> klat \<Rightarrow> int \<times> klat" where
  "report_consume a k ctx s =
     (let skb = PT_REGS_PARM1 a ctx;
          s1 = (case hash_lookup (insp_kernelrx_entry s) skb of
                  None \<Rightarrow> s
                | Some latrx \<Rightarrow>
                    s\<lparr>insp_kernelrx_entry := snd (hash_delete k (insp_kernelrx_entry s) skb)\<rparr>);
          s2 = (case hash_lookup (insp_kerneltx_entry s1) skb of
                  None \<Rightarrow> s1
                | Some lattx \<Rightarrow>
                    s1\<lparr>insp_kerneltx_entry := snd (hash_delete k (insp_kerneltx_entry s1) skb)\<rparr>)
      in (0, s2))"

datatype klat_call =
    Ip_rcv pt_regs | Ip_rcv_finish pt_regs | Ip_local_deliver pt_regs | Ip_local_deliver_finish pt_regs
  | Ip_queue_xmit pt_regs | Ip_local_out pt_regs | Ip_output pt_regs | Ip_finish_output2 pt_regs
  | Kfree_skb pt_regs | Consume_skb pt_regs

fun klat_step :: "arch \<Rightarrow> kenv \<Rightarrow> klat_call \<Rightarrow> klat \<Rightarrow> klat" where
  "klat_step a k (Ip_rcv ctx) s = snd (klatency_ip_rcv a k ctx s)"
| "klat_step a k (Ip_rcv_finish ctx) s = snd (klatency_ip_rcv_finish a k ctx s)"
| "klat_step a k (Ip_local_deliver ctx) s = snd (klatency_ip_local_deliver a k ctx s)"
| "klat_step a k (Ip_local_deliver_finish ctx) s = snd (klatency_ip_local_deliver_finish a k ctx s)"
| "klat_step a k (Ip_queue_xmit ctx) s = snd (klatency_ip_queue_xmit a k ctx s)"
| "klat_step a k (Ip_local_out ctx) s = snd (klatency_ip_local a k ctx s)"
| "klat_step a k (Ip_output ctx) s = snd (klatency_ip_output a k ctx s)"
| "klat_step a k (Ip_finish_output2 ctx) s = snd (klatency_ip_finish_output2 a k ctx s)"
| "klat_step a k (Kfree_skb ctx) s = snd (report_kfree a k ctx s)"
| "klat_step a k (Consume_skb ctx) s = snd (report_consume a k ctx s)"

section \<open>The effect of a step\<close>

definition rx_event :: "kenv \<Rightarrow> u64 \<Rightarrow> rxlatency_t \<Rightarrow> insp_kl_event_t" where
  "rx_event k skb lat = \<lparr>ke_target = overlay (k_comm k 20) (replicate 20 0),
     ke_tuple = snd (set_tuple k skb zero_tuple), ke_skb_meta = set_meta k skb zero_meta,
     ke_pid = k_tgid k, ke_cpu = k_cpu k, ke_direction = RX_KLATENCY,
     ke_latency = k_now k - rx_rcv lat, ke_point1 = rx_rcv lat, ke_point2 = rx_rcvfinish lat,
     ke_point3 = rx_local lat, ke_point4 = k_now k\<rparr>"

definition tx_event :: "kenv \<Rightarrow> u64 \<Rightarrow> txlatency_t \<Rightarrow> insp_kl_event_t" where
  "tx_event k skb lat = \<lparr>ke_target = overlay (k_comm k 20) (replicate 20 0),
     ke_tuple = snd (set_tuple k skb zero_tuple), ke_skb_meta = set_meta k skb zero_meta,
     ke_pid = k_tgid k, ke_cpu = k_cpu k, ke_direction = TX_KLATENCY,
     ke_latency = k_now k - tx_queuexmit lat, ke_point1 = tx_queuexmit lat, ke_point2 = tx_local lat,
     ke_point3 = tx_output lat, ke_point4 = k_now k\<rparr>"

lemma update_rxlat_eq:
  "snd (update_rxlat k skb (lat\<lparr>rx_localfinish := k_now k\<rparr>) s) =
     (if rx_rcv lat < k_now k \<and> klat_THRESH < k_now k - rx_rcv lat \<and> 0 \<le> k_perf k
      then s\<lparr>insp_klatency_event := insp_klatency_event s @ [(k_cpu k, rx_event k skb lat)]\<rparr> else s)"
  by (simp add: update_rxlat_def rx_event_def zero_kl_event_def perf_output_current_cpu helper_defs
      bpf_get_current_comm_def TASK_COMM_LEN_def Let_def)

lemma update_txlat_eq:
  "snd (update_txlat k skb (lat\<lparr>tx_finish := k_now k\<rparr>) s) =
     (if tx_queuexmit lat < k_now k \<and> klat_THRESH < k_now k - tx_queuexmit lat \<and> 0 \<le> k_perf k
      then s\<lparr>insp_klatency_event := insp_klatency_event s @ [(k_cpu k, tx_event k skb lat)]\<rparr> else s)"
  by (simp add: update_txlat_def tx_event_def zero_kl_event_def perf_output_current_cpu helper_defs
      bpf_get_current_comm_def TASK_COMM_LEN_def Let_def)

lemmas klat_handlers =
  klatency_ip_rcv_def klatency_ip_rcv_finish_def klatency_ip_local_deliver_def
  klatency_ip_local_deliver_finish_def klatency_ip_queue_xmit_def klatency_ip_local_def
  klatency_ip_output_def klatency_ip_finish_output2_def report_kfree_def report_consume_def

lemma rx_entry_step:
  "hash_lookup (insp_kernelrx_entry (klat_step a k e s)) =
     (let rx = insp_kernelrx_entry s in
      case e of
        Ip_rcv ctx \<Rightarrow>
          if hash_accepts k rx (PT_REGS_PARM1 a ctx) BPF_ANY
          then (hash_lookup rx)(PT_REGS_PARM1 a ctx \<mapsto>
                  \<lparr>rx_rcv = k_now k, rx_rcvfinish = 0, rx_local = 0, rx_localfinish = 0\<rparr>)
          else hash_lookup rx
      | Ip_rcv_finish ctx \<Rightarrow>
          (hash_lookup rx)(PT_REGS_PARM3 a ctx :=
             map_option (\<lambda>l. l\<lparr>rx_rcvfinish := k_now k\<rparr>) (hash_lookup rx (PT_REGS_PARM3 a ctx)))
      | Ip_local_deliver ctx \<Rightarrow>
          (hash_lookup rx)(PT_REGS_PARM1 a ctx :=
             map_option (\<lambda>l. l\<lparr>rx_local := k_now k\<rparr>) (hash_lookup rx (PT_REGS_PARM1 a ctx)))
      | Ip_local_deliver_finish ctx \<Rightarrow> (hash_lookup rx)(PT_REGS_PARM3 a ctx := None)
      | Kfree_skb ctx \<Rightarrow> (hash_lookup rx)(PT_REGS_PARM1 a ctx := None)
      | Consume_skb ctx \<Rightarrow> (hash_lookup rx)(PT_REGS_PARM1 a ctx := None)
      | _ \<Rightarrow> hash_lookup rx)"
  by (cases e)
    (auto simp: klat_handlers update_rxlat_eq update_txlat_eq hash_lookup_update helper_defs Let_def
      fun_eq_iff split: option.splits)

lemma tx_entry_step:
  "hash_lookup (insp_kerneltx_entry (klat_step a k e s)) =
     (let tx = insp_kerneltx_entry s in
      case e of
        Ip_queue_xmit ctx \<Rightarrow>
          if hash_accepts k tx (PT_REGS_PARM2 a ctx) BPF_ANY
          then (hash_lookup tx)(PT_REGS_PARM2 a ctx \<mapsto>
                  \<lparr>tx_queuexmit = k_now k, tx_local = 0, tx_output = 0, tx_finish = 0\<rparr>)
          else hash_lookup tx
      | Ip_local_out ctx \<Rightarrow>
          (hash_lookup tx)(PT_REGS_PARM3 a ctx :=
             map_option (\<lambda>l. l\<lparr>tx_local := k_now k\<rparr>) (hash_lookup tx (PT_REGS_PARM3 a ctx)))
      | Ip_output ctx \<Rightarrow>
          (hash_lookup tx)(PT_REGS_PARM3 a ctx :=
             map_option (\<lambda>l. l\<lparr>tx_output := k_now k\<rparr>) (hash_lookup tx (PT_REGS_PARM3 a ctx)))
      | Ip_finish_output2 ctx \<Rightarrow> (hash_lookup tx)(PT_REGS_PARM3 a ctx := None)
      | Kfree_skb ctx \<Rightarrow> (hash_lookup tx)(PT_REGS_PARM1 a ctx := None)
      | Consume_skb ctx \<Rightarrow> (hash_lookup tx)(PT_REGS_PARM1 a ctx := None)
      | _ \<Rightarrow> hash_lookup tx)"
  by (cases e)
    (auto simp: klat_handlers update_rxlat_eq update_txlat_eq hash_lookup_update helper_defs Let_def
      fun_eq_iff split: option.splits)

lemma klat_event_step:
  "insp_klatency_event (klat_step a k e s) =
     insp_klatency_event s @
     (case e of
        Ip_local_deliver_finish ctx \<Rightarrow>
          (case hash_lookup (insp_kernelrx_entry s) (PT_REGS_PARM3 a ctx) of
             Some lat \<Rightarrow>
               if rx_rcv lat < k_now k \<and> klat_THRESH < k_now k - rx_rcv lat \<and> 0 \<le> k_perf k
               then [(k_cpu k, rx_event k (PT_REGS_PARM3 a ctx) lat)] else []
           | None \<Rightarrow> [])
      | Ip_finish_output2 ctx \<Rightarrow>
          (case hash_lookup (insp_kerneltx_entry s) (PT_REGS_PARM3 a ctx) of
             Some lat \<Rightarrow>
               if tx_queuexmit lat < k_now k \<and> klat_THRESH < k_now k - tx_queuexmit lat \<and> 0 \<le> k_perf k
               then [(k_cpu k, tx_event k (PT_REGS_PARM3 a ctx) lat)] else []
           | None \<Rightarrow> [])
      | _ \<Rightarrow> [])"
  by (cases e)
    (auto simp: klat_handlers update_rxlat_eq update_txlat_eq helper_defs Let_def split: option.splits)

declare klat_step.simps [simp del]

section \<open>The two paths as latency probes\<close>

text \<open>An event without the two intermediate points, and the events of one direction.\<close>

definition without_points :: "insp_kl_event_t \<Rightarrow> insp_kl_event_t" where
  "without_points e = e\<lparr>ke_point2 := 0, ke_point3 := 0\<rparr>"

definition klat_events :: "u32 \<Rightarrow> klat \<Rightarrow> insp_kl_event_t list" where
  "klat_events d s =
     map without_points (filter (\<lambda>e. ke_direction e = d) (map snd (insp_klatency_event s)))"

fun rx_opens :: "arch \<Rightarrow> kenv \<Rightarrow> klat_call \<Rightarrow> u64 option" where
  "rx_opens a k (Ip_rcv ctx) = Some (PT_REGS_PARM1 a ctx)"
| "rx_opens a k _ = None"

fun rx_closes :: "arch \<Rightarrow> kenv \<Rightarrow> klat_call \<Rightarrow> u64 option" where
  "rx_closes a k (Ip_local_deliver_finish ctx) = Some (PT_REGS_PARM3 a ctx)"
| "rx_closes a k _ = None"

fun rx_clears :: "arch \<Rightarrow> kenv \<Rightarrow> klat_call \<Rightarrow> u64 option" where
  "rx_clears a k (Ip_local_deliver_finish ctx) = Some (PT_REGS_PARM3 a ctx)"
| "rx_clears a k (Kfree_skb ctx) = Some (PT_REGS_PARM1 a ctx)"
| "rx_clears a k (Consume_skb ctx) = Some (PT_REGS_PARM1 a ctx)"
| "rx_clears a k _ = None"

fun tx_opens :: "arch \<Rightarrow> kenv \<Rightarrow> klat_call \<Rightarrow> u64 option" where
  "tx_opens a k (Ip_queue_xmit ctx) = Some (PT_REGS_PARM2 a ctx)"
| "tx_opens a k _ = None"

fun tx_closes :: "arch \<Rightarrow> kenv \<Rightarrow> klat_call \<Rightarrow> u64 option" where
  "tx_closes a k (Ip_finish_output2 ctx) = Some (PT_REGS_PARM3 a ctx)"
| "tx_closes a k _ = None"

fun tx_clears :: "arch \<Rightarrow> kenv \<Rightarrow> klat_call \<Rightarrow> u64 option" where
  "tx_clears a k (Ip_finish_output2 ctx) = Some (PT_REGS_PARM3 a ctx)"
| "tx_clears a k (Kfree_skb ctx) = Some (PT_REGS_PARM1 a ctx)"
| "tx_clears a k (Consume_skb ctx) = Some (PT_REGS_PARM1 a ctx)"
| "tx_clears a k _ = None"

text \<open>The buffer an end event is about.\<close>

fun done_skb :: "arch \<Rightarrow> klat_call \<Rightarrow> u64" where
  "done_skb a (Ip_local_deliver_finish ctx) = PT_REGS_PARM3 a ctx"
| "done_skb a (Ip_finish_output2 ctx) = PT_REGS_PARM3 a ctx"
| "done_skb a _ = 0"

definition rx_report :: "kenv \<Rightarrow> u64 \<Rightarrow> u64 \<Rightarrow> insp_kl_event_t" where
  "rx_report k skb t =
     rx_event k skb \<lparr>rx_rcv = t, rx_rcvfinish = 0, rx_local = 0, rx_localfinish = 0\<rparr>"

definition tx_report :: "kenv \<Rightarrow> u64 \<Rightarrow> u64 \<Rightarrow> insp_kl_event_t" where
  "tx_report k skb t =
     tx_event k skb \<lparr>tx_queuexmit = t, tx_local = 0, tx_output = 0, tx_finish = 0\<rparr>"

lemma without_points_events [simp]:
  "without_points (rx_event k skb lat) = rx_report k skb (rx_rcv lat)"
  "without_points (tx_event k skb lat') = tx_report k skb (tx_queuexmit lat')"
  "ke_direction (rx_event k skb lat) = RX_KLATENCY" "ke_direction (tx_event k skb lat') = TX_KLATENCY"
  by (simp_all add: without_points_def rx_event_def tx_event_def rx_report_def tx_report_def)

interpretation klat_rx: prompt_probe "klat_step a"
    "\<lambda>s x. map_option rx_rcv (hash_lookup (insp_kernelrx_entry s) x)" "klat_events RX_KLATENCY"
    "rx_opens a" "rx_closes a" "\<lambda>k e. k_now k" "\<lambda>t. t" "\<lambda>k e. rx_report k (done_skb a e)"
    klat_THRESH "rx_clears a" for a
  by unfold_locales
    (auto simp: rx_entry_step klat_event_step klat_events_def Let_def option.map_comp comp_def
      slow_strict image_iff
      elim!: rx_opens.elims rx_closes.elims rx_clears.elims
      split: klat_call.splits option.splits if_splits)

interpretation klat_tx: prompt_probe "klat_step a"
    "\<lambda>s x. map_option tx_queuexmit (hash_lookup (insp_kerneltx_entry s) x)" "klat_events TX_KLATENCY"
    "tx_opens a" "tx_closes a" "\<lambda>k e. k_now k" "\<lambda>t. t" "\<lambda>k e. tx_report k (done_skb a e)"
    klat_THRESH "tx_clears a" for a
  by unfold_locales
    (auto simp: tx_entry_step klat_event_step klat_events_def Let_def option.map_comp comp_def
      slow_strict image_iff
      elim!: tx_opens.elims tx_closes.elims tx_clears.elims
      split: klat_call.splits option.splits if_splits)

section \<open>Properties\<close>

lemma klat_init_simps [simp]:
  "hash_lookup (insp_kernelrx_entry klat_init) = Map.empty"
  "hash_lookup (insp_kerneltx_entry klat_init) = Map.empty"
  "insp_klatency_event klat_init = []" "klat_events d klat_init = []"
  by (auto simp: klat_init_def klat_events_def)

lemma klat_event_directions:
  "\<forall>e \<in> set (map snd (insp_klatency_event (run_probe (klat_step a) xs klat_init))).
     ke_direction e = RX_KLATENCY \<or> ke_direction e = TX_KLATENCY"
proof (rule run_probe_invariant)
  fix k e and s :: klat
  assume "\<forall>e \<in> set (map snd (insp_klatency_event s)).
    ke_direction e = RX_KLATENCY \<or> ke_direction e = TX_KLATENCY"
  then show "\<forall>e \<in> set (map snd (insp_klatency_event (klat_step a k e s))).
      ke_direction e = RX_KLATENCY \<or> ke_direction e = TX_KLATENCY"
    by (auto simp: klat_event_step split: klat_call.splits option.splits if_splits)
qed simp

lemma klat_events_mem:
  assumes "r \<in> set (klat_events d s)"
  shows "\<exists>ev \<in> set (map snd (insp_klatency_event s)). without_points ev = r"
  using assms unfolding klat_events_def set_map set_filter by blast

lemma done_skb_closes:
  "rx_closes a k e = Some x \<Longrightarrow> done_skb a e = x" "tx_closes a k e = Some x \<Longrightarrow> done_skb a e = x"
  by (auto elim!: rx_closes.elims tx_closes.elims)

text \<open>
  C16: every event of the stack latency probe belongs to a buffer whose path through
  the stack began and ended in the run: it is reported at the end of the receive or of the transmit
  path, its latency, first and last point come from the two ends, more than ten milliseconds
  apart, and in between the buffer neither began that path again nor was delivered, freed or
  consumed.
\<close>

theorem klat_reports_sound:
  assumes "ev \<in> set (map snd (insp_klatency_event (run_probe (klat_step a) xs klat_init)))"
  shows "\<exists>i j skb. klat_THRESH < k_now (fst (xs ! j)) - k_now (fst (xs ! i)) \<and>
    (interval (rx_opens a) (rx_closes a) xs i j skb \<and>
       undisturbed (rx_opens a) (rx_clears a) xs i j skb \<and>
       without_points ev = rx_report (fst (xs ! j)) skb (k_now (fst (xs ! i))) \<or>
     interval (tx_opens a) (tx_closes a) xs i j skb \<and>
       undisturbed (tx_opens a) (tx_clears a) xs i j skb \<and>
       without_points ev = tx_report (fst (xs ! j)) skb (k_now (fst (xs ! i))))"
proof -
  from assms klat_event_directions
  have "ke_direction ev = RX_KLATENCY \<or> ke_direction ev = TX_KLATENCY" by blast
  then consider
      "without_points ev \<in> set (klat_events RX_KLATENCY (run_probe (klat_step a) xs klat_init))"
    | "without_points ev \<in> set (klat_events TX_KLATENCY (run_probe (klat_step a) xs klat_init))"
    using assms by (auto simp: klat_events_def)
  then show ?thesis
  proof cases
    case 1
    from klat_rx.reported_run_latest [OF _ _ this] obtain i j skb where
      m: "interval (rx_opens a) (rx_closes a) xs i j skb" "undisturbed (rx_opens a) (rx_clears a) xs i j skb"
      "klat_rx.measured a xs i j (without_points ev)" by auto
    from m(1) have "done_skb a (snd (xs ! j)) = skb"
      by (auto simp: interval_def intro: done_skb_closes)
    with m show ?thesis by (auto simp: klat_rx.measured_def Let_def)
  next
    case 2
    from klat_tx.reported_run_latest [OF _ _ this] obtain i j skb where
      m: "interval (tx_opens a) (tx_closes a) xs i j skb" "undisturbed (tx_opens a) (tx_clears a) xs i j skb"
      "klat_tx.measured a xs i j (without_points ev)" by auto
    from m(1) have "done_skb a (snd (xs ! j)) = skb"
      by (auto simp: interval_def intro: done_skb_closes)
    with m show ?thesis by (auto simp: klat_tx.measured_def Let_def)
  qed
qed

text \<open>A buffer at 64 that is received at time 7 and delivered 20 milliseconds later.\<close>

definition skb_regs :: pt_regs where "skb_regs r = 64"

definition rx_run :: "(kenv \<times> klat_call) list" where
  "rx_run = [(sample_kernel\<lparr>k_now := 7\<rparr>, Ip_rcv skb_regs),
             (sample_kernel\<lparr>k_now := 20000007\<rparr>, Ip_local_deliver_finish skb_regs)]"

lemma regs_params [simp]:
  "PT_REGS_PARM1 a skb_regs = 64" "PT_REGS_PARM2 a skb_regs = 64" "PT_REGS_PARM3 a skb_regs = 64"
  by (simp_all add: PT_REGS_PARM1_def PT_REGS_PARM2_def PT_REGS_PARM3_def skb_regs_def)

lemma rx_run_event:
  "insp_klatency_event (run_probe (klat_step Amd64) rx_run klat_init) =
     [(0, rx_report (sample_kernel\<lparr>k_now := 20000007\<rparr>) 64 7)]"
  by (simp add: rx_run_def klat_event_step rx_entry_step hash_accepts_def klat_init_def
      hash_empty_def insp_kernelrx_entry_def_def hash_lookup_def flag_defs klat_THRESH_def rx_report_def)

theorem klat_reports_sound_witness:
  "\<exists>i j skb. klat_THRESH < k_now (fst (rx_run ! j)) - k_now (fst (rx_run ! i)) \<and>
    (interval (rx_opens Amd64) (rx_closes Amd64) rx_run i j skb \<and>
       undisturbed (rx_opens Amd64) (rx_clears Amd64) rx_run i j skb \<and>
       without_points (rx_report (sample_kernel\<lparr>k_now := 20000007\<rparr>) 64 7) =
         rx_report (fst (rx_run ! j)) skb (k_now (fst (rx_run ! i))) \<or>
     interval (tx_opens Amd64) (tx_closes Amd64) rx_run i j skb \<and>
       undisturbed (tx_opens Amd64) (tx_clears Amd64) rx_run i j skb \<and>
       without_points (rx_report (sample_kernel\<lparr>k_now := 20000007\<rparr>) 64 7) =
         tx_report (fst (rx_run ! j)) skb (k_now (fst (rx_run ! i))))"
  by (rule klat_reports_sound) (simp add: rx_run_event)

text \<open>
  C39: no slow delivery is missed: a buffer received while the table has room, not
  received again, delivered, freed or consumed in between, and delivered more than ten milliseconds
  later is reported when the sample is not lost.
\<close>

theorem klat_rx_slow_reported:
  assumes "PT_REGS_PARM1 a ctx = skb" and "PT_REGS_PARM3 a ctx' = skb"
    and "length (hash_ents (insp_kernelrx_entry (run_probe (klat_step a) pre klat_init))) <
           max_entries (hash_def (insp_kernelrx_entry (run_probe (klat_step a) pre klat_init)))"
    and "room_accepted k"
    and "\<forall>(k, e) \<in> set mid. rx_opens a k e \<noteq> Some skb \<and> rx_clears a k e \<noteq> Some skb"
    and "k_now k \<le> k_now k'" and "klat_THRESH < k_now k' - k_now k" and "0 \<le> k_perf k'"
  shows "\<exists>ev \<in> set (map snd (insp_klatency_event (run_probe (klat_step a)
           ((pre @ [(k, Ip_rcv ctx)]) @ mid @ (k', Ip_local_deliver_finish ctx') # post) klat_init))).
         without_points ev = rx_report k' skb (k_now k)"
proof -
  have started: "map_option rx_rcv (hash_lookup (insp_kernelrx_entry (run_probe (klat_step a)
      (pre @ [(k, Ip_rcv ctx)]) klat_init)) skb) = Some (k_now k)"
    using hash_accepts_room [OF assms(4,3)] assms(1) by (simp add: rx_entry_step)
  have "rx_report k' skb (k_now k) \<in> set (klat_events RX_KLATENCY (run_probe (klat_step a)
      ((pre @ [(k, Ip_rcv ctx)]) @ mid @ (k', Ip_local_deliver_finish ctx') # post) klat_init))"
    using klat_rx.slow_interval_reported [OF started assms(5), of k' "Ip_local_deliver_finish ctx'" post]
      assms(2,6-8) by simp
  then show ?thesis by (rule klat_events_mem)
qed

theorem klat_rx_slow_reported_witness:
  "\<exists>ev \<in> set (map snd (insp_klatency_event (run_probe (klat_step Amd64)
      (([] @ [(sample_kernel\<lparr>k_now := 7\<rparr>, Ip_rcv skb_regs)]) @
       [(sample_kernel\<lparr>k_now := 9\<rparr>, Ip_rcv_finish skb_regs)] @
       (sample_kernel\<lparr>k_now := 20000007\<rparr>, Ip_local_deliver_finish skb_regs) # []) klat_init))).
    without_points ev =
      rx_report (sample_kernel\<lparr>k_now := 20000007\<rparr>) 64 (k_now (sample_kernel\<lparr>k_now := 7\<rparr>))"
  by (rule klat_rx_slow_reported)
    (simp_all add: room_accepted_def klat_init_def hash_empty_def insp_kernelrx_entry_def_def
      klat_THRESH_def)

text \<open>
  The points of an entry are in the order of the path: every time noted lies between the first one
  and the current time.
\<close>

definition rx_ordered :: "u64 \<Rightarrow> rxlatency_t \<Rightarrow> bool" where
  "rx_ordered now lat \<longleftrightarrow> rx_rcv lat \<le> now \<and>
     (rx_rcvfinish lat = 0 \<or> rx_rcv lat \<le> rx_rcvfinish lat \<and> rx_rcvfinish lat \<le> now) \<and>
     (rx_local lat = 0 \<or> rx_rcv lat \<le> rx_local lat \<and> rx_local lat \<le> now)"

definition tx_ordered :: "u64 \<Rightarrow> txlatency_t \<Rightarrow> bool" where
  "tx_ordered now lat \<longleftrightarrow> tx_queuexmit lat \<le> now \<and>
     (tx_local lat = 0 \<or> tx_queuexmit lat \<le> tx_local lat \<and> tx_local lat \<le> now) \<and>
     (tx_output lat = 0 \<or> tx_queuexmit lat \<le> tx_output lat \<and> tx_output lat \<le> now)"

definition points_ordered :: "insp_kl_event_t \<Rightarrow> bool" where
  "points_ordered ev \<longleftrightarrow> ke_point1 ev \<le> ke_point4 ev \<and>
     (ke_point2 ev = 0 \<or> ke_point1 ev \<le> ke_point2 ev \<and> ke_point2 ev \<le> ke_point4 ev) \<and>
     (ke_point3 ev = 0 \<or> ke_point1 ev \<le> ke_point3 ev \<and> ke_point3 ev \<le> ke_point4 ev)"

definition klat_ordered :: "u64 \<Rightarrow> klat \<Rightarrow> bool" where
  "klat_ordered now s \<longleftrightarrow>
     (\<forall>skb lat. hash_lookup (insp_kernelrx_entry s) skb = Some lat \<longrightarrow> rx_ordered now lat) \<and>
     (\<forall>skb lat. hash_lookup (insp_kerneltx_entry s) skb = Some lat \<longrightarrow> tx_ordered now lat) \<and>
     (\<forall>ev \<in> set (map snd (insp_klatency_event s)). points_ordered ev)"

lemma ordered_mono:
  "rx_ordered t lat \<Longrightarrow> t \<le> t' \<Longrightarrow> rx_ordered t' lat" "tx_ordered t lat' \<Longrightarrow> t \<le> t' \<Longrightarrow> tx_ordered t' lat'"
  by (auto simp: rx_ordered_def tx_ordered_def)

lemma rx_ordered_intros:
  "rx_ordered now \<lparr>rx_rcv = now, rx_rcvfinish = 0, rx_local = 0, rx_localfinish = 0\<rparr>"
  "rx_ordered now lat \<Longrightarrow> rx_ordered now (lat\<lparr>rx_rcvfinish := now\<rparr>)"
  "rx_ordered now lat \<Longrightarrow> rx_ordered now (lat\<lparr>rx_local := now\<rparr>)"
  by (auto simp: rx_ordered_def)

lemma tx_ordered_intros:
  "tx_ordered now \<lparr>tx_queuexmit = now, tx_local = 0, tx_output = 0, tx_finish = 0\<rparr>"
  "tx_ordered now lat \<Longrightarrow> tx_ordered now (lat\<lparr>tx_local := now\<rparr>)"
  "tx_ordered now lat \<Longrightarrow> tx_ordered now (lat\<lparr>tx_output := now\<rparr>)"
  by (auto simp: tx_ordered_def)

lemma points_ordered_events:
  "rx_ordered (k_now k) lat \<Longrightarrow> points_ordered (rx_event k skb lat)"
  "tx_ordered (k_now k) lat' \<Longrightarrow> points_ordered (tx_event k skb lat')"
  by (auto simp: rx_ordered_def tx_ordered_def points_ordered_def rx_event_def tx_event_def)

lemma klat_ordered_step:
  assumes "klat_ordered now s" and "now \<le> k_now k"
  shows "klat_ordered (k_now k) (klat_step a k e s)"
proof -
  have rx: "rx_ordered (k_now k) lat" if "hash_lookup (insp_kernelrx_entry s) skb = Some lat" for skb lat
    using assms that unfolding klat_ordered_def by (blast intro: ordered_mono(1))
  have tx: "tx_ordered (k_now k) lat" if "hash_lookup (insp_kerneltx_entry s) skb = Some lat" for skb lat
    using assms that unfolding klat_ordered_def by (blast intro: ordered_mono(2))
  have "rx_ordered (k_now k) lat"
    if "hash_lookup (insp_kernelrx_entry (klat_step a k e s)) skb = Some lat" for skb lat
    using that
    by (auto simp: rx_entry_step Let_def intro: rx rx_ordered_intros
        split: klat_call.splits if_splits)
  moreover have "tx_ordered (k_now k) lat"
    if "hash_lookup (insp_kerneltx_entry (klat_step a k e s)) skb = Some lat" for skb lat
    using that
    by (auto simp: tx_entry_step Let_def intro: tx tx_ordered_intros
        split: klat_call.splits if_splits)
  moreover have "\<forall>ev \<in> set (map snd (insp_klatency_event (klat_step a k e s))). points_ordered ev"
  proof (cases e)
    case (Ip_local_deliver_finish ctx)
    with assms(1) rx [of "PT_REGS_PARM3 a ctx"] show ?thesis
      by (cases "hash_lookup (insp_kernelrx_entry s) (PT_REGS_PARM3 a ctx)")
        (auto simp: klat_event_step klat_ordered_def points_ordered_events)
  next
    case (Ip_finish_output2 ctx)
    with assms(1) tx [of "PT_REGS_PARM3 a ctx"] show ?thesis
      by (cases "hash_lookup (insp_kerneltx_entry s) (PT_REGS_PARM3 a ctx)")
        (auto simp: klat_event_step klat_ordered_def points_ordered_events)
  qed (use assms(1) in \<open>simp_all add: klat_event_step klat_ordered_def\<close>)
  ultimately show ?thesis by (simp add: klat_ordered_def)
qed

lemma klat_ordered_run:
  "clock_monotone xs \<Longrightarrow> \<forall>x \<in> set xs. t \<le> k_now (fst x) \<Longrightarrow> klat_ordered t s \<Longrightarrow>
     \<exists>t'. klat_ordered t' (run_probe (klat_step a) xs s)"
proof (induction xs arbitrary: s t)
  case (Cons x xs)
  have "klat_ordered (k_now (fst x)) (klat_step a (fst x) (snd x) s)"
    using Cons.prems by (intro klat_ordered_step) auto
  moreover have "clock_monotone xs" "\<forall>y \<in> set xs. k_now (fst x) \<le> k_now (fst y)"
    using Cons.prems(1) by (auto dest: clock_monotone_Cons)
  ultimately show ?case using Cons.IH by simp
qed auto

text \<open>
  With a clock that never goes back, the points of every event are consistent: the
  first point is not after the last one, and each intermediate point that was reached lies between
  them.
\<close>

lemma klat_points_ordered:
  assumes "clock_monotone xs"
    and "ev \<in> set (map snd (insp_klatency_event (run_probe (klat_step a) xs klat_init)))"
  shows "points_ordered ev"
proof -
  have "klat_ordered 0 klat_init" by (simp add: klat_ordered_def)
  with klat_ordered_run [OF assms(1), of 0] obtain t where
    "klat_ordered t (run_probe (klat_step a) xs klat_init)" by auto
  with assms(2) show ?thesis unfolding klat_ordered_def by blast
qed

lemma klat_points_ordered_witness:
  "points_ordered (rx_report (sample_kernel\<lparr>k_now := 20000007\<rparr>) 64 7)"
proof (rule klat_points_ordered [of rx_run _ Amd64])
  show "clock_monotone rx_run" by (auto simp: clock_monotone_def rx_run_def nth_Cons')
qed (simp add: rx_run_event)

end
