(* ===== verification/Softirq.thy ===== *)
theory Softirq
  imports Inspector Latency
begin

text \<open>
  The soft interrupt latency probe, \<^verbatim>\<open>src/bpf/softirq.c\<close>: the time from raising a soft
  interrupt to its execution and the time of the execution, reported above ten milliseconds for
  the vectors the loader selects. The time stamps are in a per-CPU hash table; \<open>fresh\<close> is what a
  new entry holds for the other CPUs. \<open>bits\<close> is the constant \<^verbatim>\<open>irq_filter_bits\<close>, which
  the loader may rewrite.
\<close>

section \<open>State\<close>

definition PHASE_SCHED :: u32 where "PHASE_SCHED = 1"

definition PHASE_EXCUTE :: u32 where "PHASE_EXCUTE = 2"

definition SOFTIRQ_THRESH :: u64 where "SOFTIRQ_THRESH = 10000000"


lemma phases_distinct [simp]: "PHASE_SCHED \<noteq> PHASE_EXCUTE" "PHASE_EXCUTE \<noteq> PHASE_SCHED"
  by (simp_all add: PHASE_SCHED_def PHASE_EXCUTE_def)

text \<open>The shift of the source is defined for vectors below 32; there are ten.\<close>

definition filter_irqs :: "u32 \<Rightarrow> u32 \<Rightarrow> bool" where
  "filter_irqs bits vec_nr \<longleftrightarrow> bits AND push_bit (unat vec_nr) 1 \<noteq> 0"

record softirq_args =
  sa_pad :: u64
  sa_vec :: u32

record insp_softirq_entry_key =
  vec_nr :: u32
  phase :: u32

record insp_softirq_event_t =
  se_pid :: u32
  se_cpu :: u32
  se_phase :: u32
  se_vec_nr :: u32
  se_latency :: u64

definition insp_softirq_entry_def :: bpf_map_def where
  "insp_softirq_entry_def = \<lparr>map_type = BPF_MAP_TYPE_PERCPU_HASH, key_size = 8, value_size = 8,
     max_entries = 64, map_flags = 0\<rparr>"

record softirq =
  insp_softirq_entry :: "(insp_softirq_entry_key, u64) bpf_percpu"
  insp_softirq_events :: "insp_softirq_event_t perf"

definition softirq_init :: softirq where
  "softirq_init = \<lparr>insp_softirq_entry = hash_empty insp_softirq_entry_def, insp_softirq_events = []\<rparr>"

section \<open>Handlers\<close>

definition report_softirq_events :: "kenv \<Rightarrow> u64 \<Rightarrow> u32 \<Rightarrow> u32 \<Rightarrow> softirq \<Rightarrow> int \<times> softirq" where
  "report_softirq_events k latency ph vec s =
     (let event = \<lparr>se_pid = 0, se_cpu = 0, se_phase = 0, se_vec_nr = 0, se_latency = 0\<rparr>;
          event = event\<lparr>se_pid := ucast (drop_bit 32 (bpf_get_current_pid_tgid k))\<rparr>;
          event = event\<lparr>se_latency := latency\<rparr>;
          event = event\<lparr>se_phase := ph\<rparr>;
          event = event\<lparr>se_vec_nr := vec\<rparr>
      in (0, s\<lparr>insp_softirq_events := snd (bpf_perf_event_output k (insp_softirq_events s)
                                             BPF_F_CURRENT_CPU event)\<rparr>))"

definition trace_softirq_raise ::
    "u32 \<Rightarrow> (u32 \<Rightarrow> u64) \<Rightarrow> kenv \<Rightarrow> softirq_args \<Rightarrow> softirq \<Rightarrow> int \<times> softirq" where
  "trace_softirq_raise bits fresh k ctx s =
     (let vec = sa_vec ctx
      in if filter_irqs bits vec = False then (0, s)
         else
           let ts = bpf_ktime_get_ns k;
               key = \<lparr>vec_nr = vec, phase = PHASE_SCHED\<rparr>
           in (0, s\<lparr>insp_softirq_entry :=
                      snd (percpu_update fresh k (insp_softirq_entry s) key ts BPF_NOEXIST)\<rparr>))"

definition trace_softirq_entry ::
    "u32 \<Rightarrow> (u32 \<Rightarrow> u64) \<Rightarrow> kenv \<Rightarrow> softirq_args \<Rightarrow> softirq \<Rightarrow> int \<times> softirq" where
  "trace_softirq_entry bits fresh k ctx s =
     (let vec = sa_vec ctx
      in if filter_irqs bits vec = False then (0, s)
         else
           let key = \<lparr>vec_nr = vec, phase = PHASE_SCHED\<rparr>;
               ts = bpf_ktime_get_ns k;
               s1 = (case percpu_lookup k (insp_softirq_entry s) key of
                       Some tsp \<Rightarrow>
                         if tsp \<noteq> 0 then
                           (let latency = ts - tsp
                            in if latency > SOFTIRQ_THRESH
                               then snd (report_softirq_events k latency PHASE_SCHED vec s) else s)
                         else s
                     | None \<Rightarrow> s);
               s2 = s1\<lparr>insp_softirq_entry := snd (hash_delete k (insp_softirq_entry s1) key)\<rparr>;
               key2 = \<lparr>vec_nr = vec, phase = PHASE_EXCUTE\<rparr>
           in (0, s2\<lparr>insp_softirq_entry :=
                       snd (percpu_update fresh k (insp_softirq_entry s2) key2 ts BPF_ANY)\<rparr>))"

definition trace_softirq_exit ::
    "u32 \<Rightarrow> (u32 \<Rightarrow> u64) \<Rightarrow> kenv \<Rightarrow> softirq_args \<Rightarrow> softirq \<Rightarrow> int \<times> softirq" where
  "trace_softirq_exit bits fresh k ctx s =
     (let vec = sa_vec ctx
      in if filter_irqs bits vec = False then (0, s)
         else
           let key = \<lparr>vec_nr = vec, phase = PHASE_EXCUTE\<rparr>
           in case percpu_lookup k (insp_softirq_entry s) key of
                None \<Rightarrow> (0, s)
              | Some tsp \<Rightarrow>
                  if tsp = 0 then (0, s)
                  else
                    let ts = bpf_ktime_get_ns k;
                        latency = ts - tsp;
                        s1 = (if latency > SOFTIRQ_THRESH
                              then snd (report_softirq_events k latency PHASE_EXCUTE vec s) else s)
                    in (0, s1\<lparr>insp_softirq_entry := snd (hash_delete k (insp_softirq_entry s1) key)\<rparr>))"

datatype softirq_call = Softirq_raise softirq_args | Softirq_entry softirq_args | Softirq_exit softirq_args

fun softirq_step :: "u32 \<Rightarrow> (u32 \<Rightarrow> u64) \<Rightarrow> kenv \<Rightarrow> softirq_call \<Rightarrow> softirq \<Rightarrow> softirq" where
  "softirq_step bits fresh k (Softirq_raise ctx) s = snd (trace_softirq_raise bits fresh k ctx s)"
| "softirq_step bits fresh k (Softirq_entry ctx) s = snd (trace_softirq_entry bits fresh k ctx s)"
| "softirq_step bits fresh k (Softirq_exit ctx) s = snd (trace_softirq_exit bits fresh k ctx s)"

section \<open>The probe as a latency probe\<close>

text \<open>
  A measurement belongs to a CPU, a vector and a phase. A time stamp of zero stands for none, since
  the handlers ignore it.
\<close>

definition softirq_started :: "softirq \<Rightarrow> u32 \<times> u32 \<times> u32 \<Rightarrow> u64 option" where
  "softirq_started s x =
     (case x of (cpu, vec, ph) \<Rightarrow>
        (case hash_lookup (insp_softirq_entry s) \<lparr>vec_nr = vec, phase = ph\<rparr> of
           Some v \<Rightarrow> if v cpu = 0 then None else Some (v cpu)
         | None \<Rightarrow> None))"

fun softirq_opens :: "u32 \<Rightarrow> kenv \<Rightarrow> softirq_call \<Rightarrow> (u32 \<times> u32 \<times> u32) option" where
  "softirq_opens bits k (Softirq_raise ctx) =
     (if filter_irqs bits (sa_vec ctx) then Some (k_cpu k, sa_vec ctx, PHASE_SCHED) else None)"
| "softirq_opens bits k (Softirq_entry ctx) =
     (if filter_irqs bits (sa_vec ctx) then Some (k_cpu k, sa_vec ctx, PHASE_EXCUTE) else None)"
| "softirq_opens bits k (Softirq_exit ctx) = None"

fun softirq_closes :: "u32 \<Rightarrow> kenv \<Rightarrow> softirq_call \<Rightarrow> (u32 \<times> u32 \<times> u32) option" where
  "softirq_closes bits k (Softirq_raise ctx) = None"
| "softirq_closes bits k (Softirq_entry ctx) =
     (if filter_irqs bits (sa_vec ctx) then Some (k_cpu k, sa_vec ctx, PHASE_SCHED) else None)"
| "softirq_closes bits k (Softirq_exit ctx) =
     (if filter_irqs bits (sa_vec ctx) then Some (k_cpu k, sa_vec ctx, PHASE_EXCUTE) else None)"

fun softirq_report :: "kenv \<Rightarrow> softirq_call \<Rightarrow> u64 \<Rightarrow> insp_softirq_event_t" where
  "softirq_report k (Softirq_raise ctx) t =
     \<lparr>se_pid = k_tgid k, se_cpu = 0, se_phase = 0, se_vec_nr = sa_vec ctx, se_latency = k_now k - t\<rparr>"
| "softirq_report k (Softirq_entry ctx) t =
     \<lparr>se_pid = k_tgid k, se_cpu = 0, se_phase = PHASE_SCHED, se_vec_nr = sa_vec ctx,
      se_latency = k_now k - t\<rparr>"
| "softirq_report k (Softirq_exit ctx) t =
     \<lparr>se_pid = k_tgid k, se_cpu = 0, se_phase = PHASE_EXCUTE, se_vec_nr = sa_vec ctx,
      se_latency = k_now k - t\<rparr>"

lemma report_softirq_events_eq:
  "snd (report_softirq_events k l ph vec s) =
     s\<lparr>insp_softirq_events :=
        (if k_perf k < 0 then insp_softirq_events s
         else insp_softirq_events s @
           [(k_cpu k, \<lparr>se_pid = k_tgid k, se_cpu = 0, se_phase = ph, se_vec_nr = vec, se_latency = l\<rparr>)])\<rparr>"
  by (simp add: report_softirq_events_def perf_output_current_cpu)

lemmas softirq_handlers =
  trace_softirq_raise_def trace_softirq_entry_def trace_softirq_exit_def

lemma softirq_entry_step:
  "hash_lookup (insp_softirq_entry (softirq_step bits fresh k e s)) key \<in>
     {None, hash_lookup (insp_softirq_entry s) key} \<union>
     (case softirq_opens bits k e of
        Some (c, vec, ph) \<Rightarrow>
          if key = \<lparr>vec_nr = vec, phase = ph\<rparr>
          then {Some ((case hash_lookup (insp_softirq_entry s) key of Some v \<Rightarrow> v | None \<Rightarrow> fresh)
                        (k_cpu k := k_now k))}
          else {}
      | None \<Rightarrow> {})"
  by (cases e)
    (auto simp: softirq_handlers report_softirq_events_eq percpu_update_def hash_lookup_update helper_defs
      Let_def split: option.splits if_splits)

interpretation softirq: latency_probe "softirq_step bits (\<lambda>c. 0)" softirq_started
    "\<lambda>s. map snd (insp_softirq_events s)" "softirq_opens bits" "softirq_closes bits"
    "\<lambda>k e. k_now k" "\<lambda>t. t" softirq_report SOFTIRQ_THRESH for bits
proof unfold_locales
  fix k e v and x :: "u32 \<times> u32 \<times> u32" and s :: softirq
  obtain c vec ph where x: "x = (c, vec, ph)" by (cases x)
  define old where "old = hash_lookup (insp_softirq_entry s) \<lparr>vec_nr = vec, phase = ph\<rparr>"
  define new where "new = hash_lookup (insp_softirq_entry (softirq_step bits (\<lambda>c. 0) k e s))
    \<lparr>vec_nr = vec, phase = ph\<rparr>"
  assume "softirq_started (softirq_step bits (\<lambda>c. 0) k e s) x = Some v"
  then have v: "(case new of Some w \<Rightarrow> if w c = 0 then None else Some (w c) | None \<Rightarrow> None) = Some v"
    by (simp add: softirq_started_def x new_def)
  have "new \<in> {None, old} \<union>
     (case softirq_opens bits k e of
        Some (c, vec', ph') \<Rightarrow>
          if \<lparr>vec_nr = vec, phase = ph\<rparr> = \<lparr>vec_nr = vec', phase = ph'\<rparr>
          then {Some ((case old of Some v \<Rightarrow> v | None \<Rightarrow> (\<lambda>c. 0))(k_cpu k := k_now k))} else {}
      | None \<Rightarrow> {})"
    unfolding new_def old_def by (rule softirq_entry_step)
  with v have "(case old of Some w \<Rightarrow> if w c = 0 then None else Some (w c) | None \<Rightarrow> None) = Some v \<or>
      softirq_opens bits k e = Some x \<and> v = k_now k"
    by (cases old; cases e) (auto simp: x split: if_splits)
  then show "softirq_started s x = Some v \<or> softirq_opens bits k e = Some x \<and> v = k_now k"
    by (simp add: softirq_started_def x old_def)
next
  fix k e and s :: softirq
  show "map snd (insp_softirq_events (softirq_step bits (\<lambda>c. 0) k e s)) = map snd (insp_softirq_events s) \<or>
      (\<exists>x v. softirq_closes bits k e = Some x \<and> softirq_started s x = Some v \<and>
         SOFTIRQ_THRESH < k_now k - v \<and>
         map snd (insp_softirq_events (softirq_step bits (\<lambda>c. 0) k e s)) =
           map snd (insp_softirq_events s) @ [softirq_report k e v])"
    by (cases e)
      (auto simp: softirq_handlers report_softirq_events_eq softirq_started_def percpu_lookup_def
        helper_defs Let_def split: option.splits if_splits)
qed

section \<open>Properties\<close>

lemma softirq_init_simps [simp]:
  "softirq_started softirq_init = Map.empty" "insp_softirq_events softirq_init = []"
  by (auto simp: softirq_init_def softirq_started_def fun_eq_iff)





text \<open>
  The member \<^verbatim>\<open>cpu\<close> of an event is never filled in: every event says
  CPU 0, wherever it was measured. Only the ring it was written to tells the CPU.
\<close>

lemma softirq_event_cpu_unset:
  "se_cpu ` snd ` set (insp_softirq_events (run_probe (softirq_step bits fresh) xs softirq_init)) \<subseteq> {0}"
proof (rule run_probe_invariant)
  fix k e and s :: softirq
  assume "se_cpu ` snd ` set (insp_softirq_events s) \<subseteq> {0}"
  then show "se_cpu ` snd ` set (insp_softirq_events (softirq_step bits fresh k e s)) \<subseteq> {0}"
    by (cases e)
      (auto simp: softirq_handlers report_softirq_events_eq Let_def split: option.splits if_splits)
qed simp

text \<open>
  Existence of an entry is shared by the CPUs. While the time stamp of a vector
  raised on one CPU waits, a raise of the same vector on another CPU is not recorded, and the entry
  of the vector on any CPU drops the stamps of all; so of two CPUs that raise a vector at the same time
  at most one is measured.
\<close>

lemma softirq_cpus_interfere:
  assumes "filter_irqs bits vec"
    and "hash_lookup (insp_softirq_entry s) \<lparr>vec_nr = vec, phase = PHASE_SCHED\<rparr> \<noteq> None"
  shows "softirq_step bits fresh k (Softirq_raise \<lparr>sa_pad = p, sa_vec = vec\<rparr>) s = s \<and>
    softirq_started (softirq_step bits fresh k (Softirq_entry \<lparr>sa_pad = p, sa_vec = vec\<rparr>) s)
      (cpu, vec, PHASE_SCHED) = None"
proof
  show "softirq_step bits fresh k (Softirq_raise \<lparr>sa_pad = p, sa_vec = vec\<rparr>) s = s"
    using assms
    by (auto simp: softirq_handlers percpu_update_def hash_update_eq hash_accepts_def Let_def)
  show "softirq_started (softirq_step bits fresh k (Softirq_entry \<lparr>sa_pad = p, sa_vec = vec\<rparr>) s)
      (cpu, vec, PHASE_SCHED) = None"
    using assms(1)
    by (simp add: softirq_handlers softirq_started_def percpu_update_def hash_lookup_update Let_def)
qed

text \<open>The raise on CPU 1 of vector 3, which CPU 0 has raised before, leaves no trace.\<close>

lemma softirq_cpus_interfere_witness:
  "(let s = softirq_init\<lparr>insp_softirq_entry := \<lparr>hash_def = insp_softirq_entry_def,
        hash_ents = [(\<lparr>vec_nr = 3, phase = PHASE_SCHED\<rparr>, (\<lambda>c. 0)(0 := 5))]\<rparr>\<rparr>
    in softirq_step 8 (\<lambda>c. 0) (sample_kernel\<lparr>k_now := 6, k_cpu := 1\<rparr>)
         (Softirq_raise \<lparr>sa_pad = 0, sa_vec = 3\<rparr>) s = s)"
  using softirq_cpus_interfere [of 8 3 "softirq_init\<lparr>insp_softirq_entry := \<lparr>hash_def = insp_softirq_entry_def,
        hash_ents = [(\<lparr>vec_nr = 3, phase = PHASE_SCHED\<rparr>, (\<lambda>c. 0)(0 := 5))]\<rparr>\<rparr>" "\<lambda>c. 0"
      "sample_kernel\<lparr>k_now := 6, k_cpu := 1\<rparr>" 0 0]
  by (simp add: filter_irqs_def hash_lookup_def)

end
