(* ===== verification/Virtcmd.thy ===== *)
theory Virtcmd
  imports Inspector Latency
begin

text \<open>
  The virtio command latency probe, \<^verbatim>\<open>src/bpf/virtcmdlatency.c\<close>: the time a thread spends in
  \<^verbatim>\<open>virtnet_send_command\<close>, reported above ten milliseconds. The time stamps are in a per-CPU
  hash table with the thread as key; \<open>fresh\<close> is what a new entry holds for the other CPUs.
\<close>

section \<open>State and handlers\<close>

definition VIRTCMDLAT_THRESH :: u64 where "VIRTCMDLAT_THRESH = 10000000"

record insp_virtcmdlat_event_t =
  ve_pid :: u32
  ve_cpu :: u32
  ve_latency :: u64

definition insp_virtcmdlat_def :: bpf_map_def where
  "insp_virtcmdlat_def = \<lparr>map_type = BPF_MAP_TYPE_PERCPU_HASH, key_size = 4, value_size = 8,
     max_entries = 1024, map_flags = 0\<rparr>"

record virtcmd =
  insp_virtcmdlat_events :: "insp_virtcmdlat_event_t perf"
  insp_virtcmdlat :: "(u32, u64) bpf_percpu"

definition virtcmd_init :: virtcmd where
  "virtcmd_init = \<lparr>insp_virtcmdlat_events = [], insp_virtcmdlat = hash_empty insp_virtcmdlat_def\<rparr>"

definition report_virtcmdlat_events :: "kenv \<Rightarrow> u64 \<Rightarrow> virtcmd \<Rightarrow> int \<times> virtcmd" where
  "report_virtcmdlat_events k latency s =
     (let event = \<lparr>ve_pid = 0, ve_cpu = 0, ve_latency = 0\<rparr>;
          event = event\<lparr>ve_pid := ucast (drop_bit 32 (bpf_get_current_pid_tgid k))\<rparr>;
          event = event\<lparr>ve_cpu := bpf_get_smp_processor_id k\<rparr>;
          event = event\<lparr>ve_latency := latency\<rparr>
      in (0, s\<lparr>insp_virtcmdlat_events := snd (bpf_perf_event_output k (insp_virtcmdlat_events s)
                                                BPF_F_CURRENT_CPU event)\<rparr>))"

definition trace_virtcmd :: "(u32 \<Rightarrow> u64) \<Rightarrow> kenv \<Rightarrow> virtcmd \<Rightarrow> int \<times> virtcmd" where
  "trace_virtcmd fresh k s =
     (let key = ucast (bpf_get_current_pid_tgid k);
          ts = bpf_ktime_get_ns k
      in (0, s\<lparr>insp_virtcmdlat := snd (percpu_update fresh k (insp_virtcmdlat s) key ts BPF_ANY)\<rparr>))"

definition trace_virtcmdret :: "kenv \<Rightarrow> virtcmd \<Rightarrow> int \<times> virtcmd" where
  "trace_virtcmdret k s =
     (let key = ucast (bpf_get_current_pid_tgid k);
          ts = bpf_ktime_get_ns k
      in case percpu_lookup k (insp_virtcmdlat s) key of
           None \<Rightarrow> (0, s)
         | Some tsp \<Rightarrow>
             (let latency = ts - tsp;
                  s1 = (if latency > VIRTCMDLAT_THRESH then snd (report_virtcmdlat_events k latency s) else s)
              in (0, s1\<lparr>insp_virtcmdlat := snd (hash_delete k (insp_virtcmdlat s1) key)\<rparr>)))"

datatype virtcmd_call = Send_command | Send_command_ret

fun virtcmd_step :: "(u32 \<Rightarrow> u64) \<Rightarrow> kenv \<Rightarrow> virtcmd_call \<Rightarrow> virtcmd \<Rightarrow> virtcmd" where
  "virtcmd_step fresh k Send_command s = snd (trace_virtcmd fresh k s)"
| "virtcmd_step fresh k Send_command_ret s = snd (trace_virtcmdret k s)"

section \<open>Lemmas\<close>

lemma report_virtcmdlat_events_eq:
  "snd (report_virtcmdlat_events k l s) =
     s\<lparr>insp_virtcmdlat_events :=
        (if k_perf k < 0 then insp_virtcmdlat_events s
         else insp_virtcmdlat_events s @
           [(k_cpu k, \<lparr>ve_pid = k_tgid k, ve_cpu = k_cpu k, ve_latency = l\<rparr>)])\<rparr>"
  by (simp add: report_virtcmdlat_events_def perf_output_current_cpu helper_defs)

lemma virtcmdret_eq:
  "snd (trace_virtcmdret k s) =
     (case hash_lookup (insp_virtcmdlat s) (k_pid k) of
        None \<Rightarrow> s
      | Some v \<Rightarrow>
          (if VIRTCMDLAT_THRESH < k_now k - v (k_cpu k)
           then snd (report_virtcmdlat_events k (k_now k - v (k_cpu k)) s) else s)
          \<lparr>insp_virtcmdlat := snd (hash_delete k (insp_virtcmdlat s) (k_pid k))\<rparr>)"
  by (simp add: trace_virtcmdret_def percpu_lookup_def helper_defs report_virtcmdlat_events_eq Let_def
      split: option.splits)

lemma virtcmd_other_thread:
  "k_pid k \<noteq> pid \<Longrightarrow>
     hash_lookup (insp_virtcmdlat (virtcmd_step fresh k e s)) pid = hash_lookup (insp_virtcmdlat s) pid"
  by (cases e)
    (auto simp: trace_virtcmd_def virtcmdret_eq report_virtcmdlat_events_eq percpu_update_def Let_def
      split: option.splits)

lemma virtcmd_other_threads:
  "\<forall>(k, e) \<in> set xs. k_pid k \<noteq> pid \<Longrightarrow>
     hash_lookup (insp_virtcmdlat (run_probe (virtcmd_step fresh) xs s)) pid =
       hash_lookup (insp_virtcmdlat s) pid"
  by (induction xs arbitrary: s) (auto simp: virtcmd_other_thread)

lemma virtcmd_started:
  assumes "hash_accepts k (insp_virtcmdlat s) (k_pid k) BPF_ANY"
  shows "hash_lookup (insp_virtcmdlat (virtcmd_step fresh k Send_command s)) (k_pid k) =
    Some ((case hash_lookup (insp_virtcmdlat s) (k_pid k) of Some old \<Rightarrow> old | None \<Rightarrow> fresh)
      (k_cpu k := k_now k))"
  using assms by (simp add: trace_virtcmd_def percpu_update_def hash_lookup_update helper_defs Let_def)

section \<open>Properties\<close>

text \<open>
  A thread that enters the command and returns from it on the same CPU, whatever
  other threads do in between, gets one event with the time between the two, if and only if that
  time exceeds ten milliseconds and the sample is not lost; afterwards the thread has no entry.
\<close>

lemma virtcmd_measures:
  assumes "k_pid k' = k_pid k" and "k_cpu k' = k_cpu k"
    and "hash_accepts k (insp_virtcmdlat s) (k_pid k) BPF_ANY"
    and "\<forall>(k'', e) \<in> set mid. k_pid k'' \<noteq> k_pid k"
  shows "let s1 = run_probe (virtcmd_step fresh) ((k, Send_command) # mid) s;
             s2 = virtcmd_step fresh k' Send_command_ret s1
    in insp_virtcmdlat_events s2 =
         insp_virtcmdlat_events s1 @
         (if VIRTCMDLAT_THRESH < k_now k' - k_now k \<and> 0 \<le> k_perf k'
          then [(k_cpu k, \<lparr>ve_pid = k_tgid k', ve_cpu = k_cpu k, ve_latency = k_now k' - k_now k\<rparr>)]
          else []) \<and>
       hash_lookup (insp_virtcmdlat s2) (k_pid k) = None"
proof -
  have "hash_lookup (insp_virtcmdlat (run_probe (virtcmd_step fresh) ((k, Send_command) # mid) s))
      (k_pid k) =
    Some ((case hash_lookup (insp_virtcmdlat s) (k_pid k) of Some old \<Rightarrow> old | None \<Rightarrow> fresh)
      (k_cpu k := k_now k))"
    using assms(3,4) virtcmd_started [OF assms(3)] by (simp add: virtcmd_other_threads)
  then show ?thesis
    using assms(1,2)
    by (simp add: Let_def virtcmdret_eq report_virtcmdlat_events_eq)
qed

lemma virtcmd_measures_witness:
  "let s1 = run_probe (virtcmd_step (\<lambda>c. 0)) ((sample_kernel\<lparr>k_now := 1\<rparr>, Send_command) # []) virtcmd_init;
       s2 = virtcmd_step (\<lambda>c. 0) (sample_kernel\<lparr>k_now := 20000001\<rparr>) Send_command_ret s1
   in insp_virtcmdlat_events s2 =
        insp_virtcmdlat_events s1 @ [(0, \<lparr>ve_pid = 0, ve_cpu = 0, ve_latency = 20000000\<rparr>)] \<and>
      hash_lookup (insp_virtcmdlat s2) 0 = None"
  using virtcmd_measures [of "sample_kernel\<lparr>k_now := 20000001\<rparr>" "sample_kernel\<lparr>k_now := 1\<rparr>" virtcmd_init
      "[]" "\<lambda>c. 0"]
  by (simp add: hash_accepts_def virtcmd_init_def hash_empty_def insp_virtcmdlat_def_def hash_lookup_def
      flag_defs VIRTCMDLAT_THRESH_def)

text \<open>
  The handler does not check for a missing time stamp. A thread that enters the
  command on one CPU and returns on another finds its entry there with what the kernel put into the
  slot of the other CPU; when that is zero, as on kernels that clear new entries, the event reports
  the time since boot as the latency.
\<close>

lemma virtcmd_migration:
  assumes "k_pid k' = k_pid k" and "k_cpu k' \<noteq> k_cpu k"
    and "hash_accepts k (insp_virtcmdlat s) (k_pid k) BPF_ANY"
    and "hash_lookup (insp_virtcmdlat s) (k_pid k) = None"
    and "VIRTCMDLAT_THRESH < k_now k'" and "0 \<le> k_perf k'"
  shows "insp_virtcmdlat_events
      (run_probe (virtcmd_step (\<lambda>c. 0)) [(k, Send_command), (k', Send_command_ret)] s) =
    insp_virtcmdlat_events s @
      [(k_cpu k', \<lparr>ve_pid = k_tgid k', ve_cpu = k_cpu k', ve_latency = k_now k'\<rparr>)]"
  using assms virtcmd_started [OF assms(3), of "\<lambda>c. 0"]
  by (simp add: virtcmdret_eq report_virtcmdlat_events_eq trace_virtcmd_def)

text \<open>A command of one millisecond that moves from CPU 0 to CPU 1 ten minutes after boot.\<close>

lemma virtcmd_migration_witness:
  "insp_virtcmdlat_events
      (run_probe (virtcmd_step (\<lambda>c. 0))
        [(sample_kernel\<lparr>k_now := 600000000000\<rparr>, Send_command),
         (sample_kernel\<lparr>k_now := 600001000000, k_cpu := 1\<rparr>, Send_command_ret)] virtcmd_init) =
    [(1, \<lparr>ve_pid = 0, ve_cpu = 1, ve_latency = 600001000000\<rparr>)]"
  using virtcmd_migration [of "sample_kernel\<lparr>k_now := 600001000000, k_cpu := 1\<rparr>"
      "sample_kernel\<lparr>k_now := 600000000000\<rparr>" virtcmd_init]
  by (simp add: hash_accepts_def virtcmd_init_def hash_empty_def insp_virtcmdlat_def_def hash_lookup_def
      flag_defs VIRTCMDLAT_THRESH_def)

end
