(* ===== verification/Kprobe.thy ===== *)
theory Kprobe
  imports Maps
begin

text \<open>
  The counter of \<^verbatim>\<open>execve\<close> calls, \<^verbatim>\<open>src/bpf/kprobe.c\<close>: an array with one counter
  that every call increments.
\<close>

definition kprobe_map_def :: bpf_map_def where
  "kprobe_map_def = \<lparr>map_type = BPF_MAP_TYPE_ARRAY, key_size = 4, value_size = 8, max_entries = 1,
     map_flags = 0\<rparr>"

definition kprobe_init :: "u64 list" where
  "kprobe_init = replicate (max_entries kprobe_map_def) 0"

definition kprobe_execve :: "kenv \<Rightarrow> u64 list \<Rightarrow> int \<times> u64 list" where
  "kprobe_execve k kprobe_map =
     (let key = 0; initval = 1
      in case array_lookup kprobe_map key of
           None \<Rightarrow> (0, snd (array_update k kprobe_map key initval BPF_ANY))
         | Some v \<Rightarrow> (0, kprobe_map[key := v + 1]))"

lemma kprobe_execve_bump: "snd (kprobe_execve k m) = array_bump k 0 m"
  by (simp add: kprobe_execve_def array_bump_def split: option.splits)

lemma kprobe_bumps:
  "fold (\<lambda>k m. snd (kprobe_execve k m)) ks m = array_counter.bumps (map (\<lambda>k. (k, 0)) ks) m"
  by (induction ks arbitrary: m) (simp_all add: kprobe_execve_bump)

lemma kprobe_accepted:
  "m \<noteq> [] \<Longrightarrow> array_counter.all_accepted (map (\<lambda>k. (k, 0)) ks) m"
proof (induction ks arbitrary: m)
  case (Cons k ks)
  then have "array_bump k 0 m \<noteq> []"
    by (auto simp: array_bump_def array_lookup_def)
  moreover have "array_lookup m 0 \<noteq> None" using Cons.prems by (simp add: array_lookup_def)
  ultimately show ?case using Cons.IH by simp
qed simp

text \<open>
  After any number of calls, in whatever kernels, the counter holds their number,
  modulo the width of the counter.
\<close>

lemma kprobe_counts:
  "fold (\<lambda>k m. snd (kprobe_execve k m)) ks kprobe_init = [of_nat (length ks)]"
proof -
  have acc: "array_counter.all_accepted (map (\<lambda>k. (k, 0)) ks) kprobe_init"
    by (rule kprobe_accepted) (simp add: kprobe_init_def kprobe_map_def_def)
  have val: "array_counter.val (fold (\<lambda>k m. snd (kprobe_execve k m)) ks kprobe_init) 0 =
      of_nat (length ks)"
    using array_counter.val_bumps [OF acc, of 0]
    by (simp add: kprobe_bumps comp_def count_list_eq_length_filter array_counter.val_def
        array_lookup_def kprobe_init_def kprobe_map_def_def)
  have len: "length (fold (\<lambda>k m. snd (kprobe_execve k m)) ks m) = length m" for m
    by (induction ks arbitrary: m)
      (auto simp: kprobe_execve_bump array_bump_def array_update_def array_lookup_def)
  then have "length (fold (\<lambda>k m. snd (kprobe_execve k m)) ks kprobe_init) = Suc 0"
    by (simp add: kprobe_init_def kprobe_map_def_def)
  then obtain c where "fold (\<lambda>k m. snd (kprobe_execve k m)) ks kprobe_init = [c]"
    by (auto simp only: length_Suc_conv length_0_conv)
  with val show ?thesis by (simp add: array_counter.val_def array_lookup_def)
qed

end
