(* ===== verification/Socketlatency.thy ===== *)
theory Socketlatency
  imports Inspector Latency
begin

text \<open>
  The socket latency probe, \<^verbatim>\<open>src/bpf/socketlatency.c\<close>: per socket, the time from the arrival
  of data to a read and from a write to the transmission. Waits above one millisecond are counted in a
  table of counters, waits above 100 milliseconds also reported.
\<close>

section \<open>State\<close>

definition LAT_THRESH_NS :: u64 where "LAT_THRESH_NS = 1000 * 1000"

definition LAT_THRESH_NS_10MS :: u64 where "LAT_THRESH_NS_10MS = 10 * 1000 * 1000"

definition LAT_THRESH_NS_100MS :: u64 where "LAT_THRESH_NS_100MS = 100 * 1000 * 1000"

definition ACTION_READ :: u32 where "ACTION_READ = 1"

definition ACTION_WRITE :: u32 where "ACTION_WRITE = 2"

definition ACTION_HANDLE :: u32 where "ACTION_HANDLE = 4"

definition BUCKET300MS :: u32 where "BUCKET300MS = 8"

definition BUCKET100MS :: u32 where "BUCKET100MS = 1"

definition BUCKET10MS :: u32 where "BUCKET10MS = 2"

definition BUCKET1MS :: u32 where "BUCKET1MS = 4"

lemma read_write_distinct [simp]: "ACTION_READ \<noteq> ACTION_WRITE" "ACTION_WRITE \<noteq> ACTION_READ"
  by (simp_all add: ACTION_READ_def ACTION_WRITE_def)

record sklat_key_t =
  createat :: u64
  lastreceive :: u64
  lastread :: u64
  lastwrite :: u64
  lastsend :: u64

definition zero_sklat_key :: sklat_key_t where
  "zero_sklat_key = \<lparr>createat = 0, lastreceive = 0, lastread = 0, lastwrite = 0, lastsend = 0\<rparr>"

record insp_sklat_event_t =
  sv_target :: bytes
  sv_tuple :: tuple
  sv_skb_meta :: skb_meta
  sv_pid :: u32
  sv_cpu :: u32
  sv_direction :: u32
  sv_latency :: u64

definition zero_sklat_event :: insp_sklat_event_t where
  "zero_sklat_event = \<lparr>sv_target = replicate TASK_COMM_LEN 0, sv_tuple = zero_tuple,
     sv_skb_meta = zero_meta, sv_pid = 0, sv_cpu = 0, sv_direction = 0, sv_latency = 0\<rparr>"

record insp_sklat_metric_t =
  sm_netns :: u32
  sm_pid :: u32
  sm_cpu :: u32
  sm_bucket :: u32
  sm_action :: u32

definition zero_sklat_metric :: insp_sklat_metric_t where
  "zero_sklat_metric = \<lparr>sm_netns = 0, sm_pid = 0, sm_cpu = 0, sm_bucket = 0, sm_action = 0\<rparr>"

definition insp_sklat_entry_def :: bpf_map_def where
  "insp_sklat_entry_def = \<lparr>map_type = BPF_MAP_TYPE_HASH, key_size = 8, value_size = 40,
     max_entries = 10000, map_flags = 0\<rparr>"

definition insp_sklat_metric_def :: bpf_map_def where
  "insp_sklat_metric_def = \<lparr>map_type = BPF_MAP_TYPE_HASH, key_size = 20, value_size = 8,
     max_entries = 4096, map_flags = 0\<rparr>"

record sklat =
  insp_sklat_entry :: "(u64, sklat_key_t) bpf_hash"
  insp_sklat_metric :: "(insp_sklat_metric_t, u64) bpf_hash"
  insp_sklat_events :: "insp_sklat_event_t perf"

definition sklat_init :: sklat where
  "sklat_init = \<lparr>insp_sklat_entry = hash_empty insp_sklat_entry_def,
     insp_sklat_metric = hash_empty insp_sklat_metric_def, insp_sklat_events = []\<rparr>"

section \<open>Handlers\<close>

definition report_events :: "kenv \<Rightarrow> u64 \<Rightarrow> u64 \<Rightarrow> u32 \<Rightarrow> sklat \<Rightarrow> sklat" where
  "report_events k sk latency direction s =
     (let event = zero_sklat_event;
          event = event\<lparr>sv_tuple := set_tuple_sock k sk (sv_tuple event)\<rparr>;
          event = event\<lparr>sv_skb_meta := set_meta_sock k sk (sv_skb_meta event)\<rparr>;
          event = event\<lparr>sv_target := snd (bpf_get_current_comm k (sv_target event) TASK_COMM_LEN)\<rparr>;
          event = event\<lparr>sv_pid := ucast (drop_bit 32 (bpf_get_current_pid_tgid k))\<rparr>;
          event = event\<lparr>sv_cpu := bpf_get_smp_processor_id k\<rparr>;
          event = event\<lparr>sv_latency := latency\<rparr>;
          event = event\<lparr>sv_direction := direction\<rparr>
      in s\<lparr>insp_sklat_events := snd (bpf_perf_event_output k (insp_sklat_events s)
                                       BPF_F_CURRENT_CPU event)\<rparr>)"

definition sock_create :: "arch \<Rightarrow> kenv \<Rightarrow> pt_regs \<Rightarrow> sklat \<Rightarrow> int \<times> sklat" where
  "sock_create a k ctx s =
     (let sk = PT_REGS_PARM1 a ctx;
          createat = bpf_ktime_get_ns k;
          ski = zero_sklat_key\<lparr>createat := createat\<rparr>
      in (0, s\<lparr>insp_sklat_entry := snd (hash_update k (insp_sklat_entry s) sk ski BPF_ANY)\<rparr>))"

definition sock_receive :: "arch \<Rightarrow> kenv \<Rightarrow> pt_regs \<Rightarrow> sklat \<Rightarrow> int \<times> sklat" where
  "sock_receive a k ctx s =
     (let sk = PT_REGS_PARM1 a ctx
      in case hash_lookup (insp_sklat_entry s) sk of
           None \<Rightarrow> (0, s)
         | Some _ \<Rightarrow>
             (let now = bpf_ktime_get_ns k
              in (0, s\<lparr>insp_sklat_entry :=
                         hash_modify (\<lambda>ski. ski\<lparr>lastreceive := now\<rparr>) sk (insp_sklat_entry s)\<rparr>)))"

definition sock_read :: "arch \<Rightarrow> kenv \<Rightarrow> pt_regs \<Rightarrow> sklat \<Rightarrow> int \<times> sklat" where
  "sock_read a k ctx s =
     (let sk = PT_REGS_PARM1 a ctx
      in case hash_lookup (insp_sklat_entry s) sk of
           None \<Rightarrow> (0, s)
         | Some ski \<Rightarrow>
             (let now = bpf_ktime_get_ns k;
                  s1 =
                    (if lastreceive ski > 0 then
                       let latency = now - lastreceive ski
                       in if latency > LAT_THRESH_NS then
                            let metric = zero_sklat_metric;
                                metric = metric\<lparr>sm_pid := ucast (drop_bit 32 (bpf_get_current_pid_tgid k))\<rparr>;
                                metric = metric\<lparr>sm_cpu := bpf_get_smp_processor_id k\<rparr>;
                                metric = metric\<lparr>sm_netns := get_sock_netns k sk\<rparr>;
                                metric = metric\<lparr>sm_bucket := BUCKET1MS\<rparr>;
                                metric = metric\<lparr>sm_action := ACTION_READ\<rparr>;
                                (metric, s1) =
                                  (if latency > LAT_THRESH_NS_100MS
                                   then (metric\<lparr>sm_bucket := BUCKET100MS\<rparr>,
                                         report_events k sk latency ACTION_READ s)
                                   else (metric, s))
                            in s1\<lparr>insp_sklat_metric := hash_bump k metric (insp_sklat_metric s1)\<rparr>
                          else s
                     else s)
              in (0, s1\<lparr>insp_sklat_entry :=
                          hash_modify (\<lambda>ski. ski\<lparr>lastread := now\<rparr>) sk (insp_sklat_entry s1)\<rparr>)))"

definition sock_write :: "arch \<Rightarrow> kenv \<Rightarrow> pt_regs \<Rightarrow> sklat \<Rightarrow> int \<times> sklat" where
  "sock_write a k ctx s =
     (let sk = PT_REGS_PARM1 a ctx
      in case hash_lookup (insp_sklat_entry s) sk of
           None \<Rightarrow> (0, s)
         | Some _ \<Rightarrow>
             (let now = bpf_ktime_get_ns k
              in (0, s\<lparr>insp_sklat_entry :=
                         hash_modify (\<lambda>ski. ski\<lparr>lastwrite := now\<rparr>) sk (insp_sklat_entry s)\<rparr>)))"

definition sock_send :: "arch \<Rightarrow> kenv \<Rightarrow> pt_regs \<Rightarrow> sklat \<Rightarrow> int \<times> sklat" where
  "sock_send a k ctx s =
     (let sk = PT_REGS_PARM1 a ctx
      in case hash_lookup (insp_sklat_entry s) sk of
           None \<Rightarrow> (0, s)
         | Some ski \<Rightarrow>
             (let now = bpf_ktime_get_ns k;
                  s1 =
                    (if lastwrite ski > 0 then
                       let latency = now - lastwrite ski
                       in if latency > LAT_THRESH_NS then
                            let metric = zero_sklat_metric;
                                metric = metric\<lparr>sm_pid := ucast (drop_bit 32 (bpf_get_current_pid_tgid k))\<rparr>;
                                metric = metric\<lparr>sm_cpu := bpf_get_smp_processor_id k\<rparr>;
                                metric = metric\<lparr>sm_netns := get_sock_netns k sk\<rparr>;
                                metric = metric\<lparr>sm_bucket := BUCKET1MS\<rparr>;
                                metric = metric\<lparr>sm_action := ACTION_WRITE\<rparr>;
                                (metric, s1) =
                                  (if latency > LAT_THRESH_NS_100MS
                                   then (metric\<lparr>sm_bucket := BUCKET100MS\<rparr>,
                                         report_events k sk latency ACTION_WRITE s)
                                   else (metric, s))
                            in s1\<lparr>insp_sklat_metric := hash_bump k metric (insp_sklat_metric s1)\<rparr>
                          else s
                     else s)
              in (0, s1\<lparr>insp_sklat_entry :=
                          hash_modify (\<lambda>ski. ski\<lparr>lastsend := now\<rparr>) sk (insp_sklat_entry s1)\<rparr>)))"

definition sock_destroy :: "arch \<Rightarrow> kenv \<Rightarrow> pt_regs \<Rightarrow> sklat \<Rightarrow> int \<times> sklat" where
  "sock_destroy a k ctx s =
     (let sk = PT_REGS_PARM1 a ctx
      in (0, s\<lparr>insp_sklat_entry := snd (hash_delete k (insp_sklat_entry s) sk)\<rparr>))"

datatype sklat_call =
    Inet_ehash_nolisten pt_regs | Sock_def_readable pt_regs | Tcp_cleanup_rbuf pt_regs
  | Tcp_sendmsg_locked pt_regs | Tcp_write_xmit pt_regs | Tcp_done pt_regs

fun sklat_step :: "arch \<Rightarrow> kenv \<Rightarrow> sklat_call \<Rightarrow> sklat \<Rightarrow> sklat" where
  "sklat_step a k (Inet_ehash_nolisten ctx) s = snd (sock_create a k ctx s)"
| "sklat_step a k (Sock_def_readable ctx) s = snd (sock_receive a k ctx s)"
| "sklat_step a k (Tcp_cleanup_rbuf ctx) s = snd (sock_read a k ctx s)"
| "sklat_step a k (Tcp_sendmsg_locked ctx) s = snd (sock_write a k ctx s)"
| "sklat_step a k (Tcp_write_xmit ctx) s = snd (sock_send a k ctx s)"
| "sklat_step a k (Tcp_done ctx) s = snd (sock_destroy a k ctx s)"

section \<open>What a step does to each part of the state\<close>

fun call_sock :: "arch \<Rightarrow> sklat_call \<Rightarrow> u64" where
  "call_sock a (Inet_ehash_nolisten ctx) = PT_REGS_PARM1 a ctx"
| "call_sock a (Sock_def_readable ctx) = PT_REGS_PARM1 a ctx"
| "call_sock a (Tcp_cleanup_rbuf ctx) = PT_REGS_PARM1 a ctx"
| "call_sock a (Tcp_sendmsg_locked ctx) = PT_REGS_PARM1 a ctx"
| "call_sock a (Tcp_write_xmit ctx) = PT_REGS_PARM1 a ctx"
| "call_sock a (Tcp_done ctx) = PT_REGS_PARM1 a ctx"

definition sklat_event :: "u32 \<Rightarrow> kenv \<Rightarrow> u64 \<Rightarrow> u64 \<Rightarrow> insp_sklat_event_t" where
  "sklat_event direction k sk t = \<lparr>sv_target = overlay (k_comm k 20) (replicate 20 0),
     sv_tuple = set_tuple_sock k sk zero_tuple, sv_skb_meta = set_meta_sock k sk zero_meta,
     sv_pid = k_tgid k, sv_cpu = k_cpu k, sv_direction = direction, sv_latency = k_now k - t\<rparr>"

definition metric_key :: "u32 \<Rightarrow> kenv \<Rightarrow> u64 \<Rightarrow> u64 \<Rightarrow> insp_sklat_metric_t" where
  "metric_key action k sk t = \<lparr>sm_netns = get_sock_netns k sk, sm_pid = k_tgid k, sm_cpu = k_cpu k,
     sm_bucket = (if LAT_THRESH_NS_100MS < k_now k - t then BUCKET100MS else BUCKET1MS),
     sm_action = action\<rparr>"

text \<open>
  The time a socket has been waiting since, and the start of the wait a call ends with its action: the
  last arrival for a read, the last write for a transmission, if there was one.
\<close>

definition waiting :: "(sklat_key_t \<Rightarrow> u64) \<Rightarrow> sklat \<Rightarrow> u64 \<Rightarrow> u64 option" where
  "waiting since s sk =
     (case hash_lookup (insp_sklat_entry s) sk of
        Some ski \<Rightarrow> if since ski = 0 then None else Some (since ski)
      | None \<Rightarrow> None)"

fun wait_of :: "arch \<Rightarrow> sklat_call \<Rightarrow> sklat \<Rightarrow> (u32 \<times> u64) option" where
  "wait_of a (Tcp_cleanup_rbuf ctx) s =
     map_option (Pair ACTION_READ) (waiting lastreceive s (PT_REGS_PARM1 a ctx))"
| "wait_of a (Tcp_write_xmit ctx) s =
     map_option (Pair ACTION_WRITE) (waiting lastwrite s (PT_REGS_PARM1 a ctx))"
| "wait_of a _ s = None"

lemma report_events_eq:
  "report_events k sk (k_now k - t) direction s =
     s\<lparr>insp_sklat_events := (if k_perf k < 0 then insp_sklat_events s
                             else insp_sklat_events s @ [(k_cpu k, sklat_event direction k sk t)])\<rparr>"
  by (simp add: report_events_def sklat_event_def zero_sklat_event_def perf_output_current_cpu
      bpf_get_current_comm_def helper_defs TASK_COMM_LEN_def)

lemmas sklat_handlers =
  sock_create_def sock_receive_def sock_read_def sock_write_def sock_send_def sock_destroy_def

lemma thresholds_ordered: "LAT_THRESH_NS_100MS < x \<Longrightarrow> LAT_THRESH_NS < x"
  by (simp add: LAT_THRESH_NS_100MS_def LAT_THRESH_NS_def word_less_nat_alt)

lemma sklat_metric_step:
  "insp_sklat_metric (sklat_step a k e s) =
     (case wait_of a e s of
        Some (act, t) \<Rightarrow>
          if LAT_THRESH_NS < k_now k - t
          then hash_bump k (metric_key act k (call_sock a e) t) (insp_sklat_metric s)
          else insp_sklat_metric s
      | None \<Rightarrow> insp_sklat_metric s)"
  by (cases e)
    (auto simp: sklat_handlers report_events_eq metric_key_def zero_sklat_metric_def helper_defs Let_def
      word_gt_0 waiting_def split: option.splits)

lemma sklat_events_step:
  "insp_sklat_events (sklat_step a k e s) =
     insp_sklat_events s @
     (case wait_of a e s of
        Some (act, t) \<Rightarrow>
          if LAT_THRESH_NS_100MS < k_now k - t \<and> 0 \<le> k_perf k
          then [(k_cpu k, sklat_event act k (call_sock a e) t)] else []
      | None \<Rightarrow> [])"
  by (cases e)
    (auto simp: sklat_handlers report_events_eq helper_defs Let_def word_gt_0 waiting_def
      split: option.splits dest: thresholds_ordered)

lemma sklat_entry_step:
  "insp_sklat_entry (sklat_step a k e s) =
     (case e of
        Inet_ehash_nolisten ctx \<Rightarrow> snd (hash_update k (insp_sklat_entry s) (PT_REGS_PARM1 a ctx)
          (zero_sklat_key\<lparr>createat := k_now k\<rparr>) BPF_ANY)
      | Sock_def_readable ctx \<Rightarrow> hash_modify (\<lambda>ski. ski\<lparr>lastreceive := k_now k\<rparr>) (PT_REGS_PARM1 a ctx)
          (insp_sklat_entry s)
      | Tcp_cleanup_rbuf ctx \<Rightarrow> hash_modify (\<lambda>ski. ski\<lparr>lastread := k_now k\<rparr>) (PT_REGS_PARM1 a ctx)
          (insp_sklat_entry s)
      | Tcp_sendmsg_locked ctx \<Rightarrow> hash_modify (\<lambda>ski. ski\<lparr>lastwrite := k_now k\<rparr>) (PT_REGS_PARM1 a ctx)
          (insp_sklat_entry s)
      | Tcp_write_xmit ctx \<Rightarrow> hash_modify (\<lambda>ski. ski\<lparr>lastsend := k_now k\<rparr>) (PT_REGS_PARM1 a ctx)
          (insp_sklat_entry s)
      | Tcp_done ctx \<Rightarrow> snd (hash_delete k (insp_sklat_entry s) (PT_REGS_PARM1 a ctx)))"
  by (cases e)
    (auto simp: sklat_handlers report_events_eq helper_defs hash_modify_def Let_def split: option.splits)

declare sklat_step.simps [simp del]

section \<open>The two directions as latency probes\<close>

definition direction_events :: "u32 \<Rightarrow> sklat \<Rightarrow> insp_sklat_event_t list" where
  "direction_events direction s = filter (\<lambda>e. sv_direction e = direction) (map snd (insp_sklat_events s))"

text \<open>
  An arrival at clock zero is stored as zero, which the handlers take for no arrival; it ends a
  recorded wait like the creation and the end of a socket.
\<close>

fun receive_key :: "arch \<Rightarrow> kenv \<Rightarrow> sklat_call \<Rightarrow> u64 option" where
  "receive_key a k (Sock_def_readable ctx) = (if k_now k = 0 then None else Some (PT_REGS_PARM1 a ctx))"
| "receive_key a k _ = None"

fun read_key :: "arch \<Rightarrow> kenv \<Rightarrow> sklat_call \<Rightarrow> u64 option" where
  "read_key a k (Tcp_cleanup_rbuf ctx) = Some (PT_REGS_PARM1 a ctx)"
| "read_key a k _ = None"

fun receive_forgotten :: "arch \<Rightarrow> kenv \<Rightarrow> sklat_call \<Rightarrow> u64 option" where
  "receive_forgotten a k (Inet_ehash_nolisten ctx) = Some (PT_REGS_PARM1 a ctx)"
| "receive_forgotten a k (Tcp_done ctx) = Some (PT_REGS_PARM1 a ctx)"
| "receive_forgotten a k (Sock_def_readable ctx) =
     (if k_now k = 0 then Some (PT_REGS_PARM1 a ctx) else None)"
| "receive_forgotten a k _ = None"

fun write_key :: "arch \<Rightarrow> kenv \<Rightarrow> sklat_call \<Rightarrow> u64 option" where
  "write_key a k (Tcp_sendmsg_locked ctx) = (if k_now k = 0 then None else Some (PT_REGS_PARM1 a ctx))"
| "write_key a k _ = None"

fun send_key :: "arch \<Rightarrow> kenv \<Rightarrow> sklat_call \<Rightarrow> u64 option" where
  "send_key a k (Tcp_write_xmit ctx) = Some (PT_REGS_PARM1 a ctx)"
| "send_key a k _ = None"

fun write_forgotten :: "arch \<Rightarrow> kenv \<Rightarrow> sklat_call \<Rightarrow> u64 option" where
  "write_forgotten a k (Inet_ehash_nolisten ctx) = Some (PT_REGS_PARM1 a ctx)"
| "write_forgotten a k (Tcp_done ctx) = Some (PT_REGS_PARM1 a ctx)"
| "write_forgotten a k (Tcp_sendmsg_locked ctx) =
     (if k_now k = 0 then Some (PT_REGS_PARM1 a ctx) else None)"
| "write_forgotten a k _ = None"

lemma direction_events_step:
  "direction_events dir (sklat_step a k e s) =
     direction_events dir s @
     (case wait_of a e s of
        Some (act, t) \<Rightarrow>
          if LAT_THRESH_NS_100MS < k_now k - t \<and> 0 \<le> k_perf k \<and> act = dir
          then [sklat_event dir k (call_sock a e) t] else []
      | None \<Rightarrow> [])"
  by (auto simp: direction_events_def sklat_events_step sklat_event_def split: option.splits)

lemma waiting_receive_step:
  "waiting lastreceive (sklat_step a k e s) x =
     (if receive_forgotten a k e = Some x then None
      else if receive_key a k e = Some x \<and> hash_lookup (insp_sklat_entry s) x \<noteq> None then Some (k_now k)
      else waiting lastreceive s x)"
  by (cases e)
    (auto simp: waiting_def sklat_entry_step hash_lookup_update hash_accepts_def zero_sklat_key_def flag_defs
      split: option.splits if_splits)

lemma waiting_write_step:
  "waiting lastwrite (sklat_step a k e s) x =
     (if write_forgotten a k e = Some x then None
      else if write_key a k e = Some x \<and> hash_lookup (insp_sklat_entry s) x \<noteq> None then Some (k_now k)
      else waiting lastwrite s x)"
  by (cases e)
    (auto simp: waiting_def sklat_entry_step hash_lookup_update hash_accepts_def zero_sklat_key_def flag_defs
      split: option.splits if_splits)

lemma waiting_entry: "waiting since s x = Some t \<Longrightarrow> hash_lookup (insp_sklat_entry s) x \<noteq> None"
  by (auto simp: waiting_def split: option.splits)

lemma forgotten_disjoint:
  "receive_forgotten a k e = Some x \<Longrightarrow> receive_key a k e \<noteq> Some y"
  "write_forgotten a k e = Some x \<Longrightarrow> write_key a k e \<noteq> Some y"
  by (cases e; simp split: if_splits)+

interpretation sock_rx: prompt_probe "sklat_step a" "waiting lastreceive" "direction_events ACTION_READ"
    "receive_key a" "read_key a" "\<lambda>k e. k_now k" "\<lambda>t. t" "\<lambda>k e. sklat_event ACTION_READ k (call_sock a e)"
    LAT_THRESH_NS_100MS "receive_forgotten a" for a
proof unfold_locales
  fix k e and s :: sklat
  show "direction_events ACTION_READ (sklat_step a k e s) = direction_events ACTION_READ s \<or>
      (\<exists>x v. read_key a k e = Some x \<and> waiting lastreceive s x = Some v \<and>
         LAT_THRESH_NS_100MS < k_now k - v \<and>
         direction_events ACTION_READ (sklat_step a k e s) =
           direction_events ACTION_READ s @ [sklat_event ACTION_READ k (call_sock a e) v])"
    by (cases e) (auto simp: direction_events_step split: option.splits if_splits)
qed (auto simp: waiting_receive_step direction_events_step waiting_entry forgotten_disjoint
    elim!: read_key.elims split: if_splits)

interpretation sock_tx: prompt_probe "sklat_step a" "waiting lastwrite" "direction_events ACTION_WRITE"
    "write_key a" "send_key a" "\<lambda>k e. k_now k" "\<lambda>t. t" "\<lambda>k e. sklat_event ACTION_WRITE k (call_sock a e)"
    LAT_THRESH_NS_100MS "write_forgotten a" for a
proof unfold_locales
  fix k e and s :: sklat
  show "direction_events ACTION_WRITE (sklat_step a k e s) = direction_events ACTION_WRITE s \<or>
      (\<exists>x v. send_key a k e = Some x \<and> waiting lastwrite s x = Some v \<and>
         LAT_THRESH_NS_100MS < k_now k - v \<and>
         direction_events ACTION_WRITE (sklat_step a k e s) =
           direction_events ACTION_WRITE s @ [sklat_event ACTION_WRITE k (call_sock a e) v])"
    by (cases e) (auto simp: direction_events_step split: option.splits if_splits)
qed (auto simp: waiting_write_step direction_events_step waiting_entry forgotten_disjoint
    elim!: send_key.elims split: if_splits)

section \<open>Properties\<close>

lemma sklat_init_simps [simp]:
  "waiting since sklat_init = Map.empty" "direction_events dir sklat_init = []"
  "insp_sklat_events sklat_init = []"
  by (auto simp: sklat_init_def waiting_def direction_events_def)

lemma sklat_event_directions:
  "sv_direction ` snd ` set (insp_sklat_events (run_probe (sklat_step a) xs sklat_init)) \<subseteq>
     {ACTION_READ, ACTION_WRITE}"
proof (rule run_probe_invariant)
  fix k e and s :: sklat
  assume "sv_direction ` snd ` set (insp_sklat_events s) \<subseteq> {ACTION_READ, ACTION_WRITE}"
  then show "sv_direction ` snd ` set (insp_sklat_events (sklat_step a k e s)) \<subseteq> {ACTION_READ, ACTION_WRITE}"
    by (cases e) (auto simp: sklat_events_step sklat_event_def split: option.splits)
qed simp

lemma closing_sock:
  "read_key a k e = Some x \<Longrightarrow> call_sock a e = x" "send_key a k e = Some x \<Longrightarrow> call_sock a e = x"
  by (auto elim!: read_key.elims send_key.elims)

text \<open>
  C20: every event of the socket probe measures a wait of more than 100 milliseconds of
  one socket: a read event the time from the latest arrival of data to the read, a write event the time
  from the latest write to the transmission; in between the socket was neither created nor closed. The
  tuple, the metadata and the task are those at the end of the wait.
\<close>

theorem sklat_reports_sound:
  assumes "ev \<in> set (map snd (insp_sklat_events (run_probe (sklat_step a) xs sklat_init)))"
  shows "\<exists>i j sk. LAT_THRESH_NS_100MS < k_now (fst (xs ! j)) - k_now (fst (xs ! i)) \<and>
    (interval (receive_key a) (read_key a) xs i j sk \<and>
       undisturbed (receive_key a) (receive_forgotten a) xs i j sk \<and>
       ev = sklat_event ACTION_READ (fst (xs ! j)) sk (k_now (fst (xs ! i))) \<or>
     interval (write_key a) (send_key a) xs i j sk \<and>
       undisturbed (write_key a) (write_forgotten a) xs i j sk \<and>
       ev = sklat_event ACTION_WRITE (fst (xs ! j)) sk (k_now (fst (xs ! i))))"
proof -
  from assms sklat_event_directions [of a xs] have "sv_direction ev = ACTION_READ \<or> sv_direction ev = ACTION_WRITE"
    by auto
  then consider "ev \<in> set (direction_events ACTION_READ (run_probe (sklat_step a) xs sklat_init))"
    | "ev \<in> set (direction_events ACTION_WRITE (run_probe (sklat_step a) xs sklat_init))"
    using assms by (auto simp: direction_events_def)
  then show ?thesis
  proof cases
    case 1
    from sock_rx.reported_run_latest [OF _ _ this] obtain i j sk where
      "interval (receive_key a) (read_key a) xs i j sk"
      "undisturbed (receive_key a) (receive_forgotten a) xs i j sk" "sock_rx.measured a xs i j ev" by auto
    moreover from this(1) have "call_sock a (snd (xs ! j)) = sk"
      by (auto simp: interval_def intro: closing_sock)
    ultimately show ?thesis by (auto simp: sock_rx.measured_def Let_def)
  next
    case 2
    from sock_tx.reported_run_latest [OF _ _ this] obtain i j sk where
      "interval (write_key a) (send_key a) xs i j sk"
      "undisturbed (write_key a) (write_forgotten a) xs i j sk" "sock_tx.measured a xs i j ev" by auto
    moreover from this(1) have "call_sock a (snd (xs ! j)) = sk"
      by (auto simp: interval_def intro: closing_sock)
    ultimately show ?thesis by (auto simp: sock_tx.measured_def Let_def)
  qed
qed

text \<open>A socket at 64 whose data arrives one microsecond after boot and is read 200 milliseconds later.\<close>

definition sock_regs :: pt_regs where "sock_regs r = 64"

lemma sock_regs_params [simp]: "PT_REGS_PARM1 a sock_regs = 64"
  by (simp add: PT_REGS_PARM1_def sock_regs_def)

definition sock_run :: "(kenv \<times> sklat_call) list" where
  "sock_run = [(sample_kernel\<lparr>k_now := 1\<rparr>, Inet_ehash_nolisten sock_regs),
               (sample_kernel\<lparr>k_now := 1000\<rparr>, Sock_def_readable sock_regs),
               (sample_kernel\<lparr>k_now := 200001000\<rparr>, Tcp_cleanup_rbuf sock_regs)]"

lemma sock_run_event:
  "insp_sklat_events (run_probe (sklat_step Amd64) sock_run sklat_init) =
     [(0, sklat_event ACTION_READ (sample_kernel\<lparr>k_now := 200001000\<rparr>) 64 1000)]"
  by (simp add: sock_run_def sklat_events_step waiting_receive_step sklat_entry_step hash_lookup_update
      hash_accepts_def sklat_init_def hash_empty_def insp_sklat_entry_def_def hash_lookup_def flag_defs
      LAT_THRESH_NS_100MS_def)

theorem sklat_reports_sound_witness:
  "\<exists>i j sk. LAT_THRESH_NS_100MS < k_now (fst (sock_run ! j)) - k_now (fst (sock_run ! i)) \<and>
    (interval (receive_key Amd64) (read_key Amd64) sock_run i j sk \<and>
       undisturbed (receive_key Amd64) (receive_forgotten Amd64) sock_run i j sk \<and>
       sklat_event ACTION_READ (sample_kernel\<lparr>k_now := 200001000\<rparr>) 64 1000 =
         sklat_event ACTION_READ (fst (sock_run ! j)) sk (k_now (fst (sock_run ! i))) \<or>
     interval (write_key Amd64) (send_key Amd64) sock_run i j sk \<and>
       undisturbed (write_key Amd64) (write_forgotten Amd64) sock_run i j sk \<and>
       sklat_event ACTION_READ (sample_kernel\<lparr>k_now := 200001000\<rparr>) 64 1000 =
         sklat_event ACTION_WRITE (fst (sock_run ! j)) sk (k_now (fst (sock_run ! i))))"
  by (rule sklat_reports_sound) (simp add: sock_run_event)

text \<open>
  No slow read is missed: when data arrives for a socket the probe knows, no more
  data arrives and the socket is neither created nor closed in between, and it is read more than 100
  milliseconds later, then the read is reported if the sample is not lost.
\<close>

lemma sklat_slow_reported:
  assumes "hash_lookup (insp_sklat_entry (run_probe (sklat_step a) pre sklat_init)) sk \<noteq> None"
    and "receive_key a k e = Some sk" and "read_key a k' e' = Some sk"
    and "\<forall>(k, e) \<in> set mid. receive_key a k e \<noteq> Some sk \<and> receive_forgotten a k e \<noteq> Some sk"
    and "k_now k \<le> k_now k'" and "LAT_THRESH_NS_100MS < k_now k' - k_now k" and "0 \<le> k_perf k'"
  shows "sklat_event ACTION_READ k' sk (k_now k) \<in>
    set (map snd (insp_sklat_events (run_probe (sklat_step a)
      ((pre @ [(k, e)]) @ mid @ (k', e') # post) sklat_init)))"
proof -
  have "waiting lastreceive (run_probe (sklat_step a) (pre @ [(k, e)]) sklat_init) sk = Some (k_now k)"
    using assms(1,2) forgotten_disjoint(1) [of a k e sk sk] by (auto simp: waiting_receive_step)
  from sock_rx.slow_interval_reported [OF this assms(4,3), of post]
  show ?thesis using assms(3,5-7) by (simp add: direction_events_def closing_sock)
qed

lemma sklat_slow_reported_witness:
  "sklat_event ACTION_READ (sample_kernel\<lparr>k_now := 200001000\<rparr>) 64 (k_now (sample_kernel\<lparr>k_now := 1000\<rparr>)) \<in>
   set (map snd (insp_sklat_events (run_probe (sklat_step Amd64)
     (([(sample_kernel\<lparr>k_now := 1\<rparr>, Inet_ehash_nolisten sock_regs)] @
        [(sample_kernel\<lparr>k_now := 1000\<rparr>, Sock_def_readable sock_regs)]) @
      [(sample_kernel\<lparr>k_now := 2000\<rparr>, Tcp_sendmsg_locked sock_regs)] @
      (sample_kernel\<lparr>k_now := 200001000\<rparr>, Tcp_cleanup_rbuf sock_regs) # []) sklat_init)))"
  by (rule sklat_slow_reported)
    (simp_all add: sklat_entry_step hash_lookup_update hash_accepts_def sklat_init_def hash_empty_def
      insp_sklat_entry_def_def hash_lookup_def flag_defs LAT_THRESH_NS_100MS_def)

text \<open>
  What the calls alone say about a socket, the latest call first: whether it is open, and the time of its last
  arrival or write since it was created. A time of zero counts as none.
\<close>

fun sock_open :: "arch \<Rightarrow> u64 \<Rightarrow> (kenv \<times> sklat_call) list \<Rightarrow> bool" where
  "sock_open a sk [] = False"
| "sock_open a sk ((k, e) # past) =
     (if call_sock a e \<noteq> sk then sock_open a sk past
      else case e of
        Inet_ehash_nolisten _ \<Rightarrow> True
      | Tcp_done _ \<Rightarrow> False
      | _ \<Rightarrow> sock_open a sk past)"

fun last_stamp :: "(sklat_call \<Rightarrow> bool) \<Rightarrow> arch \<Rightarrow> u64 \<Rightarrow> (kenv \<times> sklat_call) list \<Rightarrow> u64 option" where
  "last_stamp sel a sk [] = None"
| "last_stamp sel a sk ((k, e) # past) =
     (if call_sock a e \<noteq> sk then last_stamp sel a sk past
      else case e of
        Inet_ehash_nolisten _ \<Rightarrow> None
      | Tcp_done _ \<Rightarrow> None
      | _ \<Rightarrow> if sel e then (if sock_open a sk past \<and> k_now k \<noteq> 0 then Some (k_now k) else None)
             else last_stamp sel a sk past)"

definition is_arrival :: "sklat_call \<Rightarrow> bool" where
  "is_arrival e = (case e of Sock_def_readable _ \<Rightarrow> True | _ \<Rightarrow> False)"

definition is_write :: "sklat_call \<Rightarrow> bool" where
  "is_write e = (case e of Tcp_sendmsg_locked _ \<Rightarrow> True | _ \<Rightarrow> False)"

text \<open>
  A read ends the wait since the last arrival, a transmission the wait since the last write. The slow calls of
  a run are those that end a wait above one millisecond, with the counter each belongs under.
\<close>

definition ended_wait :: "arch \<Rightarrow> (kenv \<times> sklat_call) list \<Rightarrow> sklat_call \<Rightarrow> (u32 \<times> u64) option" where
  "ended_wait a past e =
     (case e of
        Tcp_cleanup_rbuf _ \<Rightarrow> map_option (Pair ACTION_READ) (last_stamp is_arrival a (call_sock a e) past)
      | Tcp_write_xmit _ \<Rightarrow> map_option (Pair ACTION_WRITE) (last_stamp is_write a (call_sock a e) past)
      | _ \<Rightarrow> None)"

primrec slow_calls ::
    "arch \<Rightarrow> (kenv \<times> sklat_call) list \<Rightarrow> (kenv \<times> sklat_call) list \<Rightarrow> (kenv \<times> insp_sklat_metric_t) list" where
  "slow_calls a [] past = []"
| "slow_calls a (x # xs) past =
     (case ended_wait a past (snd x) of
        Some (act, t) \<Rightarrow>
          if LAT_THRESH_NS < k_now (fst x) - t
          then [(fst x, metric_key act (fst x) (call_sock a (snd x)) t)] else []
      | None \<Rightarrow> []) @ slow_calls a xs (x # past)"

text \<open>The table of sockets agrees with the calls, as long as every open socket has room in it.\<close>

definition entries_agree :: "arch \<Rightarrow> (kenv \<times> sklat_call) list \<Rightarrow> sklat \<Rightarrow> bool" where
  "entries_agree a past s \<longleftrightarrow>
     (\<forall>sk. hash_lookup (insp_sklat_entry s) sk \<noteq> None \<longleftrightarrow> sock_open a sk past) \<and>
     (\<forall>sk. waiting lastreceive s sk = last_stamp is_arrival a sk past) \<and>
     (\<forall>sk. waiting lastwrite s sk = last_stamp is_write a sk past) \<and>
     distinct (map fst (hash_ents (insp_sklat_entry s))) \<and> hash_def (insp_sklat_entry s) = insp_sklat_entry_def"

lemma sock_open_called: "sock_open a sk past \<Longrightarrow> sk \<in> (\<lambda>x. call_sock a (snd x)) ` set past"
  by (induction a sk past rule: sock_open.induct) (auto split: if_splits)

lemma closed_no_stamp: "\<not> sock_open a sk past \<Longrightarrow> last_stamp sel a sk past = None"
  by (induction sel a sk past rule: last_stamp.induct) (auto split: if_splits sklat_call.splits)

lemma finite_open: "finite {sk. sock_open a sk past}"
  by (rule finite_subset [of _ "(\<lambda>x. call_sock a (snd x)) ` set past"]) (auto dest: sock_open_called)

lemma create_accepted:
  assumes "entries_agree a past s" and "room_accepted k"
    and "card {x. sock_open a x ((k, Inet_ehash_nolisten ctx) # past)} \<le> 10000"
  shows "hash_accepts k (insp_sklat_entry s) (PT_REGS_PARM1 a ctx) BPF_ANY"
proof (cases "hash_lookup (insp_sklat_entry s) (PT_REGS_PARM1 a ctx)")
  case None
  let ?sk = "PT_REGS_PARM1 a ctx"
  have dom: "dom (hash_lookup (insp_sklat_entry s)) = {x. sock_open a x past}"
    using assms(1) by (auto simp: entries_agree_def)
  have "{x. sock_open a x ((k, Inet_ehash_nolisten ctx) # past)} = insert ?sk {x. sock_open a x past}" by auto
  moreover have "\<not> sock_open a ?sk past" using None dom by blast
  ultimately have "card {x. sock_open a x past} < 10000" using assms(3) finite_open by simp
  then have "length (hash_ents (insp_sklat_entry s)) < max_entries (hash_def (insp_sklat_entry s))"
    using assms(1) dom by (simp add: entries_agree_def hash_ents_card insp_sklat_entry_def_def)
  then show ?thesis by (rule hash_accepts_room [OF assms(2)])
qed (simp add: hash_accepts_def flag_defs)

lemma distinct_entry_step:
  "distinct (map fst (hash_ents (insp_sklat_entry s))) \<Longrightarrow>
     distinct (map fst (hash_ents (insp_sklat_entry (sklat_step a k e s))))"
  by (cases e) (auto simp: sklat_entry_step hash_update_eq hash_modify_def hash_delete_def split: option.splits)

lemma hash_def_entry_step: "hash_def (insp_sklat_entry (sklat_step a k e s)) = hash_def (insp_sklat_entry s)"
  by (cases e) (simp_all add: sklat_entry_step)

lemma entries_agree_step:
  assumes "entries_agree a past s" and "room_accepted k" and "card {x. sock_open a x ((k, e) # past)} \<le> 10000"
  shows "entries_agree a ((k, e) # past) (sklat_step a k e s)"
proof -
  have acc: "e = Inet_ehash_nolisten ctx \<Longrightarrow> hash_accepts k (insp_sklat_entry s) (PT_REGS_PARM1 a ctx) BPF_ANY" for ctx
    using create_accepted [OF assms(1,2)] assms(3) by blast
  have "hash_lookup (insp_sklat_entry (sklat_step a k e s)) sk \<noteq> None \<longleftrightarrow> sock_open a sk ((k, e) # past)" for sk
    using assms(1) acc by (cases e) (auto simp: entries_agree_def sklat_entry_step hash_lookup_update)
  moreover have "waiting lastreceive (sklat_step a k e s) sk = last_stamp is_arrival a sk ((k, e) # past)" for sk
    using assms(1) by (cases e) (auto simp: entries_agree_def waiting_receive_step is_arrival_def closed_no_stamp)
  moreover have "waiting lastwrite (sklat_step a k e s) sk = last_stamp is_write a sk ((k, e) # past)" for sk
    using assms(1) by (cases e) (auto simp: entries_agree_def waiting_write_step is_write_def closed_no_stamp)
  moreover have "distinct (map fst (hash_ents (insp_sklat_entry (sklat_step a k e s))))"
    and "hash_def (insp_sklat_entry (sklat_step a k e s)) = insp_sklat_entry_def"
    using assms(1) distinct_entry_step [of s a k e] hash_def_entry_step [of a k e s]
    by (simp_all add: entries_agree_def)
  ultimately show ?thesis unfolding entries_agree_def by blast
qed

lemma wait_of_ended: "entries_agree a past s \<Longrightarrow> wait_of a e s = ended_wait a past e"
  by (cases e) (simp_all add: entries_agree_def ended_wait_def)

lemma sklat_metric_bumps:
  assumes "entries_agree a past s" and "\<forall>(k, e) \<in> set xs. room_accepted k"
    and "\<forall>n \<le> length xs. card {x. sock_open a x (rev (take n xs) @ past)} \<le> 10000"
  shows "insp_sklat_metric (run_probe (sklat_step a) xs s) =
     hash_counter.bumps (slow_calls a xs past) (insp_sklat_metric s)"
  using assms
proof (induction xs arbitrary: s past)
  case (Cons x xs)
  obtain k e where x: "x = (k, e)" by (cases x)
  have "card {y. sock_open a y ((k, e) # past)} \<le> 10000" using Cons.prems(3) [rule_format, of 1] by (simp add: x)
  then have agree: "entries_agree a (x # past) (sklat_step a k e s)"
    using entries_agree_step [OF Cons.prems(1), of k e] Cons.prems(2) by (simp add: x)
  have bound: "\<forall>n \<le> length xs. card {y. sock_open a y (rev (take n xs) @ x # past)} \<le> 10000"
  proof (intro allI impI)
    fix n assume "n \<le> length xs"
    then show "card {y. sock_open a y (rev (take n xs) @ x # past)} \<le> 10000"
      using Cons.prems(3) [rule_format, of "Suc n"] by simp
  qed
  have "insp_sklat_metric (run_probe (sklat_step a) xs (sklat_step a k e s)) =
      hash_counter.bumps (slow_calls a xs (x # past)) (insp_sklat_metric (sklat_step a k e s))"
    using Cons.IH [OF agree _ bound] Cons.prems(2) by simp
  then show ?case
    using wait_of_ended [OF Cons.prems(1), of e] by (auto simp: x sklat_metric_step split: option.splits)
qed simp

lemma slow_calls_kernels: "fst ` set (slow_calls a xs past) \<subseteq> fst ` set xs"
  by (induction xs arbitrary: past) (auto split: option.splits if_splits)

text \<open>
  C24: the counters are exact. While never more than 10000 sockets are open at a time, the
  slow calls of the run need at most the 4096 counters the table has room for, and the kernel has memory
  for them, each counter holds the number of reads and transmissions of its namespace, process, CPU and
  action that came more than one millisecond after the last arrival or write on their socket, with
  those above 100 milliseconds in a counter of their own.
\<close>

theorem sklat_metric_counts:
  assumes "\<forall>(k, e) \<in> set xs. room_accepted k"
    and "\<forall>n \<le> length xs. card {sk. sock_open a sk (rev (take n xs))} \<le> 10000"
    and "card (snd ` set (slow_calls a xs [])) \<le> 4096"
  shows "(case hash_lookup (insp_sklat_metric (run_probe (sklat_step a) xs sklat_init)) key of
            Some c \<Rightarrow> c | None \<Rightarrow> 0) =
         of_nat (count_list (map snd (slow_calls a xs [])) key)"
proof -
  have "\<forall>x \<in> set (slow_calls a xs []). room_accepted (fst x)"
    using assms(1) slow_calls_kernels [of a xs "[]"] by fastforce
  then have "hash_counter.all_accepted (slow_calls a xs []) (insp_sklat_metric sklat_init)"
    using assms(3)
    by (intro hash_bumps_accepted)
      (simp_all add: sklat_init_def dom_def insp_sklat_metric_def_def, simp add: hash_empty_def)
  moreover have "entries_agree a [] sklat_init"
    by (simp add: entries_agree_def waiting_def) (simp add: sklat_init_def hash_empty_def hash_lookup_def)
  then have "insp_sklat_metric (run_probe (sklat_step a) xs sklat_init) =
      hash_counter.bumps (slow_calls a xs []) (insp_sklat_metric sklat_init)"
    using sklat_metric_bumps assms(1,2) by simp
  ultimately show ?thesis
    using hash_counter.val_bumps [of "slow_calls a xs []" "insp_sklat_metric sklat_init" key]
    by (simp add: hash_counter.val_def) (simp add: sklat_init_def)
qed

lemma card_open: "card {sk. sock_open a sk past} \<le> length past"
proof -
  have "card {sk. sock_open a sk past} \<le> card ((\<lambda>x. call_sock a (snd x)) ` set past)"
    by (rule card_mono) (auto dest: sock_open_called)
  also have "\<dots> \<le> card (set past)" by (rule card_image_le) simp
  also have "\<dots> \<le> length past" by (rule card_length)
  finally show ?thesis .
qed

theorem sklat_metric_counts_witness:
  "(case hash_lookup (insp_sklat_metric (run_probe (sklat_step Amd64) sock_run sklat_init))
           (metric_key ACTION_READ (sample_kernel\<lparr>k_now := 200001000\<rparr>) 64 1000) of
      Some c \<Rightarrow> c | None \<Rightarrow> 0) = 1"
proof -
  have slow: "slow_calls Amd64 sock_run [] =
      [(sample_kernel\<lparr>k_now := 200001000\<rparr>, metric_key ACTION_READ (sample_kernel\<lparr>k_now := 200001000\<rparr>) 64 1000)]"
    by (simp add: sock_run_def ended_wait_def is_arrival_def LAT_THRESH_NS_def)
  have "card {sk. sock_open Amd64 sk (rev (take n sock_run))} \<le> 10000" for n
    using card_open [of Amd64 "rev (take n sock_run)"] by (simp add: sock_run_def)
  then show ?thesis
    using sklat_metric_counts [of sock_run Amd64
        "metric_key ACTION_READ (sample_kernel\<lparr>k_now := 200001000\<rparr>) 64 1000"]
    by (simp add: slow) (simp add: sock_run_def room_accepted_def)
qed

text \<open>
  On a kernel that refuses new entries in a full table, both tables keep one
  entry per key, the sockets never more than ten thousand and the counters never more than 4096.
\<close>

lemma sklat_tables_bounded:
  assumes "\<forall>(k, e) \<in> set xs. full_refused k"
  shows "let s = run_probe (sklat_step a) xs sklat_init
    in hash_ok (insp_sklat_entry s) \<and> card (dom (hash_lookup (insp_sklat_entry s))) \<le> 10000 \<and>
       hash_ok (insp_sklat_metric s) \<and> card (dom (hash_lookup (insp_sklat_metric s))) \<le> 4096"
proof -
  define P where "P s \<longleftrightarrow> hash_ok (insp_sklat_entry s) \<and> hash_def (insp_sklat_entry s) = insp_sklat_entry_def \<and>
    hash_ok (insp_sklat_metric s) \<and> hash_def (insp_sklat_metric s) = insp_sklat_metric_def" for s :: sklat
  have "P (run_probe (sklat_step a) xs sklat_init)"
  proof (rule run_probe_invariant)
    show "P sklat_init" by (auto simp: P_def sklat_init_def)
    fix k e and s :: sklat assume "(k, e) \<in> set xs" "P s"
    with assms have "full_refused k" "P s" by auto
    then show "P (sklat_step a k e s)"
      by (auto simp: P_def sklat_entry_step sklat_metric_step split: option.splits sklat_call.splits)
  qed
  then show ?thesis
    using hash_ok_card_dom [of "insp_sklat_entry (run_probe (sklat_step a) xs sklat_init)"]
      hash_ok_card_dom [of "insp_sklat_metric (run_probe (sklat_step a) xs sklat_init)"]
    by (simp add: P_def insp_sklat_entry_def_def insp_sklat_metric_def_def Let_def)
qed

lemma sklat_tables_bounded_witness:
  "let s = run_probe (sklat_step Amd64) sock_run sklat_init
   in hash_ok (insp_sklat_entry s) \<and> card (dom (hash_lookup (insp_sklat_entry s))) \<le> 10000 \<and>
      hash_ok (insp_sklat_metric s) \<and> card (dom (hash_lookup (insp_sklat_metric s))) \<le> 4096"
  by (rule sklat_tables_bounded) (simp add: sock_run_def full_refused_def)

end
