(* ===== verification/Interleave.thy ===== *)
theory Interleave
  imports Socketlatency
begin

text \<open>
  Counting on several CPUs at once. The handlers of \<^verbatim>\<open>src/bpf/socketlatency.c\<close> count in two
  steps, a lookup and then either an atomic increment of the counter found or the insertion of a
  counter with the value one, and handlers on other CPUs run in between. \<open>bump_step\<close> is the relation
  of single steps; \<open>bump_log\<close> records every key a handler has counted under, whether or not the kernel
  accepted the insertion. The theorem shows that no count is lost because the key of a counter
  contains the CPU.
\<close>

section \<open>Steps\<close>

datatype 'k bump_pc = Idle | Hit 'k | Miss 'k

record 'k counting =
  bump_tab :: "('k, u64) bpf_hash"
  bump_pcs :: "u32 \<Rightarrow> 'k bump_pc"
  bump_log :: "'k list"

text \<open>
  \<open>own c key\<close>: a handler on the CPU \<open>c\<close> may count under \<open>key\<close>. \<open>ok k\<close>: what the kernel does in the course of
  an insertion, in particular whether it has memory for a new entry.
\<close>

inductive bump_step :: "(kenv \<Rightarrow> bool) \<Rightarrow> (u32 \<Rightarrow> 'k \<Rightarrow> bool) \<Rightarrow> 'k counting \<Rightarrow> 'k counting \<Rightarrow> bool" for ok own where
  found:
    "bump_step ok own s (s\<lparr>bump_pcs := (bump_pcs s)(c := Hit key)\<rparr>)"
    if "bump_pcs s c = Idle" and "own c key" and "hash_lookup (bump_tab s) key \<noteq> None"
| not_found:
    "bump_step ok own s (s\<lparr>bump_pcs := (bump_pcs s)(c := Miss key)\<rparr>)"
    if "bump_pcs s c = Idle" and "own c key" and "hash_lookup (bump_tab s) key = None"
| fetch_and_add:
    "bump_step ok own s
       (s\<lparr>bump_tab := hash_modify (\<lambda>v. v + 1) key (bump_tab s), bump_pcs := (bump_pcs s)(c := Idle),
          bump_log := bump_log s @ [key]\<rparr>)"
    if "bump_pcs s c = Hit key"
| initial_value:
    "bump_step ok own s
       (s\<lparr>bump_tab := snd (hash_update k (bump_tab s) key 1 BPF_ANY),
          bump_pcs := (bump_pcs s)(c := Idle), bump_log := bump_log s @ [key]\<rparr>)"
    if "bump_pcs s c = Miss key" and "k_cpu k = c" and "ok k"

definition bump_init :: "bpf_map_def \<Rightarrow> 'k counting" where
  "bump_init d = \<lparr>bump_tab = hash_empty d, bump_pcs = \<lambda>c. Idle, bump_log = []\<rparr>"

text \<open>Without interleaving the two steps are the operation \<open>hash_bump\<close> of the handlers.\<close>

lemma two_steps: "bump_step ok own s t \<Longrightarrow> bump_step ok own t u \<Longrightarrow> (bump_step ok own)\<^sup>*\<^sup>* s u"
  by (rule converse_rtranclp_into_rtranclp [OF _ r_into_rtranclp])

lemma bump_atomic:
  assumes "bump_pcs s (k_cpu k) = Idle" and "own (k_cpu k) key" and "ok k"
  shows "\<exists>s'. (bump_step ok own)\<^sup>*\<^sup>* s s' \<and> bump_pcs s' = bump_pcs s \<and>
    bump_tab s' = hash_bump k key (bump_tab s)"
proof (cases "hash_lookup (bump_tab s) key")
  case None
  define s1 where "s1 = s\<lparr>bump_pcs := (bump_pcs s)(k_cpu k := Miss key)\<rparr>"
  have "bump_step ok own s s1" unfolding s1_def using assms None by (intro not_found)
  moreover have "bump_pcs s1 (k_cpu k) = Miss key" by (simp add: s1_def)
  ultimately have "(bump_step ok own)\<^sup>*\<^sup>* s
      (s1\<lparr>bump_tab := snd (hash_update k (bump_tab s1) key 1 BPF_ANY),
          bump_pcs := (bump_pcs s1)(k_cpu k := Idle), bump_log := bump_log s1 @ [key]\<rparr>)"
    using initial_value [of s1 "k_cpu k" key k ok own] two_steps assms(3) by blast
  with None assms(1) show ?thesis
    by (intro exI conjI) (assumption, simp_all add: s1_def hash_bump_def fun_upd_idem)
next
  case (Some v)
  define s1 where "s1 = s\<lparr>bump_pcs := (bump_pcs s)(k_cpu k := Hit key)\<rparr>"
  have "bump_step ok own s s1" unfolding s1_def using assms Some by (intro found) auto
  moreover have "bump_pcs s1 (k_cpu k) = Hit key" by (simp add: s1_def)
  ultimately have "(bump_step ok own)\<^sup>*\<^sup>* s
      (s1\<lparr>bump_tab := hash_modify (\<lambda>v. v + 1) key (bump_tab s1),
          bump_pcs := (bump_pcs s1)(k_cpu k := Idle), bump_log := bump_log s1 @ [key]\<rparr>)"
    using fetch_and_add [of s1 "k_cpu k" key ok own] two_steps by blast
  with Some assms(1) show ?thesis
    by (intro exI conjI) (assumption, simp_all add: s1_def hash_bump_def fun_upd_idem)
qed

section \<open>Counters owned by one CPU\<close>

text \<open>As long as the keys counted under fit into the table, it holds a counter for each, with its count.\<close>

definition bump_exact :: "'k counting \<Rightarrow> bool" where
  "bump_exact s \<longleftrightarrow>
     card (set (bump_log s)) \<le> max_entries (hash_def (bump_tab s)) \<longrightarrow>
       dom (hash_lookup (bump_tab s)) = set (bump_log s) \<and>
       (\<forall>key. hash_counter.val (bump_tab s) key = of_nat (count_list (bump_log s) key))"

definition bump_inv :: "(u32 \<Rightarrow> 'k \<Rightarrow> bool) \<Rightarrow> 'k counting \<Rightarrow> bool" where
  "bump_inv own s \<longleftrightarrow>
     (\<forall>c key. bump_pcs s c = Hit key \<longrightarrow> own c key \<and> hash_lookup (bump_tab s) key \<noteq> None) \<and>
     (\<forall>c key. bump_pcs s c = Miss key \<longrightarrow> own c key \<and> hash_lookup (bump_tab s) key = None) \<and>
     distinct (map fst (hash_ents (bump_tab s))) \<and> bump_exact s"

lemma bump_inv_init: "bump_inv own (bump_init d)"
  by (simp add: bump_inv_def bump_exact_def bump_init_def hash_counter.val_def dom_def) (simp add: hash_empty_def)

lemma bump_invD:
  assumes "bump_inv own s"
  shows "bump_pcs s c = Hit key \<Longrightarrow> own c key" "bump_pcs s c = Hit key \<Longrightarrow> hash_lookup (bump_tab s) key \<noteq> None"
    "bump_pcs s c = Miss key \<Longrightarrow> own c key" "bump_pcs s c = Miss key \<Longrightarrow> hash_lookup (bump_tab s) key = None"
    "distinct (map fst (hash_ents (bump_tab s)))" "bump_exact s"
  using assms unfolding bump_inv_def by blast+

lemma bump_inv_add:
  assumes "bump_inv own s" and "bump_pcs s c = Hit key"
  shows "bump_inv own (s\<lparr>bump_tab := hash_modify (\<lambda>v. v + 1) key (bump_tab s),
    bump_pcs := (bump_pcs s)(c := Idle), bump_log := bump_log s @ [key]\<rparr>)" (is "bump_inv own ?s'")
proof -
  obtain v where v: "hash_lookup (bump_tab s) key = Some v" using bump_invD(2) [OF assms] by blast
  have "bump_exact ?s'"
    unfolding bump_exact_def
  proof
    assume room: "card (set (bump_log ?s')) \<le> max_entries (hash_def (bump_tab ?s'))"
    have "card (set (bump_log s)) \<le> card (set (bump_log ?s'))" by (rule card_mono) auto
    with room bump_invD(6) [OF assms(1)] have "dom (hash_lookup (bump_tab s)) = set (bump_log s)"
      and "\<forall>key. hash_counter.val (bump_tab s) key = of_nat (count_list (bump_log s) key)"
      by (simp_all add: bump_exact_def)
    then show "dom (hash_lookup (bump_tab ?s')) = set (bump_log ?s') \<and>
        (\<forall>key. hash_counter.val (bump_tab ?s') key = of_nat (count_list (bump_log ?s') key))"
      using v by (auto simp: hash_counter.val_def split: if_splits option.splits)
  qed
  then show ?thesis using assms(1) by (auto simp: bump_inv_def hash_modify_def split: option.splits)
qed

lemma bump_exact_insert:
  assumes "bump_inv own s" and "bump_pcs s c = Miss key" and "room_accepted k"
  shows "bump_exact (s\<lparr>bump_tab := snd (hash_update k (bump_tab s) key 1 BPF_ANY),
    bump_pcs := (bump_pcs s)(c := Idle), bump_log := bump_log s @ [key]\<rparr>)" (is "bump_exact ?s'")
  unfolding bump_exact_def
proof
  assume room: "card (set (bump_log ?s')) \<le> max_entries (hash_def (bump_tab ?s'))"
  have new: "hash_lookup (bump_tab s) key = None" using bump_invD(4) [OF assms(1,2)] .
  have "card (set (bump_log s)) \<le> card (set (bump_log ?s'))" by (rule card_mono) auto
  with room bump_invD(6) [OF assms(1)] have dom: "dom (hash_lookup (bump_tab s)) = set (bump_log s)"
    and val: "\<forall>key. hash_counter.val (bump_tab s) key = of_nat (count_list (bump_log s) key)"
    by (simp_all add: bump_exact_def)
  from new dom have fresh: "key \<notin> set (bump_log s)" by auto
  with room have "card (set (bump_log s)) < max_entries (hash_def (bump_tab s))" by simp
  then have "length (hash_ents (bump_tab s)) < max_entries (hash_def (bump_tab s))"
    by (simp add: hash_ents_card [OF bump_invD(5) [OF assms(1)]] dom)
  then have "hash_accepts k (bump_tab s) key BPF_ANY" by (rule hash_accepts_room [OF assms(3)])
  then have "hash_lookup (bump_tab ?s') = (hash_lookup (bump_tab s))(key \<mapsto> 1)"
    by (simp add: hash_lookup_update)
  then show "dom (hash_lookup (bump_tab ?s')) = set (bump_log ?s') \<and>
      (\<forall>key. hash_counter.val (bump_tab ?s') key = of_nat (count_list (bump_log ?s') key))"
    using dom val fresh by (auto simp: hash_counter.val_def)
qed

lemma bump_inv_insert:
  assumes "bump_inv own s" and "bump_pcs s c = Miss key" and "room_accepted k"
    and owner: "\<And>c c' key. own c key \<Longrightarrow> own c' key \<Longrightarrow> c = c'"
  shows "bump_inv own (s\<lparr>bump_tab := snd (hash_update k (bump_tab s) key 1 BPF_ANY),
    bump_pcs := (bump_pcs s)(c := Idle), bump_log := bump_log s @ [key]\<rparr>)"
proof -
  have "own c key" using bump_invD(3) [OF assms(1,2)] .
  then have "bump_pcs s c' \<noteq> Miss key" if "c' \<noteq> c" for c'
    using that owner [of c key c'] bump_invD(3) [OF assms(1)] by blast
  then show ?thesis
    using assms(1) bump_exact_insert [OF assms(1-3)]
    by (auto simp: bump_inv_def hash_lookup_update hash_update_eq)
qed

lemma bump_inv_step:
  assumes "bump_step room_accepted own s s'" and "bump_inv own s"
    and "\<And>c c' key. own c key \<Longrightarrow> own c' key \<Longrightarrow> c = c'"
  shows "bump_inv own s'"
  using assms(1)
proof cases
  case (fetch_and_add c key)
  then show ?thesis using bump_inv_add [OF assms(2)] by simp
next
  case (initial_value c key k)
  then show ?thesis using bump_inv_insert [OF assms(2) initial_value(2,4) assms(3)] by simp
qed (use assms(2) in \<open>auto simp: bump_inv_def bump_exact_def\<close>)

lemma bump_inv_reachable:
  assumes "(bump_step room_accepted own)\<^sup>*\<^sup>* (bump_init d) s" and "\<And>c c' key. own c key \<Longrightarrow> own c' key \<Longrightarrow> c = c'"
  shows "bump_inv own s \<and> hash_def (bump_tab s) = d"
  using assms(1)
proof induction
  case base
  show ?case by (simp add: bump_inv_init) (simp add: bump_init_def)
next
  case (step s t)
  have "hash_def (bump_tab t) = hash_def (bump_tab s)" using step.hyps(2) by cases simp_all
  with bump_inv_step [OF step.hyps(2) _ assms(2)] step.IH show ?case by simp
qed

section \<open>The counters of the socket probe\<close>

text \<open>
  A CPU owns the counters that some handler call on it changes, in some state of the tables. The key of
  such a counter names the CPU, so no two CPUs own the same one.
\<close>

definition metric_own :: "u32 \<Rightarrow> insp_sklat_metric_t \<Rightarrow> bool" where
  "metric_own c key \<longleftrightarrow>
     (\<exists>a k e s. k_cpu k = c \<and>
        hash_lookup (insp_sklat_metric (sklat_step a k e s)) key \<noteq> hash_lookup (insp_sklat_metric s) key)"

lemma hash_bump_other: "x \<noteq> key \<Longrightarrow> hash_lookup (hash_bump k key m) x = hash_lookup m x"
  by (simp add: hash_bump_def hash_lookup_update split: option.splits)

lemma hash_bump_same: "hash_lookup (hash_bump k key m) key = hash_lookup m key \<Longrightarrow> hash_bump k key m = m"
  by (cases "hash_accepts k m key BPF_ANY") (auto simp: hash_bump_def hash_lookup_update hash_update_eq split: option.splits)

lemma handler_counts:
  obtains "insp_sklat_metric (sklat_step a k e s) = insp_sklat_metric s"
  | act t where "insp_sklat_metric (sklat_step a k e s) =
      hash_bump k (metric_key act k (call_sock a e) t) (insp_sklat_metric s)"
proof (cases "wait_of a e s")
  case (Some w)
  then show ?thesis
    using that by (cases w; cases "LAT_THRESH_NS < k_now k - snd w") (simp_all add: sklat_metric_step)
qed (use that in \<open>simp add: sklat_metric_step\<close>)

lemma metric_own_cpu:
  assumes "metric_own c key"
  shows "sm_cpu key = c"
proof -
  obtain a k e s where c: "k_cpu k = c"
    and d: "hash_lookup (insp_sklat_metric (sklat_step a k e s)) key \<noteq> hash_lookup (insp_sklat_metric s) key"
    using assms unfolding metric_own_def by blast
  show ?thesis
  proof (rule handler_counts [of a k e s])
    fix act t
    assume "insp_sklat_metric (sklat_step a k e s) =
      hash_bump k (metric_key act k (call_sock a e) t) (insp_sklat_metric s)"
    with d have "key = metric_key act k (call_sock a e) t" using hash_bump_other by metis
    with c show ?thesis by (simp add: metric_key_def)
  qed (use d in simp)
qed

text \<open>Handlers that run one after the other are runs of these steps: the table they leave is reached.\<close>

lemma handler_simulated:
  assumes "bump_pcs t = (\<lambda>c. Idle)" and "bump_tab t = insp_sklat_metric s" and "ok k"
  shows "\<exists>t'. (bump_step ok metric_own)\<^sup>*\<^sup>* t t' \<and> bump_pcs t' = (\<lambda>c. Idle) \<and>
    bump_tab t' = insp_sklat_metric (sklat_step a k e s)"
proof (rule handler_counts [of a k e s])
  fix act w
  let ?key = "metric_key act k (call_sock a e) w"
  assume b: "insp_sklat_metric (sklat_step a k e s) = hash_bump k ?key (insp_sklat_metric s)"
  show ?thesis
  proof (cases "metric_own (k_cpu k) ?key")
    case True
    then show ?thesis using bump_atomic [of t k metric_own ?key ok] assms b by simp
  next
    case False
    then have "hash_lookup (insp_sklat_metric (sklat_step a k e s)) ?key = hash_lookup (insp_sklat_metric s) ?key"
      unfolding metric_own_def by blast
    then have "insp_sklat_metric (sklat_step a k e s) = insp_sklat_metric s" using b hash_bump_same by metis
    then show ?thesis using assms by auto
  qed
qed (use assms in auto)

lemma handlers_simulated:
  assumes "bump_pcs t = (\<lambda>c. Idle)" and "bump_tab t = insp_sklat_metric s" and "\<forall>(k, e) \<in> set xs. ok k"
  shows "\<exists>t'. (bump_step ok metric_own)\<^sup>*\<^sup>* t t' \<and> bump_pcs t' = (\<lambda>c. Idle) \<and>
    bump_tab t' = insp_sklat_metric (run_probe (sklat_step a) xs s)"
  using assms
proof (induction xs arbitrary: s t)
  case (Cons x xs)
  obtain k e where x: "x = (k, e)" by (cases x)
  obtain t1 where t1: "(bump_step ok metric_own)\<^sup>*\<^sup>* t t1" "bump_pcs t1 = (\<lambda>c. Idle)"
      "bump_tab t1 = insp_sklat_metric (sklat_step a k e s)"
    using handler_simulated [OF Cons.prems(1,2), of ok k a e] Cons.prems(3) by (auto simp: x)
  obtain t2 where "(bump_step ok metric_own)\<^sup>*\<^sup>* t1 t2" "bump_pcs t2 = (\<lambda>c. Idle)"
      "bump_tab t2 = insp_sklat_metric (run_probe (sklat_step a) xs (sklat_step a k e s))"
    using Cons.IH [OF t1(2,3)] Cons.prems(3) by auto
  with rtranclp_trans [OF t1(1)] show ?case by (auto simp: x)
qed auto

text \<open>
  C26: handlers that count at the same time on different CPUs do not lose a
  count. In every state the steps reach from the empty table, if the kernel has memory for new
  entries and no more than the 4096 counters the table has room for were needed, each counter is
  the number of times a handler counted under its key, although the lookup and the insertion of a new
  counter are separate steps.
\<close>

theorem metric_counts_not_lost:
  assumes "(bump_step room_accepted metric_own)\<^sup>*\<^sup>* (bump_init insp_sklat_metric_def) s"
    and "card (set (bump_log s)) \<le> 4096"
  shows "(case hash_lookup (bump_tab s) key of Some c \<Rightarrow> c | None \<Rightarrow> 0) =
    of_nat (count_list (bump_log s) key)"
proof -
  have "bump_inv metric_own s \<and> hash_def (bump_tab s) = insp_sklat_metric_def"
    by (rule bump_inv_reachable [OF assms(1)]) (auto dest: metric_own_cpu)
  with assms(2) have "\<forall>key. hash_counter.val (bump_tab s) key = of_nat (count_list (bump_log s) key)"
    by (simp add: bump_inv_def bump_exact_def insp_sklat_metric_def_def)
  then show ?thesis by (simp add: hash_counter.val_def)
qed

text \<open>
  The race between two CPUs: both miss their counter before either inserts its own.
\<close>

definition raced :: "'k \<Rightarrow> 'k \<Rightarrow> 'k counting" where
  "raced x y = \<lparr>bump_tab = \<lparr>hash_def = insp_sklat_metric_def, hash_ents = al_update y 1 [(x, 1)]\<rparr>,
     bump_pcs = \<lambda>c. Idle, bump_log = [x, y]\<rparr>"

lemma raced_reachable:
  fixes x y :: 'k
  assumes "own 0 x" and "own 1 y"
  shows "(bump_step room_accepted own)\<^sup>*\<^sup>* (bump_init insp_sklat_metric_def) (raced x y)"
proof -
  define k where "k c = sample_kernel\<lparr>k_cpu := c\<rparr>" for c
  have k: "room_accepted (k c)" for c by (simp add: k_def room_accepted_def)
  define s0 where "s0 = (bump_init insp_sklat_metric_def :: 'k counting)"
  define s1 where "s1 = s0\<lparr>bump_pcs := (bump_pcs s0)(0 := Miss x)\<rparr>"
  define s2 where "s2 = s1\<lparr>bump_pcs := (bump_pcs s1)(1 := Miss y)\<rparr>"
  define s3 where "s3 = s2\<lparr>bump_tab := snd (hash_update (k 0) (bump_tab s2) x 1 BPF_ANY),
    bump_pcs := (bump_pcs s2)(0 := Idle), bump_log := bump_log s2 @ [x]\<rparr>"
  define s4 where "s4 = s3\<lparr>bump_tab := snd (hash_update (k 1) (bump_tab s3) y 1 BPF_ANY),
    bump_pcs := (bump_pcs s3)(1 := Idle), bump_log := bump_log s3 @ [y]\<rparr>"
  have "bump_step room_accepted own s0 s1"
    unfolding s1_def using assms(1) by (intro not_found) (simp_all add: s0_def bump_init_def)
  moreover have "bump_step room_accepted own s1 s2"
    unfolding s2_def using assms(2) by (intro not_found) (simp_all add: s1_def s0_def bump_init_def)
  moreover have "bump_step room_accepted own s2 s3"
    unfolding s3_def by (intro initial_value k) (simp_all add: s2_def s1_def k_def)
  moreover have "bump_step room_accepted own s3 s4"
    unfolding s4_def by (intro initial_value k) (simp_all add: s3_def s2_def s1_def k_def)
  moreover have "s4 = raced x y"
  proof -
    have "(\<lambda>c :: u32. Idle :: 'k bump_pc)(0 := Miss x, 1 := Miss y, 0 := Idle, 1 := Idle) = (\<lambda>c. Idle)"
      by (simp add: fun_eq_iff)
    then show ?thesis
      by (simp add: s4_def s3_def s2_def s1_def s0_def raced_def bump_init_def hash_update_eq
          hash_accepts_def hash_lookup_def hash_empty_def k_def insp_sklat_metric_def_def flag_defs)
  qed
  ultimately show ?thesis
    using rtranclp_trans [OF two_steps two_steps] by (simp add: s0_def)
qed

text \<open>The keys of two CPUs for a read, two milliseconds after the arrival, of the socket at 64.\<close>

definition read_metric :: "u32 \<Rightarrow> insp_sklat_metric_t" where
  "read_metric c = metric_key ACTION_READ (sample_kernel\<lparr>k_now := 2000000, k_cpu := c\<rparr>) 64 1"

lemma read_metric_own: "metric_own c (read_metric c)"
proof -
  let ?k = "sample_kernel\<lparr>k_now := 2000000, k_cpu := c\<rparr>"
  define s where "s = sklat_init
    \<lparr>insp_sklat_entry := \<lparr>hash_def = insp_sklat_entry_def, hash_ents = [(64, zero_sklat_key\<lparr>lastreceive := 1\<rparr>)]\<rparr>\<rparr>"
  define e where "e = Tcp_cleanup_rbuf sock_regs"
  have "wait_of Amd64 e s = Some (ACTION_READ, 1)" and "call_sock Amd64 e = 64"
    by (simp_all add: s_def e_def waiting_def hash_lookup_def)
  then have "insp_sklat_metric (sklat_step Amd64 ?k e s) = hash_bump ?k (read_metric c) (insp_sklat_metric s)"
    by (simp add: sklat_metric_step read_metric_def LAT_THRESH_NS_def)
  moreover have "hash_lookup (insp_sklat_metric s) (read_metric c) = None"
    by (simp add: s_def sklat_init_def)
  moreover have "hash_lookup (hash_bump ?k (read_metric c) (insp_sklat_metric s)) (read_metric c) = Some 1"
    by (simp add: s_def sklat_init_def hash_bump_def hash_lookup_update hash_accepts_def insp_sklat_metric_def_def
        flag_defs) (simp add: hash_empty_def)
  ultimately show ?thesis
    unfolding metric_own_def by (intro exI [of _ Amd64] exI [of _ ?k] exI [of _ e] exI [of _ s]) simp
qed

theorem metric_counts_not_lost_witness:
  "(case hash_lookup (bump_tab (raced (read_metric 0) (read_metric 1))) (read_metric 0) of
      Some c \<Rightarrow> c | None \<Rightarrow> 0) = 1"
proof -
  have "read_metric 0 \<noteq> read_metric 1" by (simp add: read_metric_def metric_key_def)
  then show ?thesis
    using metric_counts_not_lost [OF raced_reachable [where own = metric_own, OF read_metric_own read_metric_own],
        of "read_metric 0"]
    by (simp add: raced_def)
qed

text \<open>
  With keys that handlers on several CPUs share, the same race loses a count: the second insertion
  overwrites the first, and two counts leave the counter at one.
\<close>

lemma shared_counter_loses:
  "(bump_step room_accepted (\<lambda>c key. True))\<^sup>*\<^sup>* (bump_init insp_sklat_metric_def) (raced x x) \<and>
   count_list (bump_log (raced x x)) x = 2 \<and> hash_lookup (bump_tab (raced x x)) x = Some 1"
proof (intro conjI)
  show "(bump_step room_accepted (\<lambda>c key. True))\<^sup>*\<^sup>* (bump_init insp_sklat_metric_def) (raced x x)"
    by (rule raced_reachable) simp_all
qed (simp_all add: raced_def hash_lookup_def)

end
