(* ===== verification/Helpers.thy ===== *)
theory Helpers
  imports Tracing CLayout VmlinuxAmd64
begin

text \<open>
  The rest of \<^verbatim>\<open>src/bpf/headers/bpf_helpers.h\<close> and \<^verbatim>\<open>src/bpf/headers/common.h\<close>: the
  version number, the step from a member to the object that contains it, the printing wrappers,
  and the types that \<^verbatim>\<open>common.h\<close> declares in place of \<^verbatim>\<open>vmlinux.h\<close>, with proofs
  that they have the layout of the kernel's.
\<close>

section \<open>bpf\_helpers.h\<close>

definition KERNEL_VERSION :: "nat \<Rightarrow> nat \<Rightarrow> nat \<Rightarrow> nat" where
  "KERNEL_VERSION a b c = push_bit 16 a + push_bit 8 b + (if 255 < c then 255 else c)"

definition container_of :: "u64 \<Rightarrow> ctype \<Rightarrow> string list \<Rightarrow> u64" where
  "container_of ptr t path = ptr - of_nat (offsetof t path)"

datatype libbpf_pin_type = LIBBPF_PIN_NONE | LIBBPF_PIN_BY_NAME

datatype libbpf_tristate = TRI_NO | TRI_YES | TRI_MODULE

text \<open>
  The printing wrappers collect their arguments in an array of 64-bit numbers whose length is the
  argument count. The helpers \<open>seq_printf\<close> and \<open>snprintf\<close> get the format with its terminating NUL,
  the array and its size in bytes; \<open>junk\<close> is what the array holds before it is filled. \<open>None\<close> is a
  call that does not compile.
\<close>

definition fill_param :: "(nat \<Rightarrow> u64 list) \<Rightarrow> u64 list \<Rightarrow> u64 list option" where
  "fill_param junk args =
     (case bpf_narg args of Some (Num n) \<Rightarrow> bpf_fill (junk n) args | _ \<Rightarrow> None)"

definition BPF_SEQ_PRINTF ::
    "('s \<Rightarrow> bytes \<Rightarrow> nat \<Rightarrow> u64 list \<Rightarrow> nat \<Rightarrow> 'r) \<Rightarrow> (nat \<Rightarrow> u64 list) \<Rightarrow> 's \<Rightarrow> bytes \<Rightarrow> u64 list \<Rightarrow> 'r option"
  where
  "BPF_SEQ_PRINTF seq_printf junk seq fmt args =
     map_option (\<lambda>param. seq_printf seq (fmt @ [0]) (length (fmt @ [0])) param (8 * length param))
       (fill_param junk args)"

definition BPF_SNPRINTF ::
    "('s \<Rightarrow> nat \<Rightarrow> bytes \<Rightarrow> u64 list \<Rightarrow> nat \<Rightarrow> 'r) \<Rightarrow> (nat \<Rightarrow> u64 list) \<Rightarrow> 's \<Rightarrow> nat \<Rightarrow> bytes \<Rightarrow> u64 list \<Rightarrow>
       'r option" where
  "BPF_SNPRINTF snprintf junk out out_size fmt args =
     map_option (\<lambda>param. snprintf out out_size (fmt @ [0]) param (8 * length param))
       (fill_param junk args)"

text \<open>
  Version numbers are ordered like the triples they encode, with the third component cut at 255,
  as long as the second one fits its eight bits.
\<close>

lemma kernel_version_less:
  assumes "b < 256" and "b' < 256"
  shows "KERNEL_VERSION a b c < KERNEL_VERSION a' b' c' \<longleftrightarrow>
    a < a' \<or> a = a' \<and> (b < b' \<or> b = b' \<and> min c 255 < min c' 255)"
proof -
  have eq: "KERNEL_VERSION a b c = 65536 * a + (256 * b + min c 255)" for a b c
    by (simp add: KERNEL_VERSION_def push_bit_eq_mult)
  have lt: "x * m + y < x' * m + y' \<longleftrightarrow> x < x' \<or> x = x' \<and> y < y'" if "y < m" "y' < m" for x x' y y' m :: nat
  proof (cases x x' rule: linorder_cases)
    case less
    then have "Suc x * m \<le> x' * m" by (intro mult_le_mono1) simp
    with less that show ?thesis by simp
  next
    case greater
    then have "Suc x' * m \<le> x * m" by (intro mult_le_mono1) simp
    with greater that show ?thesis by simp
  qed simp
  have "256 * b + min c 255 < 65536" "256 * b' + min c' 255 < 65536" using assms by linarith+
  from lt [OF this, of a a'] lt [of "min c 255" 256 "min c' 255" b b'] show ?thesis
    by (simp add: eq mult.commute)
qed

text \<open>A second component of 256 or more is read as a later first component.\<close>

lemma kernel_version_overflow: "KERNEL_VERSION 4 256 0 = KERNEL_VERSION 5 0 0"
  by (simp add: KERNEL_VERSION_def push_bit_eq_mult)

lemma container_of_member: "container_of (p + of_nat (offsetof t path)) t path = p"
  by (simp add: container_of_def)

lemma fill_param_ok:
  assumes "\<And>n. length (junk n) = n"
  shows "fill_param junk args = (if length args \<le> 12 then Some args else None)"
  using assms by (auto simp: fill_param_def bpf_narg_ok bpf_narg_many bpf_fill_all)

text \<open>
  Up to twelve arguments reach the helper unchanged and in order, with the size of the array that
  holds them, whatever the array held before.
\<close>

lemma printf_arguments:
  assumes "\<And>n. length (junk n) = n" and "length args \<le> 12"
  shows "BPF_SNPRINTF snprintf junk out out_size fmt args =
      Some (snprintf out out_size (fmt @ [0]) args (8 * length args))"
    and "BPF_SEQ_PRINTF seq_printf junk seq fmt args =
      Some (seq_printf seq (fmt @ [0]) (Suc (length fmt)) args (8 * length args))"
  using assms by (simp_all add: BPF_SNPRINTF_def BPF_SEQ_PRINTF_def fill_param_ok)

section \<open>common.h\<close>

datatype xdp_action = XDP_ABORTED | XDP_DROP | XDP_PASS | XDP_TX | XDP_REDIRECT

definition common_xdp_md :: ctype where
  "common_xdp_md = CStruct False [
     Member ''data'' (CInt 4),
     Member ''data_end'' (CInt 4),
     Member ''data_meta'' (CInt 4),
     Member ''ingress_ifindex'' (CInt 4),
     Member ''rx_queue_index'' (CInt 4),
     Member ''egress_ifindex'' (CInt 4)]"

definition common_ethhdr :: ctype where
  "common_ethhdr = CStruct False [
     Member ''h_dest'' (CArr (CInt 1) 6),
     Member ''h_source'' (CArr (CInt 1) 6),
     Member ''h_proto'' (CInt 2)]"

definition common_iphdr :: ctype where
  "common_iphdr = CStruct False [
     Bits ''ihl'' 1 4,
     Bits ''version'' 1 4,
     Member ''tos'' (CInt 1),
     Member ''tot_len'' (CInt 2),
     Member ''id'' (CInt 2),
     Member ''frag_off'' (CInt 2),
     Member ''ttl'' (CInt 1),
     Member ''protocol'' (CInt 1),
     Member ''check'' (CInt 2),
     Member ''saddr'' (CInt 4),
     Member ''daddr'' (CInt 4)]"

definition common_pt_regs :: ctype where
  "common_pt_regs = CStruct False [
     Member ''r15'' (CInt 8),
     Member ''r14'' (CInt 8),
     Member ''r13'' (CInt 8),
     Member ''r12'' (CInt 8),
     Member ''rbp'' (CInt 8),
     Member ''rbx'' (CInt 8),
     Member ''r11'' (CInt 8),
     Member ''r10'' (CInt 8),
     Member ''r9'' (CInt 8),
     Member ''r8'' (CInt 8),
     Member ''rax'' (CInt 8),
     Member ''rcx'' (CInt 8),
     Member ''rdx'' (CInt 8),
     Member ''rsi'' (CInt 8),
     Member ''rdi'' (CInt 8),
     Member ''orig_rax'' (CInt 8),
     Member ''rip'' (CInt 8),
     Member ''cs'' (CInt 8),
     Member ''eflags'' (CInt 8),
     Member ''rsp'' (CInt 8),
     Member ''ss'' (CInt 8)]"

lemma common_headers: "common_ethhdr = amd64_ethhdr" "common_iphdr = amd64_iphdr"
  by (simp_all add: common_ethhdr_def common_iphdr_def amd64_ethhdr_def amd64_iphdr_def)

lemma common_xdp_md_size: "sizeof common_xdp_md = 24"
  unfolding common_xdp_md_def by (simp add: layout_simps cong: layout_congs)

text \<open>
  The registers have the names of the instruction set in \<^verbatim>\<open>common.h\<close> and shorter ones in
  \<^verbatim>\<open>vmlinux.h\<close>; each is at the same place.
\<close>

definition reg_names :: "(string \<times> string) list" where
  "reg_names =
     [(''r15'', ''r15''), (''r14'', ''r14''), (''r13'', ''r13''), (''r12'', ''r12''), (''rbp'', ''bp''),
      (''rbx'', ''bx''), (''r11'', ''r11''), (''r10'', ''r10''), (''r9'', ''r9''), (''r8'', ''r8''),
      (''rax'', ''ax''), (''rcx'', ''cx''), (''rdx'', ''dx''), (''rsi'', ''si''), (''rdi'', ''di''),
      (''orig_rax'', ''orig_ax''), (''rip'', ''ip''), (''cs'', ''cs''), (''eflags'', ''flags''),
      (''rsp'', ''sp''), (''ss'', ''ss'')]"

fun rename_field :: "cfield \<Rightarrow> cfield" where
  "rename_field (Member x t) = Member (case map_of reg_names x of Some y \<Rightarrow> y | None \<Rightarrow> x) t"
| "rename_field f = f"

lemma common_pt_regs_agree:
  "\<exists>fs. common_pt_regs = CStruct False fs \<and> amd64_pt_regs = CStruct False (map rename_field fs)"
  by (simp add: common_pt_regs_def amd64_pt_regs_def reg_names_def)

end
