(* ===== verification/SkoopModel.thy ===== *)
theory SkoopModel
  imports GoNet
begin

text \<open>
  The data the simulation of the network stack works on: packets, \<^verbatim>\<open>src/pkg/skoop/model\<close>,
  and the helpers of \<^verbatim>\<open>src/pkg/skoop/utils\<close>: prefix matches and the stack.
\<close>

section \<open>Packets\<close>

definition TCP_proto :: string where "TCP_proto = ''tcp''"

definition UDP_proto :: string where "UDP_proto = ''udp''"

datatype packet = Packet
  (p_Src: IP) (p_Sport: u16) (p_Dst: IP) (p_Dport: u16) (p_Protocol: string)
  (p_Encap: "packet option") (p_Mark: u32)

section \<open>Prefix matches\<close>

text \<open>The error is that of \<^verbatim>\<open>ParseCIDR\<close>; its text is left out.\<close>

definition IPMatchPrefix :: "IP \<Rightarrow> string \<Rightarrow> bool option" where
  "IPMatchPrefix ip cidr =
     (case ParseCIDR cidr of None \<Rightarrow> None | Some ipnet \<Rightarrow> Some (IPNet_Contains ipnet ip))"

definition MatchPrefix :: "string \<Rightarrow> string \<Rightarrow> bool option" where
  "MatchPrefix ip cidr =
     (case ParseCIDR cidr of
        None \<Rightarrow> None
      | Some ipnet \<Rightarrow>
          (case ParseIP ip of None \<Rightarrow> None | Some ipobj \<Rightarrow> Some (IPNet_Contains ipnet ipobj)))"

text \<open>
  An address matches a printed network exactly when its first bits are those of the network, whatever
  the host bits of the network and whichever form the address has.
\<close>

lemma IPMatchPrefix_v4:
  assumes "length a = 4" and "n \<le> 32" and "To4 ip = Some x"
  shows "IPMatchPrefix ip (dotted a @ ''/'' @ decimal n) =
    Some (take n (addr_bits a) = take n (addr_bits x))"
proof -
  let ?a = "bytes_and a (mask_bytes 4 n)"
  have "To4 ?a = Some ?a" using assms(1) by (simp add: To4_cases)
  moreover have "length ?a = 4" using assms(1) by simp
  moreover have "take n (addr_bits ?a) = take n (addr_bits a)"
    using bytes_and_mask [of ?a 4 a n] assms(1) by (simp add: bytes_and_idem)
  ultimately show ?thesis
    using assms Contains_v4 [of "\<lparr>net_IP = ?a, net_Mask = mask_bytes 4 n\<rparr>" ?a ip x n]
    by (simp add: IPMatchPrefix_def ParseCIDR_dotted)
qed

lemma MatchPrefix_v4:
  assumes "length a = 4" and "n \<le> 32" and "length x = 4"
  shows "MatchPrefix (dotted x) (dotted a @ ''/'' @ decimal n) =
    Some (take n (addr_bits a) = take n (addr_bits x))"
  using IPMatchPrefix_v4 [OF assms(1,2) To4_cases(2), OF assms(3)] assms
  by (simp add: MatchPrefix_def IPMatchPrefix_def ParseCIDR_dotted ParseIP_dotted)

section \<open>Stack\<close>

record 'v Stack =
  st_arr :: "'v list"
  st_len :: nat

definition Push :: "'v \<Rightarrow> 'v Stack \<Rightarrow> 'v Stack" where
  "Push v s = s\<lparr>st_arr := st_arr s @ [v], st_len := st_len s + 1\<rparr>"

definition NewStack :: "'v list \<Rightarrow> 'v Stack" where
  "NewStack vs = foldl (\<lambda>s e. Push e s) \<lparr>st_arr = [], st_len = 0\<rparr> vs"

definition Pop :: "'v Stack \<Rightarrow> ('v \<times> 'v Stack) go" where
  "Pop s =
     (if st_len s = 0 then Panic
      else let n = st_len s - 1 in
        if n \<ge> length (st_arr s) then Panic
        else Ret (st_arr s ! n, s\<lparr>st_len := n, st_arr := take n (st_arr s)\<rparr>))"

definition Empty :: "'v Stack \<Rightarrow> bool" where
  "Empty s = (st_len s = 0)"

text \<open>The stack is the list of its elements, the top first.\<close>

definition stack_of :: "'v list \<Rightarrow> 'v Stack" where
  "stack_of vs = \<lparr>st_arr = rev vs, st_len = length vs\<rparr>"

lemma stack_of_simps [simp]:
  "NewStack [] = stack_of []"
  "NewStack [v] = stack_of [v]"
  "Push v (stack_of vs) = stack_of (v # vs)"
  "Pop (stack_of (v # vs)) = Ret (v, stack_of vs)"
  "Pop (stack_of []) = Panic"
  "Empty (stack_of vs) \<longleftrightarrow> vs = []"
  by (simp_all add: stack_of_def NewStack_def Push_def Pop_def Empty_def nth_append)

end
