(* ===== verification/Routing.thy ===== *)
theory Routing
  imports SkoopModel "HOL-Library.Product_Lexorder"
begin

unbundle bit_operations_syntax

text \<open>
  The simulated routing of \<^verbatim>\<open>src/pkg/skoop/netstack\<close>: interfaces (\<^verbatim>\<open>link.go\<close>), routing
  rules and tables (\<^verbatim>\<open>route.go\<close>) and neighbours (\<^verbatim>\<open>neigh.go\<close>). A pointer to a network that
  may be nil is an option, and following a nil pointer is a panic.
\<close>

section \<open>Interfaces\<close>

record Neigh =
  ng_Family :: int
  ng_LinkIndex :: int
  ng_State :: int
  ng_Type :: int
  ng_Flags :: int
  ng_IP :: IP
  ng_HardwareAddr :: bytes

record Interface =
  if_Name :: string
  if_Index :: int
  if_MTU :: int
  if_Driver :: string
  if_Addrs :: "IPNet list"
  if_State :: int
  if_DevSysctls :: "string \<rightharpoonup> string"
  if_NeighInfo :: "Neigh list"
  if_FdbInfo :: "Neigh list"
  if_PeerIndex :: int
  if_MasterIndex :: int

definition defaultIP :: IP where
  "defaultIP = IPv4 169 254 0 1"

definition GetDefaultIPv4 :: "Interface \<Rightarrow> IP \<times> bytes" where
  "GetDefaultIPv4 iface =
     (case find (\<lambda>addr. To4 (net_IP addr) \<noteq> None) (if_Addrs iface) of
        Some addr \<Rightarrow> (the (To4 (net_IP addr)), net_Mask addr)
      | None \<Rightarrow> (defaultIP, CIDRMask 32 32))"

section \<open>Routes and rules\<close>

definition RtTableLocal :: int where "RtTableLocal = 0xff"
definition RtTableMain :: int where "RtTableMain = 0xfe"
definition AF_INET :: int where "AF_INET = 2"

definition RtnUnicast :: int where "RtnUnicast = 1"
definition RtnLocal :: int where "RtnLocal = 2"
definition RtnBroadcast :: int where "RtnBroadcast = 3"
definition RtnAnycast :: int where "RtnAnycast = 4"
definition RtnMulticast :: int where "RtnMulticast = 5"
definition RtnBlackhole :: int where "RtnBlackhole = 6"
definition RtnUnreachable :: int where "RtnUnreachable = 7"
definition RtnProhibit :: int where "RtnProhibit = 8"

record Route_t =
  rt_Family :: int
  rt_OifName :: string
  rt_IifName :: string
  rt_Scope :: u8
  rt_Dst :: "IPNet option"
  rt_Src :: IP
  rt_Gw :: IP
  rt_Protocol :: int
  rt_Priority :: int
  rt_Table :: int
  rt_Type :: int
  rt_Tos :: int
  rt_Flags :: int

record Rule_t =
  ru_Priority :: int
  ru_Family :: int
  ru_Table :: int
  ru_Mark :: int
  ru_Mask :: int
  ru_Tos :: nat
  ru_TunID :: nat
  ru_Goto :: int
  ru_Src :: "IPNet option"
  ru_Dst :: "IPNet option"
  ru_Flow :: int
  ru_IifName :: string
  ru_OifName :: string

record SimulateRouter =
  sr_rules :: "Rule_t list"
  sr_routes :: "int \<rightharpoonup> Route_t list"
  sr_interfaces :: "Interface list"

definition sortRule :: "Rule_t list \<Rightarrow> Rule_t list" where
  "sortRule rules = SliceStable (\<lambda>i j. ru_Priority i < ru_Priority j) rules"

definition route_ones :: "Route_t \<Rightarrow> nat" where
  "route_ones r = fst (Mask_Size (net_Mask (the (rt_Dst r))))"

text \<open>Every element of a slice of at least two takes part in a comparison.\<close>

definition sortRoute :: "Route_t list \<Rightarrow> Route_t list go" where
  "sortRoute routes =
     (if length routes \<ge> 2 \<and> list_ex (\<lambda>r. rt_Dst r = None) routes then Panic
      else Ret (SliceStable
        (\<lambda>i j. if route_ones i = route_ones j then rt_Priority i < rt_Priority j
               else route_ones i > route_ones j) routes))"

definition matchRule :: "packet \<Rightarrow> Rule_t \<Rightarrow> string \<Rightarrow> string \<Rightarrow> bool" where
  "matchRule pk rule iif oif =
     (\<not> (ru_Src rule \<noteq> None \<and> \<not> IPNet_Contains (the (ru_Src rule)) (p_Src pk)) \<and>
      \<not> (ru_Dst rule \<noteq> None \<and> \<not> IPNet_Contains (the (ru_Dst rule)) (p_Dst pk)) \<and>
      \<not> (ru_Mark rule > 0 \<and> (uint (p_Mark pk) XOR ru_Mark rule) AND ru_Mask rule \<noteq> 0) \<and>
      \<not> (ru_IifName rule \<noteq> '''' \<and> ru_IifName rule \<noteq> iif) \<and>
      \<not> (ru_OifName rule \<noteq> '''' \<and> ru_OifName rule \<noteq> oif))"

text \<open>The routes are grouped by table and every group is sorted.\<close>

definition routeTableMap :: "Route_t list \<Rightarrow> int \<Rightarrow> Route_t list" where
  "routeTableMap routes = foldl (\<lambda>m r. m(rt_Table r := m (rt_Table r) @ [r])) (\<lambda>_. []) routes"

definition NewSimulateRouter :: "Rule_t list \<Rightarrow> Route_t list \<Rightarrow> Interface list \<Rightarrow> SimulateRouter go" where
  "NewSimulateRouter rules routes interfaces =
     go_bind (go_foldl
         (\<lambda>m t. go_bind (sortRoute (routeTableMap routes t)) (\<lambda>rs. Ret (m(t \<mapsto> rs))))
         Map.empty (remdups (map rt_Table routes)))
       (\<lambda>tables. Ret \<lparr>sr_rules = sortRule rules, sr_routes = tables, sr_interfaces = interfaces\<rparr>)"

fun lookup_loop :: "packet \<Rightarrow> Route_t list \<Rightarrow> Route_t option go" where
  "lookup_loop pk [] = Ret None"
| "lookup_loop pk (route # routes) =
     (case rt_Dst route of
        None \<Rightarrow> Panic
      | Some dst \<Rightarrow> if IPNet_Contains dst (p_Dst pk) then Ret (Some route) else lookup_loop pk routes)"

definition lookupRoute :: "SimulateRouter \<Rightarrow> int \<Rightarrow> packet \<Rightarrow> Route_t option go" where
  "lookupRoute r table pk =
     (case sr_routes r table of None \<Rightarrow> Ret None | Some routes \<Rightarrow> lookup_loop pk routes)"

datatype route_error = ErrNoRouteToHost | ErrNoSourceAddress

fun rule_loop :: "SimulateRouter \<Rightarrow> packet \<Rightarrow> string \<Rightarrow> string \<Rightarrow> Rule_t list \<Rightarrow> (route_error + Route_t) go" where
  "rule_loop r pk iif oif [] = Ret (Inl ErrNoRouteToHost)"
| "rule_loop r pk iif oif (rule # rules) =
     (if matchRule pk rule iif oif then
        go_bind (lookupRoute r (ru_Table rule) pk)
          (\<lambda>route. case route of Some rt \<Rightarrow> Ret (Inr rt) | None \<Rightarrow> rule_loop r pk iif oif rules)
      else rule_loop r pk iif oif rules)"

definition Route :: "SimulateRouter \<Rightarrow> packet \<Rightarrow> string \<Rightarrow> string \<Rightarrow> (route_error + Route_t) go" where
  "Route r pk iif oif = rule_loop r pk iif oif (sr_rules r)"

definition DefaultRoute :: "SimulateRouter \<Rightarrow> int \<Rightarrow> Route_t option" where
  "DefaultRoute r table =
     (let table = (if table = 0 then RtTableLocal else table) in
      find (\<lambda>rt. rt_Dst rt = None \<or> IPNet_String (rt_Dst rt) = ''0.0.0.0/0'')
        (case sr_routes r table of None \<Rightarrow> [] | Some rts \<Rightarrow> rts))"

definition TableRoute :: "SimulateRouter \<Rightarrow> int \<Rightarrow> packet \<Rightarrow> (route_error + Route_t) go" where
  "TableRoute r table pk =
     go_bind (lookupRoute r table pk)
       (\<lambda>route. Ret (case route of None \<Rightarrow> Inl ErrNoRouteToHost | Some rt \<Rightarrow> Inr rt))"

text \<open>
  The first IPv4 address of the interfaces with the name of the route, or the empty string; the route
  may be nil, which matters as soon as there is an interface.
\<close>

fun interfaceAddr :: "Interface list \<Rightarrow> Route_t option \<Rightarrow> string go" where
  "interfaceAddr [] rt = Ret ''''"
| "interfaceAddr (oif # ifs) rt =
     (case rt of
        None \<Rightarrow> Panic
      | Some route \<Rightarrow>
          if if_Name oif = rt_OifName route then
            (case find (\<lambda>addr. To4 (net_IP addr) \<noteq> None) (if_Addrs oif) of
               Some addr \<Rightarrow> Ret (IP_String (net_IP addr))
             | None \<Rightarrow> interfaceAddr ifs rt)
          else interfaceAddr ifs rt)"

text \<open>The address and the route, which is nil when there is none to return.\<close>

definition RouteSrc ::
  "SimulateRouter \<Rightarrow> packet \<Rightarrow> string \<Rightarrow> string \<Rightarrow> (route_error + string \<times> Route_t option) go" where
  "RouteSrc r pk iif oif =
     go_bind (Route r pk iif oif) (\<lambda>res. case res of
         Inl e \<Rightarrow> Ret (Inl e)
       | Inr route \<Rightarrow>
           go_bind (interfaceAddr (sr_interfaces r) (Some route)) (\<lambda>src.
             go_bind
               (if src = '''' then
                  let rt = DefaultRoute r RtTableMain
                  in go_bind (interfaceAddr (sr_interfaces r) rt) (\<lambda>s. Ret (s, rt))
                else Ret (src, Some route))
               (\<lambda>(src, rt). Ret (if src = '''' then Inl ErrNoSourceAddress else Inr (src, rt)))))"

section \<open>Neighbours\<close>

definition NudPermanent :: int where "NudPermanent = 0x80"

record NeighResult =
  nr_State :: int
  nr_LLAddr :: bytes
  nr_DST :: IP

definition HardwareAddr_String :: "bytes \<Rightarrow> string" where
  "HardwareAddr_String a = join '':'' (map (\<lambda>b. hexString [b]) a)"

text \<open>An unknown link is an error, \<^term>\<open>None\<close>; an address without an entry has no result.\<close>

definition ProbeNeigh :: "Interface list \<Rightarrow> IP \<Rightarrow> int \<Rightarrow> NeighResult option option" where
  "ProbeNeigh interfaces ip linkIndex =
     (case find (\<lambda>ifc. if_Index ifc = linkIndex) interfaces of
        None \<Rightarrow> None
      | Some ifc \<Rightarrow>
          (case find (\<lambda>n. ng_LinkIndex n = linkIndex \<and> IP_Equal (ng_IP n) ip) (if_NeighInfo ifc) of
             None \<Rightarrow> Some None
           | Some n \<Rightarrow>
               Some (Some \<lparr>nr_State = ng_State n, nr_LLAddr = ng_HardwareAddr n,
                 nr_DST =
                   (if ng_State n = NudPermanent then
                      foldl (\<lambda>dst fdb.
                          if HardwareAddr_String (ng_HardwareAddr fdb) = HardwareAddr_String (ng_HardwareAddr n)
                          then ng_IP fdb else dst) [] (if_FdbInfo ifc)
                    else [])\<rparr>)))"

fun neigh_loop :: "Route_t \<Rightarrow> IP \<Rightarrow> Interface list \<Rightarrow> Neigh option" where
  "neigh_loop route dst [] = None"
| "neigh_loop route dst (ni # nis) =
     (if if_Name ni = rt_OifName route then
        (case find (\<lambda>n. ng_Family n = AF_INET \<and> (rt_Gw route = [] \<and> IP_Equal (ng_IP n) dst) \<or>
                        rt_Gw route \<noteq> [] \<and> IP_Equal (ng_IP n) (rt_Gw route)) (if_NeighInfo ni) of
           Some n \<Rightarrow> Some n
         | None \<Rightarrow> neigh_loop route dst nis)
      else neigh_loop route dst nis)"

definition ProbeRouteNeigh :: "Interface list \<Rightarrow> Route_t \<Rightarrow> IP \<Rightarrow> Neigh option" where
  "ProbeRouteNeigh interfaces route dst = neigh_loop route dst interfaces"


section \<open>Longest prefix match\<close>

lemma routeTableMap_filter: "routeTableMap routes t = filter (\<lambda>r. rt_Table r = t) routes"
proof -
  have "foldl (\<lambda>m r. m(rt_Table r := m (rt_Table r) @ [r])) m routes t =
      m t @ filter (\<lambda>r. rt_Table r = t) routes" for m
    by (induction routes arbitrary: m) auto
  then show ?thesis by (simp add: routeTableMap_def)
qed

definition route_key :: "Route_t \<Rightarrow> int \<times> int" where
  "route_key r = (- int (route_ones r), rt_Priority r)"

lemma sortRoute_sort_key:
  assumes "list_all (\<lambda>r. rt_Dst r \<noteq> None) routes"
  shows "sortRoute routes = Ret (sort_key route_key routes)"
proof -
  have "SliceStable (\<lambda>i j. if route_ones i = route_ones j then rt_Priority i < rt_Priority j
      else route_ones i > route_ones j) routes = sort_key route_key routes"
    by (rule SliceStable_sort_key) (auto simp: route_key_def less_prod_def')
  moreover have "\<not> list_ex (\<lambda>r. rt_Dst r = None) routes"
    using assms by (simp add: list_all_iff list_ex_iff)
  ultimately show ?thesis by (simp add: sortRoute_def)
qed

text \<open>A router whose routes all have a destination is built, and its tables are sorted.\<close>

definition built_router :: "Rule_t list \<Rightarrow> Route_t list \<Rightarrow> Interface list \<Rightarrow> SimulateRouter" where
  "built_router rules routes interfaces =
     \<lparr>sr_rules = sort_key ru_Priority rules,
      sr_routes = (\<lambda>t. if t \<in> rt_Table ` set routes
        then Some (sort_key route_key (filter (\<lambda>r. rt_Table r = t) routes)) else None),
      sr_interfaces = interfaces\<rparr>"

lemma NewSimulateRouter_built:
  assumes "list_all (\<lambda>r. rt_Dst r \<noteq> None) routes"
  shows "NewSimulateRouter rules routes interfaces = Ret (built_router rules routes interfaces)"
proof -
  have sort: "sortRoute (routeTableMap routes t) = Ret (sort_key route_key (filter (\<lambda>r. rt_Table r = t) routes))" for t
    using assms by (auto simp: routeTableMap_filter list_all_iff intro: sortRoute_sort_key)
  have "go_foldl (\<lambda>m t. go_bind (sortRoute (routeTableMap routes t)) (\<lambda>rs. Ret (m(t \<mapsto> rs)))) m ts =
      Ret (\<lambda>t. if t \<in> set ts then Some (sort_key route_key (filter (\<lambda>r. rt_Table r = t) routes)) else m t)"
    for m ts
    by (induction ts arbitrary: m) (auto simp: sort fun_eq_iff)
  then show ?thesis
    by (simp add: NewSimulateRouter_def built_router_def sortRule_def SliceStable_sort_key [where f = ru_Priority])
qed

definition covers :: "Route_t \<Rightarrow> packet \<Rightarrow> bool" where
  "covers r pk = (case rt_Dst r of None \<Rightarrow> False | Some d \<Rightarrow> IPNet_Contains d (p_Dst pk))"

lemma lookup_loop_find:
  "list_all (\<lambda>r. rt_Dst r \<noteq> None) routes \<Longrightarrow>
   lookup_loop pk routes = Ret (find (\<lambda>r. covers r pk) routes)"
  by (induction routes) (auto simp: covers_def)

lemma find_filter: "find P xs = (case filter P xs of [] \<Rightarrow> None | x # _ \<Rightarrow> Some x)"
  by (induction xs) auto

lemma sort_key_Nil_iff [simp]: "sort_key f xs = [] \<longleftrightarrow> xs = []"
  by (metis length_0_conv length_sort)

lemma lookup_built:
  assumes "list_all (\<lambda>r. rt_Dst r \<noteq> None) routes"
  shows "lookupRoute (built_router rules routes interfaces) t pk =
    Ret (case filter (\<lambda>r. rt_Table r = t \<and> covers r pk) routes of
      [] \<Rightarrow> None | cs \<Rightarrow> Some (hd (sort_key route_key cs)))"
proof -
  let ?T = "filter (\<lambda>r. rt_Table r = t) routes"
  let ?C = "filter (\<lambda>r. rt_Table r = t \<and> covers r pk) routes"
  have cs: "filter (\<lambda>r. covers r pk) (sort_key route_key ?T) = sort_key route_key ?C"
    by (simp add: filter_sort conj_commute)

  have "find (\<lambda>r. covers r pk) (sort_key route_key ?T) =
      (case ?C of [] \<Rightarrow> None | cs \<Rightarrow> Some (hd (sort_key route_key cs)))"
    unfolding find_filter cs using sort_key_Nil_iff [of route_key ?C]
    by (cases ?C; cases "sort_key route_key ?C") (simp_all del: sort_key_simps sort_key_Nil_iff)
  moreover have "?C = []" if "t \<notin> rt_Table ` set routes"
    using that by (auto simp: filter_empty_conv)
  ultimately show ?thesis
    using assms
    by (auto simp: lookupRoute_def built_router_def lookup_loop_find list_all_iff)
qed

text \<open>One route is preferred to another: a longer prefix, or the same length and a lower metric.\<close>

definition preferred :: "Route_t \<Rightarrow> Route_t \<Rightarrow> bool" where
  "preferred r s = (route_ones r > route_ones s \<or> route_ones r = route_ones s \<and> rt_Priority r \<le> rt_Priority s)"

lemma route_key_le: "route_key r \<le> route_key s \<longleftrightarrow> preferred r s"
  by (auto simp: route_key_def preferred_def less_eq_prod_def)

lemma route_key_less: "route_key r < route_key s \<longleftrightarrow> \<not> preferred s r"
  by (auto simp: route_key_le [symmetric])

text \<open>
  C7: a lookup in a table returns the most preferred of the routes of the table that
  cover the destination: the longest prefix, among these the lowest metric, among these the first one
  listed; and nothing when no route covers it.
\<close>

theorem lookup_longest_prefix:
  assumes "list_all (\<lambda>r. rt_Dst r \<noteq> None) routes"
    and "cs = filter (\<lambda>r. rt_Table r = t \<and> covers r pk) routes"
  shows "\<exists>router. NewSimulateRouter rules routes interfaces = Ret router \<and>
    (cs = [] \<and> lookupRoute router t pk = Ret None \<or>
     (\<exists>i < length cs. lookupRoute router t pk = Ret (Some (cs ! i)) \<and>
        (\<forall>j < length cs. preferred (cs ! i) (cs ! j)) \<and> (\<forall>j < i. \<not> preferred (cs ! j) (cs ! i))))"
  using lookup_built [OF assms(1), of rules interfaces t pk] hd_sort_key [of cs route_key]
  by (cases cs)
    (auto simp: NewSimulateRouter_built [OF assms(1)] assms(2) [symmetric] route_key_le route_key_less
      simp del: sort_key_simps)



text \<open>For IPv4 networks both measures are those of the prefix in bits.\<close>

lemma covers_v4:
  assumes "rt_Dst r = Some \<lparr>net_IP = ip, net_Mask = mask_bytes 4 n\<rparr>" and "n \<le> 32"
    and "To4 ip = Some a" and "To4 (p_Dst pk) = Some x"
  shows "route_ones r = n" "covers r pk \<longleftrightarrow> take n (addr_bits a) = take n (addr_bits x)"
  using assms simpleMaskLength_mask [of n 4] Contains_v4 [of "\<lparr>net_IP = ip, net_Mask = mask_bytes 4 n\<rparr>" a _ x n]
  by (simp_all add: route_ones_def Mask_Size_def covers_def)

text \<open>Packet to 10.1.2.3 with a default route, 10.0.0.0/8 and 10.1.0.0/16.\<close>

definition sample_route :: "IP \<Rightarrow> nat \<Rightarrow> string \<Rightarrow> Route_t" where
  "sample_route ip n oif =
     \<lparr>rt_Family = AF_INET, rt_OifName = oif, rt_IifName = '''', rt_Scope = 0,
      rt_Dst = Some \<lparr>net_IP = ip, net_Mask = CIDRMask n 32\<rparr>, rt_Src = [], rt_Gw = [], rt_Protocol = 2,
      rt_Priority = 0, rt_Table = RtTableMain, rt_Type = RtnUnicast, rt_Tos = 0, rt_Flags = 0\<rparr>"

definition sample_routes :: "Route_t list" where
  "sample_routes = [sample_route [0, 0, 0, 0] 0 ''eth0'', sample_route [10, 0, 0, 0] 8 ''a'',
     sample_route [10, 1, 0, 0] 16 ''b'']"

definition sample_packet :: packet where
  "sample_packet = Packet [10, 9, 9, 9] 1000 [10, 1, 2, 3] 80 TCP_proto None 0"

lemma sample_routes_eval:
  "list_all (\<lambda>r. rt_Dst r \<noteq> None) sample_routes"
  "sample_routes = filter (\<lambda>r. rt_Table r = RtTableMain \<and> covers r sample_packet) sample_routes"
  "length sample_routes = 3" "\<not> preferred (sample_routes ! 0) (sample_routes ! 2)"
  "\<not> preferred (sample_routes ! 1) (sample_routes ! 2)"
  by code_simp+

theorem lookup_longest_prefix_witness:
  "\<exists>router. NewSimulateRouter [] sample_routes [] = Ret router \<and>
     lookupRoute router RtTableMain sample_packet = Ret (Some (sample_route [10, 1, 0, 0] 16 ''b''))"
proof -
  obtain router i where r: "NewSimulateRouter [] sample_routes [] = Ret router" "i < 3"
    "lookupRoute router RtTableMain sample_packet = Ret (Some (sample_routes ! i))"
    "preferred (sample_routes ! i) (sample_routes ! 2)"
    using lookup_longest_prefix [OF sample_routes_eval(1,2), of "[]" "[]"] sample_routes_eval(3)
    by fastforce
  then have "i = 2"
    using sample_routes_eval(4,5) by (cases "i = 0"; cases "i = 1") auto
  with r show ?thesis by (auto simp: sample_routes_def)
qed

section \<open>Rules in the order of their priorities\<close>

lemma rule_loop_find:
  assumes "\<And>t. lookupRoute r t pk = Ret (look t)"
  shows "rule_loop r pk iif oif rules =
    Ret (case find (\<lambda>u. matchRule pk u iif oif \<and> look (ru_Table u) \<noteq> None) rules of
      None \<Rightarrow> Inl ErrNoRouteToHost | Some u \<Rightarrow> Inr (the (look (ru_Table u))))"
  using assms by (induction rules) auto

text \<open>
  C21: a packet is routed by the first rule, in the order of priority and then of the
  list, that selects the packet and whose table has a route that covers it, with the route of that
  table; without such a rule there is no route to the host.
\<close>

theorem route_by_priority:
  assumes "list_all (\<lambda>r. rt_Dst r \<noteq> None) routes"
    and "us = filter (\<lambda>u. matchRule pk u iif oif \<and>
      list_ex (\<lambda>r. rt_Table r = ru_Table u \<and> covers r pk) routes) rules"
  shows "\<exists>router. NewSimulateRouter rules routes interfaces = Ret router \<and>
    (us = [] \<and> Route router pk iif oif = Ret (Inl ErrNoRouteToHost) \<or>
     (\<exists>i < length us. \<exists>rt. Route router pk iif oif = Ret (Inr rt) \<and>
        lookupRoute router (ru_Table (us ! i)) pk = Ret (Some rt) \<and>
        (\<forall>j < length us. ru_Priority (us ! i) \<le> ru_Priority (us ! j)) \<and>
        (\<forall>j < i. ru_Priority (us ! i) < ru_Priority (us ! j))))"
proof -
  let ?r = "built_router rules routes interfaces"
  define look where "look = (\<lambda>t. case filter (\<lambda>r. rt_Table r = t \<and> covers r pk) routes of
      [] \<Rightarrow> None | cs \<Rightarrow> Some (hd (sort_key route_key cs)))"
  have look: "lookupRoute ?r t pk = Ret (look t)" for t
    using lookup_built [OF assms(1)] by (simp add: look_def)
  have "look t = None \<longleftrightarrow> filter (\<lambda>r. rt_Table r = t \<and> covers r pk) routes = []" for t
    by (simp add: look_def split: list.splits)
  then have "look t \<noteq> None \<longleftrightarrow> list_ex (\<lambda>r. rt_Table r = t \<and> covers r pk) routes" for t
    by (auto simp: list_ex_iff filter_empty_conv)
  then have us: "us = filter (\<lambda>u. matchRule pk u iif oif \<and> look (ru_Table u) \<noteq> None) rules"
    using assms(2) by simp
  have "Route ?r pk iif oif =
      Ret (case sort_key ru_Priority us of [] \<Rightarrow> Inl ErrNoRouteToHost | u # _ \<Rightarrow> Inr (the (look (ru_Table u))))"
    unfolding Route_def rule_loop_find [OF look] find_filter
    by (simp add: built_router_def filter_sort us split: list.splits)

  moreover have "look (ru_Table (us ! i)) \<noteq> None" if "i < length us" for i
    using nth_mem [OF that] by (simp add: us)
  ultimately show ?thesis
    using hd_sort_key [of us ru_Priority] sort_key_Nil_iff [of ru_Priority us]
    by (cases "sort_key ru_Priority us")
      (auto simp: NewSimulateRouter_built [OF assms(1)] look simp del: sort_key_Nil_iff)
qed



definition sample_rule :: "int \<Rightarrow> int \<Rightarrow> Rule_t" where
  "sample_rule prio table =
     \<lparr>ru_Priority = prio, ru_Family = AF_INET, ru_Table = table, ru_Mark = 0, ru_Mask = 0, ru_Tos = 0,
      ru_TunID = 0, ru_Goto = 0, ru_Src = None, ru_Dst = None, ru_Flow = 0, ru_IifName = '''',
      ru_OifName = ''''\<rparr>"

text \<open>The rule of the local table has no route for the packet, the rule of the main table has.\<close>

definition sample_rules :: "Rule_t list" where
  "sample_rules = [sample_rule 32766 RtTableMain, sample_rule 0 RtTableLocal]"

lemma sample_rules_eval:
  "[sample_rule 32766 RtTableMain] = filter (\<lambda>u. matchRule sample_packet u '''' '''' \<and>
     list_ex (\<lambda>r. rt_Table r = ru_Table u \<and> covers r sample_packet) sample_routes) sample_rules"
  by code_simp

theorem route_by_priority_witness:
  "\<exists>router rt. NewSimulateRouter sample_rules sample_routes [] = Ret router \<and>
     Route router sample_packet '''' '''' = Ret (Inr rt) \<and>
     lookupRoute router RtTableMain sample_packet = Ret (Some rt)"
  using route_by_priority [OF sample_routes_eval(1) sample_rules_eval, of "[]"]
  by (auto simp: sample_rule_def)

text \<open>
  The router of \<^verbatim>\<open>TestRoutePacket\<close>, \<^verbatim>\<open>src/pkg/skoop/netstack/route_test.go\<close>: the rule for 192.168.0.1 leads to a
  table without a route for 1.0.0.1, and \<^verbatim>\<open>Route\<close> goes on to the default rule, while the test expects an
  error.
\<close>

definition test_router :: "SimulateRouter go" where
  "test_router = NewSimulateRouter
     [(sample_rule 0 100)\<lparr>ru_Src := Some \<lparr>net_IP = IPv4 192 168 0 1, net_Mask = CIDRMask 32 32\<rparr>\<rparr>, sample_rule 0 254]
     [(sample_route (IPv4 10 0 0 1) 16 '''')\<lparr>rt_Table := 100\<rparr>, (sample_route (IPv4 10 0 0 1) 24 '''')\<lparr>rt_Table := 100\<rparr>,
      (sample_route (IPv4 0 0 0 0) 0 '''')\<lparr>rt_Table := 254\<rparr>] []"

definition test_packet :: packet where
  "test_packet = Packet (IPv4 192 168 0 1) 0 (IPv4 1 0 0 1) 0 '''' None 0"

lemma test_router_routes:
  "go_bind test_router (\<lambda>router. Route router test_packet '''' '''') =
     Ret (Inr ((sample_route (IPv4 0 0 0 0) 0 '''')\<lparr>rt_Table := 254\<rparr>))"
  by code_simp

section \<open>The source address\<close>

lemma interfaceAddr_Some:
  "interfaceAddr ifs (Some rt) =
     Ret (case filter (\<lambda>a. To4 (net_IP a) \<noteq> None)
            (concat (map if_Addrs (filter (\<lambda>x. if_Name x = rt_OifName rt) ifs))) of
       [] \<Rightarrow> '''' | a # _ \<Rightarrow> IP_String (net_IP a))"
  by (induction ifs) (auto simp: find_filter split: list.splits)

lemma dotted_not_Nil: "bs \<noteq> [] \<Longrightarrow> dotted bs \<noteq> []"
  by (cases bs rule: remdups_adj.cases) (auto simp: dotted_def)

lemma IP_String_not_Nil: "To4 ip \<noteq> None \<Longrightarrow> IP_String ip \<noteq> ''''"
proof -
  assume "To4 ip \<noteq> None"
  then obtain bs where bs: "To4 ip = Some bs" by blast
  then have "bs \<noteq> []" by (auto simp: To4_def split: if_splits)
  then show ?thesis using IP_String_v4 [OF bs] dotted_not_Nil by simp
qed


text \<open>The interfaces of a route that carry no IPv4 address.\<close>

definition no_v4_address :: "Interface list \<Rightarrow> Route_t \<Rightarrow> bool" where
  "no_v4_address ifs rt =
     list_all (\<lambda>x. if_Name x = rt_OifName rt \<longrightarrow> list_all (\<lambda>a. To4 (net_IP a) = None) (if_Addrs x)) ifs"

lemma interfaceAddr_empty:
  "interfaceAddr ifs (Some rt) = Ret '''' \<longleftrightarrow> no_v4_address ifs rt"
proof -
  define as where "as = filter (\<lambda>a. To4 (net_IP a) \<noteq> None)
    (concat (map if_Addrs (filter (\<lambda>x. if_Name x = rt_OifName rt) ifs)))"
  have "interfaceAddr ifs (Some rt) = Ret '''' \<longleftrightarrow> as = []"
  proof (cases as)
    case (Cons a as')
    then have "a \<in> set as" by simp
    then have "To4 (net_IP a) \<noteq> None" unfolding as_def by simp
    then show ?thesis
      unfolding interfaceAddr_Some as_def [symmetric] by (simp add: Cons IP_String_not_Nil)
  qed (simp add: interfaceAddr_Some as_def)
  moreover have "as = [] \<longleftrightarrow> no_v4_address ifs rt"
    unfolding as_def filter_empty_conv no_v4_address_def list_all_iff set_concat set_map set_filter
    by (simp add: imp_conjL) blast
  ultimately show ?thesis by blast

qed


text \<open>
  C32: looking up the source address of a packet panics exactly when the packet has a
  route whose interfaces carry no IPv4 address while the main table has no default route, on a
  machine that has an interface.
\<close>

theorem route_src_panics:
  assumes "list_all (\<lambda>r. rt_Dst r \<noteq> None) routes"
  shows "\<exists>router. NewSimulateRouter rules routes interfaces = Ret router \<and>
    (RouteSrc router pk iif oif = Panic \<longleftrightarrow>
     interfaces \<noteq> [] \<and> DefaultRoute router RtTableMain = None \<and>
     (\<exists>rt. Route router pk iif oif = Ret (Inr rt) \<and> no_v4_address interfaces rt))"
proof -
  let ?r = "built_router rules routes interfaces"
  have ifs: "sr_interfaces ?r = interfaces" by (simp add: built_router_def)
  note look = lookup_built [OF assms, of rules interfaces _ pk]
  obtain res where res: "Route ?r pk iif oif = Ret res"
    using rule_loop_find [OF look] by (simp add: Route_def)
  have "RouteSrc ?r pk iif oif = Panic \<longleftrightarrow>
      interfaces \<noteq> [] \<and> DefaultRoute ?r RtTableMain = None \<and>
      (\<exists>rt. Route ?r pk iif oif = Ret (Inr rt) \<and> no_v4_address interfaces rt)"
  proof (cases res)
    case (Inr rt)
    have some: "\<exists>s. interfaceAddr interfaces (Some x) = Ret s" for x
      by (simp add: interfaceAddr_Some)
    obtain src where src: "interfaceAddr interfaces (Some rt) = Ret src" using some by blast
    have step: "RouteSrc ?r pk iif oif = Panic \<longleftrightarrow>
        src = '''' \<and> interfaceAddr interfaces (DefaultRoute ?r RtTableMain) = Panic"
      using some
      by (cases "DefaultRoute ?r RtTableMain"; cases "interfaceAddr interfaces (DefaultRoute ?r RtTableMain)")
        (simp_all add: RouteSrc_def ifs res Inr src Let_def)
    have none: "interfaceAddr interfaces None = (if interfaces = [] then Ret '''' else Panic)"
      by (cases interfaces) auto
    have "src = '''' \<longleftrightarrow> no_v4_address interfaces rt"
      using interfaceAddr_empty [of interfaces rt] src by simp
    moreover have "interfaceAddr interfaces d = Panic \<longleftrightarrow> interfaces \<noteq> [] \<and> d = None" for d
    proof (cases d)
      case (Some x)
      obtain s where "interfaceAddr interfaces (Some x) = Ret s" using some by blast
      then show ?thesis using Some by simp
    qed (simp add: none)
    ultimately show ?thesis unfolding step res Inr by auto

  qed (simp add: RouteSrc_def res)
  then show ?thesis by (simp add: NewSimulateRouter_built [OF assms])
qed



text \<open>A route to 10.1.0.0/16 over an interface without an address, and no default route.\<close>

definition bare_interface :: Interface where
  "bare_interface = \<lparr>if_Name = ''b'', if_Index = 2, if_MTU = 1500, if_Driver = ''veth'', if_Addrs = [],
     if_State = 1, if_DevSysctls = Map.empty, if_NeighInfo = [], if_FdbInfo = [], if_PeerIndex = 0,
     if_MasterIndex = 0\<rparr>"

definition bare_router :: SimulateRouter where
  "bare_router = built_router sample_rules [sample_route [10, 1, 0, 0] 16 ''b''] [bare_interface]"

lemma bare_router_eval:
  "list_all (\<lambda>r. rt_Dst r \<noteq> None) [sample_route [10, 1, 0, 0] 16 ''b'']"
  "DefaultRoute bare_router RtTableMain = None"
  "Route bare_router sample_packet '''' '''' = Ret (Inr (sample_route [10, 1, 0, 0] 16 ''b''))"
  "no_v4_address [bare_interface] (sample_route [10, 1, 0, 0] 16 ''b'')"
  by code_simp+

theorem route_src_panics_witness:
  "\<exists>router. NewSimulateRouter sample_rules [sample_route [10, 1, 0, 0] 16 ''b''] [bare_interface] = Ret router \<and>
     RouteSrc router sample_packet '''' '''' = Panic"
  using route_src_panics [OF bare_router_eval(1), of sample_rules "[bare_interface]" sample_packet "''''" "''''"]
    bare_router_eval
  by (auto simp: NewSimulateRouter_built [OF bare_router_eval(1)] bare_router_def)

end
