(* ===== verification/Iptables.thy ===== *)
theory Iptables
  imports Routing
begin

unbundle bit_operations_syntax

text \<open>
  The simulated packet filter of \<^verbatim>\<open>src/pkg/skoop/netstack\<close>: address sets (\<^verbatim>\<open>ipset.go\<close>),
  the matchers, rules, chains and tables of \<^verbatim>\<open>iptables.go\<close>, and the reading of both from XML. The
  XML library is the parameter \<^verbatim>\<open>etree\<close>, a record of the accessors the code calls.
\<close>

section \<open>The XML library\<close>

text \<open>
  Elements are values of any type. Looking for an element or an attribute may give a nil pointer; the
  two methods that the code calls on a possibly nil element have their result on nil in the record.
\<close>

record 'e etree =
  Tag :: "'e \<Rightarrow> string"
  Text :: "'e \<Rightarrow> string"
  ChildElements :: "'e \<Rightarrow> 'e list"
  FindElement :: "'e \<Rightarrow> string \<Rightarrow> 'e option"
  FindElements :: "'e \<Rightarrow> string \<Rightarrow> 'e list"
  SelectAttr :: "'e \<Rightarrow> string \<Rightarrow> string option"
  ReadFromString :: "string \<Rightarrow> 'e option option"
  nil_Text :: "string go"
  nil_ChildElements :: "'e list go"

section \<open>Address sets\<close>

record IPSet =
  is_Name :: string
  is_Type :: string
  is_Members :: "(string \<times> string) list"

record IPSetManager =
  sm_sets :: "string \<rightharpoonup> IPSet"

definition GetIPSet :: "IPSetManager \<Rightarrow> string \<Rightarrow> IPSet option" where
  "GetIPSet m name = sm_sets m name"

definition NewIPSetManager :: "IPSet list \<Rightarrow> IPSetManager" where
  "NewIPSetManager ipsets = \<lparr>sm_sets = foldl (\<lambda>m i. m(is_Name i \<mapsto> i)) Map.empty ipsets\<rparr>"

definition element_text :: "'e etree \<Rightarrow> 'e option \<Rightarrow> string go" where
  "element_text X e = (case e of None \<Rightarrow> nil_Text X | Some el \<Rightarrow> Ret (Text X el))"

definition parseOneIPSet :: "'e etree \<Rightarrow> 'e \<Rightarrow> IPSet go" where
  "parseOneIPSet X el =
     (case SelectAttr X el ''name'' of
        None \<Rightarrow> Panic
      | Some name \<Rightarrow>
          go_bind (element_text X (FindElement X el ''type'')) (\<lambda>ty.
          go_bind
            (case FindElement X el ''members'' of
               None \<Rightarrow> Ret []
             | Some ms \<Rightarrow>
                 go_foldl (\<lambda>mem x. go_bind (element_text X (FindElement X x ''elem'')) (\<lambda>m. Ret (al_update m m mem)))
                   [] (FindElements X ms ''member''))
            (\<lambda>mem. Ret \<lparr>is_Name = name, is_Type = ty, is_Members = mem\<rparr>)))"

text \<open>The result is \<^term>\<open>None\<close> when the text is not XML.\<close>

definition root_children :: "'e etree \<Rightarrow> 'e option \<Rightarrow> 'e list go" where
  "root_children X r = (case r of None \<Rightarrow> nil_ChildElements X | Some e \<Rightarrow> Ret (ChildElements X e))"

definition ParseIPSet :: "'e etree \<Rightarrow> string \<Rightarrow> IPSet list option go" where
  "ParseIPSet X dump =
     (case ReadFromString X dump of
        None \<Rightarrow> Ret None
      | Some root \<Rightarrow>
          go_bind (root_children X root) (\<lambda>els.
            go_bind (go_foldl (\<lambda>ret x. go_bind (parseOneIPSet X x) (\<lambda>s. Ret (ret @ [s]))) [] els)
              (\<lambda>ret. Ret (Some ret))))"

section \<open>Matchers\<close>

record nf_context =
  cx_ipset :: "IPSetManager option"
  cx_router :: "SimulateRouter option"

datatype match_error =
  ErrIptablesUnsupported string | ErrSetArgument string | ErrNoIPSet | ErrNoRouter |
  ErrParseCIDR string | ErrRoute route_error

datatype matcher =
  TCP string u16 | IP string string | UDP string u16 | Conntrack string string | Set string string |
  Comment string string | MultiPort string string | Mark string string | AddrType string string |
  Statistic string string | Physdev string string | RPFilter string string

type_synonym match_result = "(match_error + bool) go"

definition TCP_Match :: "string \<Rightarrow> u16 \<Rightarrow> packet \<Rightarrow> match_result" where
  "TCP_Match opt v pk =
     (if p_Protocol pk \<noteq> TCP_proto then Ret (Inr False)
      else if opt = ''dport'' then Ret (Inr (p_Dport pk = v))
      else if opt = ''sport'' then Ret (Inr (p_Sport pk = v))
      else Ret (Inl (ErrIptablesUnsupported (''tcp match option '' @ opt))))"

definition prefix_result :: "IP \<Rightarrow> string \<Rightarrow> match_result" where
  "prefix_result ip cidr =
     (case IPMatchPrefix ip cidr of None \<Rightarrow> Ret (Inl (ErrParseCIDR cidr)) | Some b \<Rightarrow> Ret (Inr b))"

definition IP_Match :: "string \<Rightarrow> string \<Rightarrow> packet \<Rightarrow> string \<Rightarrow> string \<Rightarrow> match_result" where
  "IP_Match opt v pk iif oif =
     (if opt = ''i'' then Ret (Inr (v = iif))
      else if opt = ''o'' then Ret (Inr (v = oif))
      else if opt = ''s'' then prefix_result (p_Src pk) v
      else if opt = ''d'' then prefix_result (p_Dst pk) v
      else if opt = ''p'' then Ret (Inr (EqualFold (p_Protocol pk) v))
      else Ret (Inl (ErrIptablesUnsupported (''match option '' @ opt))))"

definition UDP_Match :: "string \<Rightarrow> u16 \<Rightarrow> packet \<Rightarrow> match_result" where
  "UDP_Match opt v pk =
     (if p_Protocol pk \<noteq> UDP_proto then Ret (Inr False)
      else if opt = ''dport'' then Ret (Inr (p_Dport pk = v))
      else if opt = ''sport'' then Ret (Inr (p_Sport pk = v))
      else Ret (Inl (ErrIptablesUnsupported (''udp match option '' @ opt))))"

definition parseSetArgument :: "string \<Rightarrow> (string \<times> string) option" where
  "parseSetArgument v =
     (let arr = Fields v in if length arr \<noteq> 2 then None else Some (arr ! 0, arr ! 1))"

definition set_ip :: "packet \<Rightarrow> string \<Rightarrow> IP" where
  "set_ip pk field =
     (if field = ''src'' then p_Src pk else if field = ''dst'' then p_Dst pk else IPv4 0 0 0 0)"

definition set_port :: "packet \<Rightarrow> string \<Rightarrow> u16" where
  "set_port pk field =
     (if field = ''src'' then p_Sport pk else if field = ''dst'' then p_Dport pk else 0)"

text \<open>The key of a packet in a set; an index past the end of the fields panics.\<close>

definition key_ip_port :: "packet \<Rightarrow> string list \<Rightarrow> string" where
  "key_ip_port pk fs =
     IP_String (set_ip pk (fs ! 0)) @ '','' @ p_Protocol pk @ '':'' @ decimal (unat (set_port pk (fs ! 1)))"

definition Set_Match :: "nf_context \<Rightarrow> string \<Rightarrow> packet \<Rightarrow> match_result" where
  "Set_Match cx v pk =
     (case parseSetArgument v of
        None \<Rightarrow> Ret (Inl (ErrSetArgument v))
      | Some (setName, flags) \<Rightarrow>
          (case cx_ipset cx of
             None \<Rightarrow> Ret (Inl ErrNoIPSet)
           | Some manager \<Rightarrow>
               (case GetIPSet manager setName of
                  None \<Rightarrow> Ret (Inr False)
                | Some ipset \<Rightarrow>
                    let fs = Split (CHR '','') flags; has = (\<lambda>key. Ret (Inr (map_of (is_Members ipset) key \<noteq> None)))
                    in if is_Type ipset = ''hash:net'' then
                         Ret (Inr (list_ex (\<lambda>(m, _). IPMatchPrefix (set_ip pk flags) m = Some True) (is_Members ipset)))
                       else if is_Type ipset = ''hash:ip,port'' then
                         if length fs < 2 then Panic else has (key_ip_port pk fs)
                       else if is_Type ipset = ''hash:ip,port,ip'' then
                         if length fs < 3 then Panic
                         else has (key_ip_port pk fs @ '','' @ IP_String (set_ip pk (fs ! 2)))
                       else if is_Type ipset = ''bitmap:port'' then has (decimal (unat (set_port pk flags)))
                       else Ret (Inl (ErrIptablesUnsupported
                         (''ipset type '' @ is_Type ipset @ '' of '' @ setName))))))"

text \<open>The ports of a list of single ports and ranges; errors of the conversion are dropped.\<close>

definition port_of :: "string \<Rightarrow> u16" where
  "port_of s = word_of_int (fst (Atoi s))"

definition matchPort :: "string \<Rightarrow> u16 \<Rightarrow> bool" where
  "matchPort v port =
     list_ex (\<lambda>f.
         if CHR '':'' \<in> set f then
           let r = Split (CHR '':'') f in port \<ge> port_of (r ! 0) \<and> port \<le> port_of (r ! 1)
         else port = port_of f) (Split (CHR '','') v)"

definition MultiPort_Match :: "string \<Rightarrow> string \<Rightarrow> packet \<Rightarrow> match_result" where
  "MultiPort_Match opt v pk =
     (if opt = ''dports'' then Ret (Inr (matchPort v (p_Dport pk)))
      else if opt = ''sports'' then Ret (Inr (matchPort v (p_Sport pk)))
      else if opt = ''ports'' then Ret (Inr (matchPort v (p_Sport pk) \<or> matchPort v (p_Dport pk)))
      else Ret (Inl (ErrIptablesUnsupported (''multiport option '' @ opt))))"

definition parseMarkValue :: "string \<Rightarrow> u32 \<times> u32" where
  "parseMarkValue s =
     (if CHR ''/'' \<in> set s then
        let fs = Split (CHR ''/'') s
        in (word_of_int (fst (ParseInt (fs ! 0) 0 32)), word_of_int (fst (ParseInt (fs ! 1) 0 32)))
      else (word_of_int (fst (ParseInt s 0 32)), 0xffffffff))"

definition Mark_Match :: "string \<Rightarrow> packet \<Rightarrow> match_result" where
  "Mark_Match v pk = (let (mark, m) = parseMarkValue v in Ret (Inr (mark = p_Mark pk AND m)))"

definition addr_type_is :: "string \<Rightarrow> int \<Rightarrow> bool" where
  "addr_type_is v ty =
     (if v = ''UNICAST'' then ty = RtnUnicast
      else if v = ''LOCAL'' then ty = RtnLocal
      else if v = ''BROADCAST'' then ty = RtnBroadcast
      else if v = ''ANYCAST'' then ty = RtnAnycast
      else if v = ''MULTICAST'' then ty = RtnMulticast
      else if v = ''BLACKHOLE'' then ty = RtnBlackhole
      else if v = ''UNREACHABLE'' then ty = RtnUnreachable
      else if v = ''PROHIBIT'' then ty = RtnProhibit
      else False)"

definition AddrType_Match :: "nf_context \<Rightarrow> string \<Rightarrow> string \<Rightarrow> packet \<Rightarrow> string \<Rightarrow> string \<Rightarrow> match_result" where
  "AddrType_Match cx opt v pk iif oif =
     (if opt = ''limit-iface-in'' then Ret (Inr (iif = v))
      else if opt = ''limit-iface-out'' then Ret (Inr (oif = v))
      else
        let addr = (if opt = ''src-type'' then p_Src pk else if opt = ''dst-type'' then p_Dst pk else []) in
        if v = ''UNSPEC'' then Ret (Inr (IsUnspecified addr))
        else if v = ''MULTICAST'' then Ret (Inr (IsMulticast addr))
        else case cx_router cx of
          None \<Rightarrow> Ret (Inl ErrNoRouter)
        | Some router \<Rightarrow>
            go_bind (TableRoute router RtTableLocal pk) (\<lambda>res.
              case res of
                Inl e \<Rightarrow>
                  if e = ErrNoRouteToHost then Ret (Inr (addr_type_is v RtnUnicast)) else Ret (Inl (ErrRoute e))
              | Inr route \<Rightarrow> Ret (Inr (addr_type_is v (rt_Type route)))))"


definition RPFilter_Match :: "nf_context \<Rightarrow> string \<Rightarrow> packet \<Rightarrow> string \<Rightarrow> string \<Rightarrow> match_result" where
  "RPFilter_Match cx opt pk iif oif =
     (if opt = ''loose'' then Ret (Inr True)
      else case cx_router cx of
        None \<Rightarrow> Ret (Inl ErrNoRouter)
      | Some router \<Rightarrow>
          go_bind (Route router pk iif oif) (\<lambda>res.
            case res of
              Inl e \<Rightarrow> if e = ErrNoRouteToHost then Ret (Inr False) else Ret (Inl (ErrRoute e))
            | Inr route \<Rightarrow>
                Ret (Inr (if opt = ''invert'' then rt_OifName route \<noteq> iif else rt_OifName route = iif))))"

fun Match :: "nf_context \<Rightarrow> matcher \<Rightarrow> packet \<Rightarrow> string \<Rightarrow> string \<Rightarrow> match_result" where
  "Match cx (TCP opt v) pk iif oif = TCP_Match opt v pk"
| "Match cx (IP opt v) pk iif oif = IP_Match opt v pk iif oif"
| "Match cx (UDP opt v) pk iif oif = UDP_Match opt v pk"
| "Match cx (Conntrack opt v) pk iif oif = Ret (Inr True)"
| "Match cx (Set opt v) pk iif oif = Set_Match cx v pk"
| "Match cx (Comment opt v) pk iif oif = Ret (Inr True)"
| "Match cx (MultiPort opt v) pk iif oif = MultiPort_Match opt v pk"
| "Match cx (Mark opt v) pk iif oif = Mark_Match v pk"
| "Match cx (AddrType opt v) pk iif oif = AddrType_Match cx opt v pk iif oif"
| "Match cx (Statistic opt v) pk iif oif = Ret (Inr True)"
| "Match cx (Physdev opt v) pk iif oif = Ret (Inr True)"
| "Match cx (RPFilter opt v) pk iif oif = RPFilter_Match cx opt pk iif oif"


section \<open>Rules, chains and tables\<close>

datatype Verdict = VerdictAccept | VerdictDrop

datatype XTablesVerdict =
  XTablesVerdictAccept | XTablesVerdictDrop | XTablesVerdictReject | XTablesVerdictReturn |
  XTablesVerdictContinue

datatype target =
  NopTarget | AcceptTarget | DropTarget | MasqueradeTarget | RejectTarget | ReturnTarget |
  CallTarget string | GotoTarget string | DNATTarget string bool bool | SNATTarget string bool bool bool |
  MarkTarget | NoTrackTarget | TPProxyTarget

text \<open>The extension targets and their verdicts; the others have no method \<^verbatim>\<open>Do\<close>.\<close>

fun Do :: "target \<Rightarrow> XTablesVerdict option" where
  "Do (SNATTarget src rnd fully pers) = Some XTablesVerdictAccept"
| "Do (DNATTarget dst rnd pers) = Some XTablesVerdictAccept"
| "Do MarkTarget = Some XTablesVerdictAccept"
| "Do NoTrackTarget = Some XTablesVerdictAccept"
| "Do TPProxyTarget = Some XTablesVerdictAccept"
| "Do _ = None"

record match_t =
  m_matcher :: matcher
  m_invert :: bool

definition match_match :: "nf_context \<Rightarrow> match_t \<Rightarrow> packet \<Rightarrow> string \<Rightarrow> string \<Rightarrow> match_result" where
  "match_match cx m pk iif oif =
     go_bind (Match cx (m_matcher m) pk iif oif) (\<lambda>v.
       case v of Inl e \<Rightarrow> Ret (Inl e) | Inr b \<Rightarrow> Ret (Inr (if m_invert m then \<not> b else b)))"

record rule =
  r_matches :: "match_t list"
  r_target :: target

fun matches_loop :: "nf_context \<Rightarrow> packet \<Rightarrow> string \<Rightarrow> string \<Rightarrow> match_t list \<Rightarrow> match_result" where
  "matches_loop cx pk iif oif [] = Ret (Inr True)"
| "matches_loop cx pk iif oif (m # ms) =
     go_bind (match_match cx m pk iif oif) (\<lambda>v.
       case v of
         Inl e \<Rightarrow> Ret (Inl e)
       | Inr b \<Rightarrow> if \<not> b then Ret (Inr False) else matches_loop cx pk iif oif ms)"

definition rule_match :: "nf_context \<Rightarrow> rule \<Rightarrow> packet \<Rightarrow> string \<Rightarrow> string \<Rightarrow> match_result" where
  "rule_match cx r pk iif oif = matches_loop cx pk iif oif (r_matches r)"

record iptChain =
  ch_name :: string
  ch_policy :: Verdict
  ch_rules :: "rule list"

record xTable =
  xt_name :: string
  xt_chains :: "(string \<times> iptChain) list"

definition chain_at :: "xTable \<Rightarrow> string \<Rightarrow> iptChain option" where
  "chain_at xt c = map_of (xt_chains xt) c"

section \<open>Tracing a packet through a table\<close>

text \<open>A line of the trace: the table, the chain of the hook and the rule.\<close>

type_synonym trace = "(string \<times> string \<times> rule) list"

type_synonym stackFrame = "iptChain option \<times> nat"

datatype trace_error = IPTablesRuleError rule match_error | UnsupportedTarget rule

text \<open>The invocation: its context, the table, the chain of the hook, the packet and the interfaces.\<close>

record invocation =
  iv_cx :: nf_context
  iv_table :: xTable
  iv_chain :: iptChain
  iv_packet :: packet
  iv_iif :: string
  iv_oif :: string

text \<open>
  The loop over the rules of a frame. It ends with a verdict, or without one when the chain is left
  and the loop over the stack goes on.
\<close>

type_synonym chain_end = "(Verdict \<times> trace_error option) option \<times> stackFrame Stack \<times> trace"

fun chain_loop :: "invocation \<Rightarrow> rule list \<Rightarrow> nat \<Rightarrow> stackFrame Stack \<Rightarrow> trace \<Rightarrow> chain_end go" where
  "chain_loop iv [] pos st tr = Ret (None, st, tr)"
| "chain_loop iv (r # rs) pos st tr =
     go_bind (rule_match (iv_cx iv) r (iv_packet iv) (iv_iif iv) (iv_oif iv)) (\<lambda>v.
       case v of
         Inl e \<Rightarrow> Ret (Some (VerdictDrop, Some (IPTablesRuleError r e)), st, tr)
       | Inr b \<Rightarrow>
           if \<not> b then chain_loop iv rs (pos + 1) st tr
           else
             let tr = tr @ [(xt_name (iv_table iv), ch_name (iv_chain iv), r)] in
             case r_target r of
               AcceptTarget \<Rightarrow> Ret (Some (VerdictAccept, None), st, tr)
             | DropTarget \<Rightarrow> Ret (Some (VerdictDrop, None), st, tr)
             | NopTarget \<Rightarrow> chain_loop iv rs (pos + 1) st tr
             | ReturnTarget \<Rightarrow> Ret (None, st, tr)
             | CallTarget c \<Rightarrow>
                 Ret (None, Push (chain_at (iv_table iv) c, 0) (Push (Some (iv_chain iv), pos + 1) st), tr)
             | GotoTarget c \<Rightarrow> Ret (None, Push (chain_at (iv_table iv) c, 0) st, tr)
             | tgt \<Rightarrow>
                 (case Do tgt of
                    None \<Rightarrow> Ret (Some (VerdictDrop, Some (UnsupportedTarget r)), st, tr)
                  | Some XTablesVerdictAccept \<Rightarrow> Ret (Some (VerdictAccept, None), st, tr)
                  | Some XTablesVerdictDrop \<Rightarrow> Ret (Some (VerdictDrop, None), st, tr)
                  | Some XTablesVerdictReject \<Rightarrow> Ret (Some (VerdictDrop, None), st, tr)
                  | Some XTablesVerdictContinue \<Rightarrow> chain_loop iv rs (pos + 1) st tr
                  | Some XTablesVerdictReturn \<Rightarrow> Ret (None, st, tr)))"

text \<open>
  The loop over the stack: the verdict, the trace, the error and, for the deferred function, the frame
  and the rest of the stack at the return.
\<close>

type_synonym trace_end = "Verdict \<times> trace \<times> trace_error option \<times> stackFrame option \<times> stackFrame Stack"

partial_function (option) trace_loop ::
  "invocation \<Rightarrow> stackFrame option \<Rightarrow> stackFrame Stack \<Rightarrow> trace \<Rightarrow> trace_end go option" where
  "trace_loop iv frame st tr =
     (if Empty st then Some (Ret (ch_policy (iv_chain iv), tr, None, frame, st))
      else case Pop st of
        Ret (fr, st1) \<Rightarrow>
          (case fst fr of
             None \<Rightarrow> Some Panic
           | Some ch \<Rightarrow>
               (case chain_loop iv (drop (snd fr) (ch_rules ch)) (snd fr) st1 tr of
                  Ret (res, st2, tr2) \<Rightarrow>
                    (case res of
                       None \<Rightarrow> trace_loop iv (Some fr) st2 tr2
                     | Some (v, err) \<Rightarrow> Some (Ret (v, tr2, err, Some fr, st2)))
                | Panic \<Rightarrow> Some Panic
                | Diverge \<Rightarrow> Some Diverge))
      | Panic \<Rightarrow> Some Panic
      | Diverge \<Rightarrow> Some Diverge)"

definition buildTrace :: "invocation \<Rightarrow> stackFrame option \<Rightarrow> trace go" where
  "buildTrace iv frame =
     (case frame of
        None \<Rightarrow> Ret []
      | Some (ch, pos) \<Rightarrow>
          (case ch of
             None \<Rightarrow> Panic
           | Some c \<Rightarrow>
               if pos \<ge> length (ch_rules c) then Ret []
               else Ret [(xt_name (iv_table iv), ch_name (iv_chain iv), ch_rules c ! pos)]))"

text \<open>The deferred function adds the open frames to the trace of a packet that is not accepted.\<close>

definition deferred :: "invocation \<Rightarrow> trace_end \<Rightarrow> (Verdict \<times> trace \<times> trace_error option) go" where
  "deferred iv res =
     (case res of (v, tr, err, frame, st) \<Rightarrow>
        if v = VerdictAccept then Ret (v, tr, err)
        else go_bind (go_foldl (\<lambda>t f. go_bind (buildTrace iv f) (\<lambda>l. Ret (t @ l))) tr
               (frame # map Some (rev (take (st_len st) (st_arr st)))))
             (\<lambda>t. Ret (v, t, err)))"

type_synonym trace_result = "(Verdict \<times> trace \<times> trace_error option) go"

text \<open>A missing chain of the hook is a nil pointer, which the first access to its rules follows.\<close>

definition tracePacket ::
  "nf_context \<Rightarrow> xTable \<Rightarrow> string \<Rightarrow> packet \<Rightarrow> string \<Rightarrow> string \<Rightarrow> trace_result" where
  "tracePacket cx xt hook pk iif oif =
     (case chain_at xt hook of
        None \<Rightarrow> Panic
      | Some chain \<Rightarrow>
          let iv = \<lparr>iv_cx = cx, iv_table = xt, iv_chain = chain, iv_packet = pk, iv_iif = iif, iv_oif = oif\<rparr> in
          case trace_loop iv None (NewStack [(Some chain, 0)]) [] of
            None \<Rightarrow> Diverge
          | Some res \<Rightarrow> go_bind res (deferred iv))"



section \<open>All tables\<close>

type_synonym xTables = "(string \<times> xTable) list"

datatype IPTables = emptyIPTables xTables | defaultIPTables xTables

definition createEmptyTable :: "string \<Rightarrow> string list \<Rightarrow> xTable" where
  "createEmptyTable name cs =
     \<lparr>xt_name = name,
      xt_chains = foldl (\<lambda>m n. al_update n \<lparr>ch_name = n, ch_policy = VerdictAccept, ch_rules = []\<rparr> m) [] cs\<rparr>"

definition createEmptyIPTables :: IPTables where
  "createEmptyIPTables = emptyIPTables
     [(''raw'', createEmptyTable ''raw'' [''PREROUTING'', ''OUTPUT'']),
      (''mangle'', createEmptyTable ''mangle''
         [''PREROUTING'', ''INPUT'', ''FORWARD'', ''OUTPUT'', ''POSTROUTING'']),
      (''nat'', createEmptyTable ''nat'' [''PREROUTING'', ''INPUT'', ''OUTPUT'', ''POSTROUTING'']),
      (''filter'', createEmptyTable ''filter'' [''INPUT'', ''FORWARD'', ''OUTPUT''])]"

fun TracePacket ::
  "nf_context \<Rightarrow> IPTables \<Rightarrow> string \<Rightarrow> string \<Rightarrow> packet \<Rightarrow> string \<Rightarrow> string \<Rightarrow> trace_result" where
  "TracePacket cx (emptyIPTables _) hook table pk iif oif = Ret (VerdictAccept, [], None)"
| "TracePacket cx (defaultIPTables ts) hook table pk iif oif =
     (case map_of ts table of
        None \<Rightarrow> Ret (VerdictAccept, [], None)
      | Some xt \<Rightarrow> tracePacket cx xt hook pk iif oif)"

text \<open>Whether there is no error; the message names one of the offending chains.\<close>

fun IPTables_Empty :: "IPTables \<Rightarrow> bool" where
  "IPTables_Empty (emptyIPTables _) = True"
| "IPTables_Empty (defaultIPTables ts) =
     (\<not> list_ex (\<lambda>(_, t). list_ex (\<lambda>(_, c). length (ch_rules c) > 0) (xt_chains t)) ts)"

fun IPTables_DefaultAccept :: "IPTables \<Rightarrow> bool" where
  "IPTables_DefaultAccept (emptyIPTables _) = True"
| "IPTables_DefaultAccept (defaultIPTables ts) =
     (\<not> list_ex (\<lambda>(_, t). list_ex (\<lambda>(_, c). ch_policy c \<noteq> VerdictAccept) (xt_chains t)) ts)"

section \<open>Reading the tables\<close>

text \<open>
  The code makes matchers and targets by reflection: a type is looked up by the name of the module and
  its fields are set from the text. A number that does not parse is an error.
\<close>

definition setUint :: "string \<Rightarrow> u16 option" where
  "setUint value = (case ParseUint value 10 64 of (n, None) \<Rightarrow> Some (of_nat n) | _ \<Rightarrow> None)"

definition createMatcher :: "string \<Rightarrow> string \<Rightarrow> string \<Rightarrow> matcher option" where
  "createMatcher moduleType matchField value =
     (if moduleType = ''tcp'' then map_option (TCP matchField) (setUint value)
      else if moduleType = ''udp'' then map_option (UDP matchField) (setUint value)
      else if moduleType = ''match'' then Some (IP matchField value)
      else if moduleType = ''set'' then Some (Set matchField value)
      else if moduleType = ''comment'' then Some (Comment matchField value)
      else if moduleType = ''multiport'' then Some (MultiPort matchField value)
      else if moduleType = ''mark'' then Some (Mark matchField value)
      else if moduleType = ''statistic'' then Some (Statistic matchField value)
      else if moduleType = ''conntrack'' then Some (Conntrack matchField value)
      else if moduleType = ''addrtype'' then Some (AddrType matchField value)
      else if moduleType = ''rpfilter'' then Some (RPFilter matchField value)
      else None)"

definition ModuleTypes :: "string list" where
  "ModuleTypes = [''tcp'', ''udp'', ''match'', ''set'', ''comment'', ''multiport'', ''mark'',
     ''statistic'', ''conntrack'', ''addrtype'', ''rpfilter'']"

definition ActionTypes :: "string list" where
  "ActionTypes = [''DNAT'', ''SNAT'', ''MASQUERADE'', ''MARK'', ''ACCEPT'', ''DROP'', ''RETURN'',
     ''REJECT'', ''NOTRACK'', ''TPROXY'']"

text \<open>
  A string field is set from the parameter with the name of its tag; a Boolean field is not of a kind
  that can be set, so its parameter is an error.
\<close>

definition string_param :: "(string \<rightharpoonup> string) \<Rightarrow> string \<Rightarrow> string" where
  "string_param params tag = (case params tag of None \<Rightarrow> '''' | Some v \<Rightarrow> v)"

definition createTarget :: "string \<Rightarrow> (string \<rightharpoonup> string) \<Rightarrow> target option" where
  "createTarget actionType params =
     (if actionType = ''DNAT'' then
        if params ''--random'' \<noteq> None \<or> params ''--persistent'' \<noteq> None then None
        else Some (DNATTarget (string_param params ''--to-destination'') False False)
      else if actionType = ''SNAT'' then
        if params ''--random'' \<noteq> None \<or> params ''--random-fully'' \<noteq> None \<or> params ''--persistent'' \<noteq> None
        then None
        else Some (SNATTarget (string_param params ''--to-source'') False False False)
      else if actionType = ''MASQUERADE'' then Some MasqueradeTarget
      else if actionType = ''MARK'' then Some MarkTarget
      else if actionType = ''ACCEPT'' then Some AcceptTarget
      else if actionType = ''DROP'' then Some DropTarget
      else if actionType = ''RETURN'' then Some ReturnTarget
      else if actionType = ''REJECT'' then Some RejectTarget
      else if actionType = ''NOTRACK'' then Some NoTrackTarget
      else if actionType = ''TPROXY'' then Some TPProxyTarget
      else None)"

text \<open>The conditions of a module; a matcher that cannot be made panics.\<close>

definition parse_expr :: "'e etree \<Rightarrow> string \<Rightarrow> match_t list \<Rightarrow> 'e \<Rightarrow> match_t list go" where
  "parse_expr X key conds ex =
     (case createMatcher key (Tag X ex) (Text X ex) of
        None \<Rightarrow> Panic
      | Some m \<Rightarrow> Ret (conds @ [\<lparr>m_matcher = m, m_invert = (SelectAttr X ex ''invert'' = Some ''true'')\<rparr>]))"

text \<open>A module or an action of an unknown name is an error, \<^term>\<open>None\<close>.\<close>

fun parse_modules :: "'e etree \<Rightarrow> match_t list \<Rightarrow> 'e list \<Rightarrow> match_t list option go" where
  "parse_modules X conds [] = Ret (Some conds)"
| "parse_modules X conds (k # ks) =
     (if Tag X k \<notin> set ModuleTypes then Ret None
      else go_bind (go_foldl (parse_expr X (Tag X k)) conds (ChildElements X k))
        (\<lambda>c. parse_modules X c ks))"

definition parse_action :: "'e etree \<Rightarrow> 'e \<Rightarrow> target option go" where
  "parse_action X act =
     (if Tag X act = ''call'' \<or> Tag X act = ''goto'' then
        (case ChildElements X act of [] \<Rightarrow> Panic | c # _ \<Rightarrow> Ret (Some (CallTarget (Tag X c))))
      else if Tag X act \<notin> set ActionTypes then Ret None
      else Ret (createTarget (Tag X act)
        (foldl (\<lambda>m c. m(Tag X c \<mapsto> Text X c)) Map.empty (ChildElements X act))))"

definition parseOneRule :: "'e etree \<Rightarrow> 'e \<Rightarrow> rule option go" where
  "parseOneRule X xr =
     go_bind
       (case FindElement X xr ''conditions'' of
          None \<Rightarrow> Ret (Some [])
        | Some cs \<Rightarrow> parse_modules X [] (ChildElements X cs))
       (\<lambda>conds. case conds of
          None \<Rightarrow> Ret None
        | Some ms \<Rightarrow>
            (case (case FindElement X xr ''actions'' of None \<Rightarrow> [] | Some a \<Rightarrow> ChildElements X a) of
               [] \<Rightarrow> Ret (Some \<lparr>r_matches = ms, r_target = NopTarget\<rparr>)
             | act # _ \<Rightarrow>
                 go_bind (parse_action X act)
                   (\<lambda>t. Ret (map_option (\<lambda>t. \<lparr>r_matches = ms, r_target = t\<rparr>) t))))"

fun parse_rules :: "'e etree \<Rightarrow> rule list \<Rightarrow> 'e list \<Rightarrow> rule list option go" where
  "parse_rules X rs [] = Ret (Some rs)"
| "parse_rules X rs (x # xs) =
     go_bind (parseOneRule X x) (\<lambda>r. case r of None \<Rightarrow> Ret None | Some r \<Rightarrow> parse_rules X (rs @ [r]) xs)"

fun parse_chains :: "'e etree \<Rightarrow> (string \<times> iptChain) list \<Rightarrow> 'e list \<Rightarrow> (string \<times> iptChain) list option go" where
  "parse_chains X m [] = Ret (Some m)"
| "parse_chains X m (x # xs) =
     (case SelectAttr X x ''name'' of
        None \<Rightarrow> Panic
      | Some name \<Rightarrow>
          let policy = (if SelectAttr X x ''policy'' = Some ''DROP'' then VerdictDrop else VerdictAccept) in
          go_bind (parse_rules X [] (ChildElements X x)) (\<lambda>r.
            case r of
              None \<Rightarrow> Ret None
            | Some rules \<Rightarrow>
                parse_chains X (al_update name \<lparr>ch_name = name, ch_policy = policy, ch_rules = rules\<rparr> m) xs))"

definition parseOneTable :: "'e etree \<Rightarrow> 'e \<Rightarrow> xTable option go" where
  "parseOneTable X xt =
     (case SelectAttr X xt ''name'' of
        None \<Rightarrow> Panic
      | Some name \<Rightarrow>
          go_bind (parse_chains X [] (ChildElements X xt))
            (\<lambda>c. Ret (map_option (\<lambda>cs. \<lparr>xt_name = name, xt_chains = cs\<rparr>) c)))"

text \<open>An error panics too, and a panic is recovered: the result is then the empty tables.\<close>

fun parse_tables :: "'e etree \<Rightarrow> xTables \<Rightarrow> 'e list \<Rightarrow> xTables go" where
  "parse_tables X ts [] = Ret ts"
| "parse_tables X ts (x # xs) =
     go_bind (parseOneTable X x) (\<lambda>t.
       case t of None \<Rightarrow> Panic | Some t \<Rightarrow> parse_tables X (al_update (xt_name t) t ts) xs)"

definition ParseIPTables :: "'e etree \<Rightarrow> string \<Rightarrow> IPTables go" where
  "ParseIPTables X dump =
     (if dump = '''' then Ret createEmptyIPTables
      else
        case (case ReadFromString X dump of
                None \<Rightarrow> Panic
              | Some root \<Rightarrow> go_bind (root_children X root) (parse_tables X [])) of
          Ret ts \<Rightarrow> Ret (defaultIPTables ts)
        | Panic \<Rightarrow> Ret createEmptyIPTables
        | Diverge \<Rightarrow> Diverge)"


end
