(* ===== verification/IptablesTrace.thy ===== *)
theory IptablesTrace
  imports Iptables
begin

text \<open>
  What the traversal of a table computes. The reference is the semantics of the packet filter: a call
  evaluates the called chain and, when that ends without a verdict, goes on behind the call; a goto
  hands over to the other chain for good. The code keeps a stack of frames instead. The two agree as
  long as only the chain of the hook calls; with calls inside called chains they do not.
\<close>

section \<open>The reference semantics\<close>

datatype outcome = Decided Verdict | Failed trace_error | Fallthrough

text \<open>
  The verdict of a target that neither continues nor leaves the chain. Rejecting drops the packet and
  masquerading accepts it; marking and switching off connection tracking go on with the next rule.
\<close>

fun final_verdict :: "target \<Rightarrow> Verdict option" where
  "final_verdict AcceptTarget = Some VerdictAccept"
| "final_verdict DropTarget = Some VerdictDrop"
| "final_verdict RejectTarget = Some VerdictDrop"
| "final_verdict MasqueradeTarget = Some VerdictAccept"
| "final_verdict (DNATTarget dst rnd pers) = Some VerdictAccept"
| "final_verdict (SNATTarget src rnd fully pers) = Some VerdictAccept"
| "final_verdict TPProxyTarget = Some VerdictAccept"
| "final_verdict _ = None"

text \<open>Chains nest at most to the given depth; deeper ones do not return.\<close>

function eval_rules :: "invocation \<Rightarrow> nat \<Rightarrow> rule list \<Rightarrow> outcome go" where
  "eval_rules iv d [] = Ret Fallthrough"
| "eval_rules iv d (r # rs) =
     go_bind (rule_match (iv_cx iv) r (iv_packet iv) (iv_iif iv) (iv_oif iv)) (\<lambda>v.
       case v of
         Inl e \<Rightarrow> Ret (Failed (IPTablesRuleError r e))
       | Inr b \<Rightarrow>
           if \<not> b then eval_rules iv d rs
           else case final_verdict (r_target r) of
             Some v \<Rightarrow> Ret (Decided v)
           | None \<Rightarrow>
               (case r_target r of
                  ReturnTarget \<Rightarrow> Ret Fallthrough
                | CallTarget c \<Rightarrow>
                    (case d of
                       0 \<Rightarrow> Diverge
                     | Suc d' \<Rightarrow>
                         (case chain_at (iv_table iv) c of
                            None \<Rightarrow> Panic
                          | Some ch \<Rightarrow>
                              go_bind (eval_rules iv d' (ch_rules ch)) (\<lambda>res.
                                if res = Fallthrough then eval_rules iv d rs else Ret res)))
                | GotoTarget c \<Rightarrow>
                    (case d of
                       0 \<Rightarrow> Diverge
                     | Suc d' \<Rightarrow>
                         (case chain_at (iv_table iv) c of
                            None \<Rightarrow> Panic
                          | Some ch \<Rightarrow> eval_rules iv d' (ch_rules ch)))
                | _ \<Rightarrow> eval_rules iv d rs))"
  by pat_completeness auto
termination
  by (relation "(\<lambda>(iv, d, rs). d) <*mlex*> measure (\<lambda>(iv, d, rs). length rs)")
    (auto simp: wf_mlex mlex_less mlex_leq)

definition chain_outcome :: "invocation \<Rightarrow> outcome \<Rightarrow> Verdict \<times> trace_error option" where
  "chain_outcome iv res =
     (case res of
        Decided v \<Rightarrow> (v, None)
      | Failed e \<Rightarrow> (VerdictDrop, Some e)
      | Fallthrough \<Rightarrow> (ch_policy (iv_chain iv), None))"

section \<open>Where the code agrees\<close>

text \<open>The targets whose verdict the code takes from the packet filter.\<close>

fun plain_target :: "target \<Rightarrow> bool" where
  "plain_target RejectTarget = False"
| "plain_target MasqueradeTarget = False"
| "plain_target MarkTarget = False"
| "plain_target NoTrackTarget = False"
| "plain_target _ = True"

fun calls :: "target \<Rightarrow> bool" where
  "calls (CallTarget c) = True"
| "calls _ = False"

definition plain_chains :: "xTable \<Rightarrow> bool" where
  "plain_chains xt = list_all (\<lambda>(_, ch). list_all (\<lambda>r. plain_target (r_target r)) (ch_rules ch)) (xt_chains xt)"

text \<open>Only the given chain calls other chains.\<close>

definition one_level :: "xTable \<Rightarrow> string \<Rightarrow> bool" where
  "one_level xt hook =
     list_all (\<lambda>(c, ch). c = hook \<or> list_all (\<lambda>r. \<not> calls (r_target r)) (ch_rules ch)) (xt_chains xt)"

lemma chain_at_elem: "chain_at xt c = Some ch \<Longrightarrow> (c, ch) \<in> set (xt_chains xt)"
  by (simp add: chain_at_def map_of_SomeD)

section \<open>Frames\<close>

text \<open>What the loop over the stack does with the end of a frame.\<close>

definition after :: "invocation \<Rightarrow> stackFrame \<Rightarrow> chain_end go \<Rightarrow> trace_end go option" where
  "after iv fr res =
     (case res of
        Ret (None, st, tr) \<Rightarrow> trace_loop iv (Some fr) st tr
      | Ret (Some (v, err), st, tr) \<Rightarrow> Some (Ret (v, tr, err, Some fr, st))
      | Panic \<Rightarrow> Some Panic
      | Diverge \<Rightarrow> Some Diverge)"

lemma trace_loop_Nil: "trace_loop iv fr (stack_of []) tr = Some (Ret (ch_policy (iv_chain iv), tr, None, fr, stack_of []))"
  by (subst trace_loop.simps) simp

lemma trace_loop_frame:
  "trace_loop iv f0 (stack_of ((Some ch, pos) # fs)) tr =
   after iv (Some ch, pos) (chain_loop iv (drop pos (ch_rules ch)) pos (stack_of fs) tr)"
  by (subst trace_loop.simps) (auto simp: after_def split: go.splits option.splits prod.splits)

lemma trace_loop_missing: "trace_loop iv f0 (stack_of ((None, pos) # fs)) tr = Some Panic"
  by (subst trace_loop.simps) simp

definition real_frames :: "stackFrame list \<Rightarrow> bool" where
  "real_frames fs = list_all (\<lambda>f. fst f \<noteq> None) fs"

text \<open>A frame ends with a verdict or an error of the reference, or leaves the rest of the stack.\<close>

definition frame_done :: "invocation \<Rightarrow> outcome \<Rightarrow> stackFrame list \<Rightarrow> trace_end go option \<Rightarrow> bool" where
  "frame_done iv res fs t =
     (case res of
        Fallthrough \<Rightarrow> \<exists>f tr. fst f \<noteq> None \<and> t = trace_loop iv (Some f) (stack_of fs) tr
      | Decided v \<Rightarrow> \<exists>tr f fs'. real_frames (f # fs') \<and> t = Some (Ret (v, tr, None, Some f, stack_of fs'))
      | Failed e \<Rightarrow> \<exists>tr f fs'. real_frames (f # fs') \<and>
          t = Some (Ret (VerdictDrop, tr, Some e, Some f, stack_of fs')))"


definition simulated :: "invocation \<Rightarrow> nat \<Rightarrow> rule list \<Rightarrow> bool" where
  "simulated iv d rs =
     (\<forall>res pos fr fs tr. eval_rules iv d rs = Ret res \<longrightarrow> list_all (\<lambda>r. plain_target (r_target r)) rs \<longrightarrow>
        list_all (\<lambda>r. \<not> calls (r_target r)) rs \<or> drop pos (ch_rules (iv_chain iv)) = rs \<longrightarrow>
        real_frames (fr # fs) \<longrightarrow>
        frame_done iv res fs (after iv fr (chain_loop iv rs pos (stack_of fs) tr)))"

lemma simulatedD:
  assumes "simulated iv d rs" and "eval_rules iv d rs = Ret res"
    and "list_all (\<lambda>r. plain_target (r_target r)) rs"
    and "list_all (\<lambda>r. \<not> calls (r_target r)) rs \<or> drop pos (ch_rules (iv_chain iv)) = rs"
    and "real_frames (fr # fs)"
  shows "frame_done iv res fs (after iv fr (chain_loop iv rs pos (stack_of fs) tr))"
  using assms unfolding simulated_def by blast

text \<open>A chain other than that of the hook, entered by a call or a goto.\<close>

lemma simulated_enter:
  assumes "simulated iv d (ch_rules ch)" and "eval_rules iv d (ch_rules ch) = Ret res"
    and "plain_chains (iv_table iv)" and "one_level (iv_table iv) hook"
    and "chain_at (iv_table iv) hook = Some (iv_chain iv)" and "chain_at (iv_table iv) c = Some ch"
    and "real_frames fs"
  shows "frame_done iv res fs (trace_loop iv f0 (stack_of ((Some ch, 0) # fs)) tr)"
proof -
  have "list_all (\<lambda>r. plain_target (r_target r)) (ch_rules ch)"
    using assms(3) chain_at_elem [OF assms(6)] by (auto simp: plain_chains_def list_all_iff)
  moreover have "list_all (\<lambda>r. \<not> calls (r_target r)) (ch_rules ch) \<or> drop 0 (ch_rules (iv_chain iv)) = ch_rules ch"
    using assms(4,5,6) chain_at_elem [OF assms(6)] by (auto simp: one_level_def list_all_iff)
  ultimately show ?thesis
    using simulatedD [OF assms(1,2), of 0 "(Some ch, 0)" fs tr] assms(7)
    by (simp add: trace_loop_frame real_frames_def)
qed

lemma frame_done_fall:
  assumes "frame_done iv Fallthrough ((Some ch, pos) # fs) t" and "real_frames fs"
    and "\<And>tr. frame_done iv res fs (after iv (Some ch, pos) (chain_loop iv (drop pos (ch_rules ch)) pos (stack_of fs) tr))"
  shows "frame_done iv res fs t"
  using assms by (auto simp: frame_done_def trace_loop_frame)

lemma frame_done_early: "res \<noteq> Fallthrough \<Longrightarrow> frame_done iv res fs t \<Longrightarrow> frame_done iv res fs' t"
  by (cases res) (auto simp: frame_done_def)

lemma frame_done_now:
  assumes "real_frames (fr # fs)"
  shows "frame_done iv (Decided v) fs (after iv fr (Ret (Some (v, None), stack_of fs, tr)))"
    "frame_done iv (Failed e) fs (after iv fr (Ret (Some (VerdictDrop, Some e), stack_of fs, tr)))"
    "frame_done iv Fallthrough fs (after iv fr (Ret (None, stack_of fs, tr)))"
  using assms by (cases fr; fastforce simp: frame_done_def after_def real_frames_def)+

lemma drop_Cons_tl: "drop n xs = y # ys \<Longrightarrow> drop (Suc n) xs = ys"
  by (metis drop_Suc list.sel(3) tl_drop)

lemma simulated_rules:
  assumes "plain_chains (iv_table iv)" and "one_level (iv_table iv) hook"
    and "chain_at (iv_table iv) hook = Some (iv_chain iv)"
  shows "simulated iv d rs"
  using assms
proof (induction iv d rs rule: eval_rules.induct)
  case (1 iv d)
  then show ?case by (auto simp: simulated_def frame_done_now(3))
next
  case (2 iv d r rs)
  note table = 2(15-)
  have rs: "simulated iv d rs" using 2(1) [of False] table by simp
  show ?case unfolding simulated_def
  proof (intro allI impI)
    fix res pos fr fs tr
    assume ev: "eval_rules iv d (r # rs) = Ret res"
      and plain: "list_all (\<lambda>r. plain_target (r_target r)) (r # rs)"
      and ok: "list_all (\<lambda>r. \<not> calls (r_target r)) (r # rs) \<or> drop pos (ch_rules (iv_chain iv)) = r # rs"
      and fr: "real_frames (fr # fs)"
    have real: "real_frames fs" using fr by (simp add: real_frames_def)
    have ok': "list_all (\<lambda>r. \<not> calls (r_target r)) rs \<or> drop (pos + 1) (ch_rules (iv_chain iv)) = rs"
      using ok drop_Cons_tl [of pos "ch_rules (iv_chain iv)" r rs] by auto
    have next_rule: "frame_done iv res fs (after iv fr (chain_loop iv rs (pos + 1) (stack_of fs) tr'))"
      if "eval_rules iv d rs = Ret res" for tr'
      using simulatedD [OF rs that _ ok' fr] plain by simp
    obtain v where v: "rule_match (iv_cx iv) r (iv_packet iv) (iv_iif iv) (iv_oif iv) = Ret v"
      using ev by (auto simp: go_bind_Ret_iff)
    show "frame_done iv res fs (after iv fr (chain_loop iv (r # rs) pos (stack_of fs) tr))"
    proof (cases v)
      case (Inl e)
      then show ?thesis using ev v frame_done_now(2) [OF fr] by auto
    next
      case (Inr b)
      show ?thesis
      proof (cases b)
        case False
        then show ?thesis using ev v Inr next_rule by simp
      next
        case True
        show ?thesis
        proof (cases "r_target r")
          case (CallTarget c)
          obtain d' ch res1 where call: "d = Suc d'" "chain_at (iv_table iv) c = Some ch"
            "eval_rules iv d' (ch_rules ch) = Ret res1"
            "if res1 = Fallthrough then eval_rules iv d rs = Ret res else res = res1"
            using ev v Inr True CallTarget by (auto simp: go_bind_Ret_iff split: nat.splits option.splits if_splits)
          have sim: "simulated iv d' (ch_rules ch)"
            using 2(7) [of True c d' ch] call CallTarget table by simp
          let ?ret = "(Some (iv_chain iv), pos + 1)"
          have base: "drop (pos + 1) (ch_rules (iv_chain iv)) = rs"
            using ok CallTarget drop_Cons_tl [of pos "ch_rules (iv_chain iv)" r rs] by auto
          have enter: "frame_done iv res1 (?ret # fs)
              (trace_loop iv (Some fr) (stack_of ((Some ch, 0) # ?ret # fs)) tr')" for tr'
            using simulated_enter [OF sim call(3) table call(2)] real by (simp add: real_frames_def)
          have resume: "frame_done iv res fs
              (after iv ?ret (chain_loop iv (drop (pos + 1) (ch_rules (iv_chain iv))) (pos + 1) (stack_of fs) tr'))"
            if "res1 = Fallthrough" for tr'
            unfolding base
            using simulatedD [OF rs _ _ ok', of res ?ret fs] that call(4) plain real
            by (simp add: real_frames_def)
          have "frame_done iv res fs
              (trace_loop iv (Some fr) (stack_of ((Some ch, 0) # ?ret # fs)) tr')" for tr'
          proof (cases "res1 = Fallthrough")
            case True
            show ?thesis by (rule frame_done_fall [OF enter [unfolded True] real resume [OF True]])
          next
            case False
            then show ?thesis using frame_done_early [OF False enter] call(4) by simp
          qed
          then show ?thesis using v Inr True CallTarget call by (simp add: after_def)
        next
          case (GotoTarget c)
          obtain d' ch where goto: "d = Suc d'" "chain_at (iv_table iv) c = Some ch"
            "eval_rules iv d' (ch_rules ch) = Ret res"
            using ev v Inr True GotoTarget by (auto split: nat.splits option.splits)
          have "simulated iv d' (ch_rules ch)"
            using 2(9) [of True c d' ch] goto GotoTarget table by simp
          from simulated_enter [OF this goto(3) table goto(2) real] show ?thesis
            using v Inr True GotoTarget goto by (simp add: after_def)

        qed (use ev v Inr True next_rule plain frame_done_now [OF fr] in auto)
      qed
    qed
  qed
qed



lemma deferred_Ret:
  assumes "real_frames (f # fs)"
  shows "\<exists>tr'. deferred iv (v, tr, err, Some f, stack_of fs) = Ret (v, tr', err)"
proof (cases "v = VerdictAccept")
  case False
  have "\<exists>t'. go_foldl (\<lambda>t f. go_bind (buildTrace iv f) (\<lambda>l. Ret (t @ l))) t (map Some gs) = Ret t'"
    if "real_frames gs" for gs t
    using that by (induction gs arbitrary: t) (auto simp: real_frames_def buildTrace_def)
  from this [OF assms, of tr] show ?thesis
    using False by (auto simp: deferred_def stack_of_def)
qed (simp add: deferred_def)

lemma trace_packet_returns:
  assumes "chain_at xt hook = Some chain" and "plain_chains xt" and "one_level xt hook"
    and "iv = \<lparr>iv_cx = cx, iv_table = xt, iv_chain = chain, iv_packet = pk, iv_iif = iif, iv_oif = oif\<rparr>"
    and "eval_rules iv d (ch_rules chain) = Ret res"
  shows "\<exists>tr. tracePacket cx xt hook pk iif oif =
    Ret (fst (chain_outcome iv res), tr, snd (chain_outcome iv res))"
proof -
  have iv: "iv_table iv = xt" "iv_chain iv = chain" using assms(4) by simp_all
  have "simulated iv d (ch_rules chain)"
    using simulated_rules [of iv hook] assms by (simp add: iv)
  then have fin: "frame_done iv res [] (trace_loop iv None (stack_of [(Some chain, 0)]) [])"
    using simulated_enter [of iv d chain res hook hook "[]" None "[]"] assms
    by (simp add: iv real_frames_def)
  have "\<exists>tr f fs. real_frames (f # fs) \<and> trace_loop iv None (stack_of [(Some chain, 0)]) [] =
      Some (Ret (fst (chain_outcome iv res), tr, snd (chain_outcome iv res), Some f, stack_of fs))"
  proof (cases res)
    case Fallthrough
    then obtain f tr where "fst f \<noteq> None"
      "trace_loop iv None (stack_of [(Some chain, 0)]) [] = trace_loop iv (Some f) (stack_of []) tr"
      using fin unfolding Fallthrough frame_done_def outcome.case by blast
    then show ?thesis
      using Fallthrough
      by (intro exI [of _ tr] exI [of _ f] exI [of _ "[]"])
        (simp add: trace_loop_Nil chain_outcome_def real_frames_def)
  qed (use fin in \<open>simp_all add: frame_done_def chain_outcome_def\<close>)
  then obtain tr f fs where "real_frames (f # fs)" "trace_loop iv None (stack_of [(Some chain, 0)]) [] =
      Some (Ret (fst (chain_outcome iv res), tr, snd (chain_outcome iv res), Some f, stack_of fs))"
    by blast
  then show ?thesis
    using deferred_Ret [of f fs iv] assms(1)
    by (simp add: tracePacket_def Let_def assms(4) [symmetric])
qed

text \<open>
  C4: where only the chain of the hook calls other chains, no rule rejects,
  masquerades, marks or switches off tracking, and the reference semantics returns, the traversal of a
  table returns too and has the verdict and the error of the reference semantics, with the policy of the
  chain when no rule decides.
\<close>

theorem trace_packet_agrees:
  assumes "chain_at xt hook = Some chain" and "plain_chains xt" and "one_level xt hook"
    and "iv = \<lparr>iv_cx = cx, iv_table = xt, iv_chain = chain, iv_packet = pk, iv_iif = iif, iv_oif = oif\<rparr>"
    and "eval_rules iv d (ch_rules chain) = Ret res"
  shows "\<exists>tr. tracePacket cx xt hook pk iif oif =
    Ret (fst (chain_outcome iv res), tr, snd (chain_outcome iv res))"
  using assms by (rule trace_packet_returns)

text \<open>
  The reference returns at depth one for every table without gotos in which only the chain of the hook
  calls, all called chains exist and the matchers return.
\<close>

definition rule_returns :: "invocation \<Rightarrow> rule \<Rightarrow> bool" where
  "rule_returns iv r =
     ((\<exists>v. rule_match (iv_cx iv) r (iv_packet iv) (iv_iif iv) (iv_oif iv) = Ret v) \<and>
      (case r_target r of GotoTarget c \<Rightarrow> False | CallTarget c \<Rightarrow> chain_at (iv_table iv) c \<noteq> None | _ \<Rightarrow> True))"

lemma eval_rules_flat:
  assumes "list_all (rule_returns iv) rs" and "list_all (\<lambda>r. \<not> calls (r_target r)) rs"
  shows "\<exists>res. eval_rules iv d rs = Ret res"
  using assms
proof (induction rs)
  case (Cons r rs)
  then show ?case
    by (cases "r_target r") (auto simp: rule_returns_def split: sum.splits)
qed simp

lemma eval_rules_one_level:
  assumes "list_all (rule_returns iv) rs"
    and "\<And>c ch. chain_at (iv_table iv) c = Some ch \<Longrightarrow> CallTarget c \<in> r_target ` set rs \<Longrightarrow>
      list_all (rule_returns iv) (ch_rules ch) \<and> list_all (\<lambda>r. \<not> calls (r_target r)) (ch_rules ch)"
  shows "\<exists>res. eval_rules iv 1 rs = Ret res"
  using assms
proof (induction rs)
  case (Cons r rs)
  obtain v where v: "rule_match (iv_cx iv) r (iv_packet iv) (iv_iif iv) (iv_oif iv) = Ret v"
    using Cons.prems(1) by (auto simp: rule_returns_def)
  obtain res where rs: "eval_rules iv 1 rs = Ret res" using Cons by auto
  show ?case
  proof (cases "r_target r")
    case (CallTarget c)
    obtain ch where ch: "chain_at (iv_table iv) c = Some ch"
      using Cons.prems(1) CallTarget by (auto simp: rule_returns_def)
    obtain res1 where "eval_rules iv 0 (ch_rules ch) = Ret res1"
      using eval_rules_flat Cons.prems(2) [OF ch] CallTarget by fastforce
    then show ?thesis using v rs ch CallTarget by (auto split: sum.splits)
  qed (use v rs Cons.prems(1) in \<open>auto simp: rule_returns_def split: sum.splits\<close>)
qed simp

section \<open>Examples of tables\<close>

definition always :: "target \<Rightarrow> rule" where
  "always t = \<lparr>r_matches = [], r_target = t\<rparr>"

definition chain_of :: "string \<Rightarrow> rule list \<Rightarrow> string \<times> iptChain" where
  "chain_of name rs = (name, \<lparr>ch_name = name, ch_policy = VerdictAccept, ch_rules = rs\<rparr>)"

definition filter_table :: "(string \<times> iptChain) list \<Rightarrow> xTable" where
  "filter_table cs = \<lparr>xt_name = ''filter'', xt_chains = cs\<rparr>"

definition invoke :: "nf_context \<Rightarrow> xTable \<Rightarrow> string \<Rightarrow> packet \<Rightarrow> string \<Rightarrow> string \<Rightarrow> invocation" where
  "invoke cx xt hook pk iif oif =
     \<lparr>iv_cx = cx, iv_table = xt, iv_chain = the (chain_at xt hook), iv_packet = pk, iv_iif = iif, iv_oif = oif\<rparr>"

lemma rule_match_always [simp]: "rule_match cx (always t) pk iif oif = Ret (Inr True)"
  by (simp add: rule_match_def always_def)

lemma always_target [simp]: "r_target (always t) = t"
  by (simp add: always_def)

lemmas table_eval = chain_at_def filter_table_def chain_of_def invoke_def

text \<open>INPUT calls a chain that drops port 22 and then accepts.\<close>

definition flat_table :: xTable where
  "flat_table = filter_table
     [chain_of ''INPUT'' [always (CallTarget ''A''), always AcceptTarget],
      chain_of ''A'' [\<lparr>r_matches = [\<lparr>m_matcher = TCP ''dport'' 22, m_invert = False\<rparr>], r_target = DropTarget\<rparr>]]"

definition no_context :: nf_context where
  "no_context = \<lparr>cx_ipset = None, cx_router = None\<rparr>"

theorem trace_packet_agrees_witness:
  "\<exists>tr. tracePacket no_context flat_table ''INPUT'' sample_packet '''' '''' = Ret (VerdictAccept, tr, None)"
proof -
  have "eval_rules (invoke no_context flat_table ''INPUT'' sample_packet '''' '''') 1
      [always (CallTarget ''A''), always AcceptTarget] = Ret (Decided VerdictAccept)"
    "plain_chains flat_table" "one_level flat_table ''INPUT''"
    by code_simp+
  then show ?thesis
    using trace_packet_agrees [of flat_table "''INPUT''" "the (chain_at flat_table ''INPUT'')", OF _ _ _ refl,
        of no_context sample_packet "''''" "''''" 1 "Decided VerdictAccept"]
    by (simp add: flat_table_def table_eval chain_outcome_def)
qed

text \<open>
  INPUT calls A and then accepts; A calls B and then drops; B is empty. Every packet is dropped, but the
  code returns from B to INPUT and accepts.
\<close>

definition nested_table :: xTable where
  "nested_table = filter_table
     [chain_of ''INPUT'' [always (CallTarget ''A''), always AcceptTarget],
      chain_of ''A'' [always (CallTarget ''B''), always DropTarget],
      chain_of ''B'' []]"

text \<open>
  C13: a chain that calls from within a called chain is not resumed: there is a table
  whose rules drop every packet and by which the code accepts every packet.
\<close>

theorem nested_calls_accept:
  "eval_rules (invoke cx nested_table ''INPUT'' pk iif oif) 2
     (ch_rules (the (chain_at nested_table ''INPUT''))) = Ret (Decided VerdictDrop) \<and>
   (\<exists>tr. tracePacket cx nested_table ''INPUT'' pk iif oif = Ret (VerdictAccept, tr, None))"
proof
  show "eval_rules (invoke cx nested_table ''INPUT'' pk iif oif) 2
      (ch_rules (the (chain_at nested_table ''INPUT''))) = Ret (Decided VerdictDrop)"
    by (simp add: nested_table_def table_eval numeral_2_eq_2)
  show "\<exists>tr. tracePacket cx nested_table ''INPUT'' pk iif oif = Ret (VerdictAccept, tr, None)"
    by (simp add: nested_table_def table_eval tracePacket_def trace_loop_frame after_def deferred_def)
qed

text \<open>INPUT has a rule that does nothing and calls A; A calls B; B is empty. The policy accepts.\<close>

definition loop_table :: xTable where
  "loop_table = filter_table
     [chain_of ''INPUT'' [always NopTarget, always (CallTarget ''A'')],
      chain_of ''A'' [always (CallTarget ''B'')],
      chain_of ''B'' []]"

definition loop_states :: "stackFrame Stack \<Rightarrow> bool" where
  "loop_states st =
     (\<exists>fs. let base = chain_at loop_table ''INPUT'' in
        st = stack_of ((base, 0) # fs) \<or> st = stack_of ((base, 1) # fs) \<or>
        st = stack_of ((chain_at loop_table ''A'', 0) # (base, 2) # fs) \<or>
        st = stack_of ((chain_at loop_table ''B'', 0) # (base, 1) # fs))"

lemma loop_table_chains:
  "chain_at loop_table ''INPUT'' = Some (snd (chain_of ''INPUT'' [always NopTarget, always (CallTarget ''A'')]))"
  "chain_at loop_table ''A'' = Some (snd (chain_of ''A'' [always (CallTarget ''B'')]))"
  "chain_at loop_table ''B'' = Some (snd (chain_of ''B'' []))"
  by (simp_all add: loop_table_def filter_table_def chain_at_def chain_of_def)

lemma loop_states_diverge:
  assumes "trace_loop iv frame st tr = Some y"
  shows "iv = invoke cx loop_table ''INPUT'' pk iif oif \<longrightarrow> \<not> loop_states st"
  apply (rule trace_loop.raw_induct [OF _ assms,
      where P = "\<lambda>iv frame st tr y. iv = invoke cx loop_table ''INPUT'' pk iif oif \<longrightarrow> \<not> loop_states st"])
  subgoal premises prems for tl iv frame st tr y
  proof (intro impI notI)
    assume iv: "iv = invoke cx loop_table ''INPUT'' pk iif oif" and "loop_states st"
    then obtain fs where st: "st = stack_of ((chain_at loop_table ''INPUT'', 0) # fs) \<or>
        st = stack_of ((chain_at loop_table ''INPUT'', 1) # fs) \<or>
        st = stack_of ((chain_at loop_table ''A'', 0) # (chain_at loop_table ''INPUT'', 2) # fs) \<or>
        st = stack_of ((chain_at loop_table ''B'', 0) # (chain_at loop_table ''INPUT'', 1) # fs)"
      unfolding loop_states_def Let_def by blast
    have "\<exists>fr st2 tr2. loop_states st2 \<and> tl iv fr st2 tr2 = Some y"
      using st prems(2) unfolding iv loop_states_def Let_def
      by (elim disjE) (auto simp: invoke_def loop_table_chains chain_of_def numeral_2_eq_2)
    then show False using prems(1) iv by blast
  qed
  done

text \<open>
  C23: the traversal need not end although no chain calls itself: there is a table
  without cycles by which every packet falls through to the policy and on which the code loops for
  every packet.
\<close>

theorem nested_calls_diverge:
  "eval_rules (invoke cx loop_table ''INPUT'' pk iif oif) 2
     (ch_rules (the (chain_at loop_table ''INPUT''))) = Ret Fallthrough \<and>
   tracePacket cx loop_table ''INPUT'' pk iif oif = Diverge"
proof
  show "eval_rules (invoke cx loop_table ''INPUT'' pk iif oif) 2
      (ch_rules (the (chain_at loop_table ''INPUT''))) = Ret Fallthrough"
    by (simp add: loop_table_def table_eval numeral_2_eq_2)
  have "loop_states (stack_of [(chain_at loop_table ''INPUT'', 0)])"
    by (auto simp: loop_states_def Let_def)
  then have "trace_loop (invoke cx loop_table ''INPUT'' pk iif oif) None
      (stack_of [(chain_at loop_table ''INPUT'', 0)]) [] = None"
    using loop_states_diverge by (metis not_None_eq)
  then show "tracePacket cx loop_table ''INPUT'' pk iif oif = Diverge"
    by (simp add: tracePacket_def invoke_def loop_table_chains)
qed



section \<open>Targets the code treats differently\<close>

lemma chain_loop_skip:
  assumes "list_all (\<lambda>r. rule_match (iv_cx iv) r (iv_packet iv) (iv_iif iv) (iv_oif iv) = Ret (Inr False)) pre"
  shows "chain_loop iv (pre @ rs) pos st tr = chain_loop iv rs (pos + length pre) st tr"
  using assms by (induction pre arbitrary: pos) auto

lemma eval_rules_skip:
  assumes "list_all (\<lambda>r. rule_match (iv_cx iv) r (iv_packet iv) (iv_iif iv) (iv_oif iv) = Ret (Inr False)) pre"
  shows "eval_rules iv d (pre @ rs) = eval_rules iv d rs"
  using assms by (induction pre) auto

lemma tracePacket_decided:
  assumes "chain_at xt hook = Some chain"
    and "chain_loop (invoke cx xt hook pk iif oif) (ch_rules chain) 0 (stack_of []) [] =
      Ret (Some (v, err), stack_of [], tr)"
  shows "\<exists>tr'. tracePacket cx xt hook pk iif oif = Ret (v, tr', err)"
  using assms deferred_Ret [of "(Some chain, 0)" "[]" "invoke cx xt hook pk iif oif" v tr err]
  by (auto simp: tracePacket_def invoke_def trace_loop_frame after_def real_frames_def Let_def)

text \<open>
  C22: when the first rule of the chain of the hook that matches a packet rejects or
  masquerades, the packet filter drops or accepts the packet and the code fails with an unsupported
  target; when the rule marks the packet or switches off tracking, the packet filter goes on with the
  next rule and the code accepts.
\<close>

theorem target_verdicts:
  assumes "chain_at xt hook = Some chain" and "ch_rules chain = pre @ r # post"
    and "list_all (\<lambda>x. rule_match cx x pk iif oif = Ret (Inr False)) pre"
    and "rule_match cx r pk iif oif = Ret (Inr True)"
  shows "(r_target r = RejectTarget \<longrightarrow>
      eval_rules (invoke cx xt hook pk iif oif) d (ch_rules chain) = Ret (Decided VerdictDrop) \<and>
      (\<exists>tr. tracePacket cx xt hook pk iif oif = Ret (VerdictDrop, tr, Some (UnsupportedTarget r)))) \<and>
    (r_target r = MasqueradeTarget \<longrightarrow>
      eval_rules (invoke cx xt hook pk iif oif) d (ch_rules chain) = Ret (Decided VerdictAccept) \<and>
      (\<exists>tr. tracePacket cx xt hook pk iif oif = Ret (VerdictDrop, tr, Some (UnsupportedTarget r)))) \<and>
    (r_target r = MarkTarget \<or> r_target r = NoTrackTarget \<longrightarrow>
      eval_rules (invoke cx xt hook pk iif oif) d (ch_rules chain) =
        eval_rules (invoke cx xt hook pk iif oif) d post \<and>
      (\<exists>tr. tracePacket cx xt hook pk iif oif = Ret (VerdictAccept, tr, None)))"
  using assms(2-4) tracePacket_decided [OF assms(1), of cx pk iif oif]
    chain_loop_skip [of "invoke cx xt hook pk iif oif" pre] eval_rules_skip [of "invoke cx xt hook pk iif oif" pre]
  by (auto simp: invoke_def)

text \<open>A chain that rejects port 80 and then marks and drops the rest.\<close>

definition reject_table :: xTable where
  "reject_table = filter_table
     [chain_of ''INPUT''
        [\<lparr>r_matches = [\<lparr>m_matcher = TCP ''dport'' 22, m_invert = False\<rparr>], r_target = DropTarget\<rparr>,
         always RejectTarget],
      chain_of ''OUTPUT'' [always MarkTarget, always DropTarget],
      chain_of ''POSTROUTING'' [always MasqueradeTarget]]"

lemma reject_table_chains:
  "chain_at reject_table ''INPUT'' = Some (snd (chain_of ''INPUT''
     [\<lparr>r_matches = [\<lparr>m_matcher = TCP ''dport'' 22, m_invert = False\<rparr>], r_target = DropTarget\<rparr>, always RejectTarget]))"
  "chain_at reject_table ''OUTPUT'' = Some (snd (chain_of ''OUTPUT'' [always MarkTarget, always DropTarget]))"
  "chain_at reject_table ''POSTROUTING'' = Some (snd (chain_of ''POSTROUTING'' [always MasqueradeTarget]))"
  by (simp_all add: reject_table_def filter_table_def chain_at_def chain_of_def)

theorem target_verdicts_witness:
  "(\<exists>tr. tracePacket no_context reject_table ''INPUT'' sample_packet '''' '''' =
      Ret (VerdictDrop, tr, Some (UnsupportedTarget (always RejectTarget)))) \<and>
   (\<exists>tr. tracePacket no_context reject_table ''OUTPUT'' sample_packet '''' '''' = Ret (VerdictAccept, tr, None)) \<and>
   (\<exists>tr. tracePacket no_context reject_table ''POSTROUTING'' sample_packet '''' '''' =
      Ret (VerdictDrop, tr, Some (UnsupportedTarget (always MasqueradeTarget))))"
proof -
  have "rule_match no_context \<lparr>r_matches = [\<lparr>m_matcher = TCP ''dport'' 22, m_invert = False\<rparr>], r_target = DropTarget\<rparr>
      sample_packet '''' '''' = Ret (Inr False)"
    by code_simp
  then show ?thesis
    using target_verdicts [OF reject_table_chains(1), of "[_]" "always RejectTarget" "[]"]
      target_verdicts [OF reject_table_chains(2), of "[]" "always MarkTarget"]
      target_verdicts [OF reject_table_chains(3), of "[]" "always MasqueradeTarget"]
    by (simp add: chain_of_def)
qed


end
