(* ===== verification/Netfilter.thy ===== *)
theory Netfilter
  imports IptablesTrace
begin

unbundle bit_operations_syntax

text \<open>
  The hooks of the simulated network stack, \<^verbatim>\<open>src/pkg/skoop/netstack/netfilter.go\<close>: the tables a
  packet passes at a hook and in which order. Then what the matchers mean for the arguments that the
  packet filter prints, and what reading a dump of the tables gives.
\<close>

section \<open>Hooks\<close>

datatype NFHook =
  NFHookPreRouting | NFHookInput | NFHookForward | NFHookOutput | NFHookPostRouting | NFHookOther

fun NFHook_String :: "NFHook \<Rightarrow> string" where
  "NFHook_String NFHookPreRouting = ''PREROUTING''"
| "NFHook_String NFHookInput = ''INPUT''"
| "NFHook_String NFHookForward = ''FORWARD''"
| "NFHook_String NFHookOutput = ''OUTPUT''"
| "NFHook_String NFHookPostRouting = ''POSTROUTING''"
| "NFHook_String NFHookOther = ''INVALID''"

text \<open>The tables of a hook; a hook without an entry has none.\<close>

fun initHandles :: "NFHook \<Rightarrow> string list" where
  "initHandles NFHookPreRouting = [''raw'', ''mangle'', ''nat'']"
| "initHandles NFHookInput = [''mangle'', ''nat'', ''filter'']"
| "initHandles NFHookForward = [''mangle'', ''filter'']"
| "initHandles NFHookOutput = [''raw'', ''mangle'', ''nat'', ''filter'']"
| "initHandles NFHookPostRouting = [''mangle'', ''nat'']"
| "initHandles NFHookOther = []"

record SimulateNetfilter =
  nf_iptables :: IPTables
  nf_ctx :: nf_context
  nf_handles :: "NFHook \<Rightarrow> string list"

definition NewSimulateNetfilter :: "IPTables \<Rightarrow> IPSetManager option \<Rightarrow> SimulateRouter option \<Rightarrow> SimulateNetfilter" where
  "NewSimulateNetfilter ipt ipset router =
     \<lparr>nf_iptables = ipt, nf_ctx = \<lparr>cx_ipset = ipset, cx_router = router\<rparr>, nf_handles = initHandles\<rparr>"

definition doIpt :: "SimulateNetfilter \<Rightarrow> string \<Rightarrow> NFHook \<Rightarrow> packet \<Rightarrow> string \<Rightarrow> string \<Rightarrow> trace_result" where
  "doIpt nf table hook pk iif oif =
     TracePacket (nf_ctx nf) (nf_iptables nf) (NFHook_String hook) table pk iif oif"

datatype hook_error = ErrIPTablesUnsupported | IPTableDropError trace | HookTraceError trace_error

type_synonym hook_result = "(Verdict \<times> packet \<times> hook_error option) go"

fun hook_loop :: "SimulateNetfilter \<Rightarrow> NFHook \<Rightarrow> packet \<Rightarrow> string \<Rightarrow> string \<Rightarrow> string list \<Rightarrow> hook_result" where
  "hook_loop nf hook pk iif oif [] = Ret (VerdictAccept, pk, None)"
| "hook_loop nf hook pk iif oif (t # ts) =
     go_bind (doIpt nf t hook pk iif oif) (\<lambda>(v, tr, err).
       case err of
         Some e \<Rightarrow> Ret (v, pk, Some (HookTraceError e))
       | None \<Rightarrow>
           if v = VerdictDrop then Ret (VerdictDrop, pk, Some (IPTableDropError tr))
           else hook_loop nf hook pk iif oif ts)"

definition Hook :: "SimulateNetfilter \<Rightarrow> NFHook \<Rightarrow> packet \<Rightarrow> string \<Rightarrow> string \<Rightarrow> hook_result" where
  "Hook nf hook pk iif oif =
     (case nf_iptables nf of
        emptyIPTables _ \<Rightarrow> Ret (VerdictAccept, pk, Some ErrIPTablesUnsupported)
      | defaultIPTables _ \<Rightarrow> hook_loop nf hook pk iif oif (nf_handles nf hook))"

section \<open>The verdict of a hook\<close>

text \<open>
  The outcome of a table by the reference semantics, for tables in the class on which the traversal
  agrees with it. A table that is not there accepts.
\<close>

definition reference_outcome ::
  "SimulateNetfilter \<Rightarrow> NFHook \<Rightarrow> packet \<Rightarrow> string \<Rightarrow> string \<Rightarrow> string \<Rightarrow> Verdict \<times> trace_error option \<Rightarrow> bool" where
  "reference_outcome nf hook pk iif oif t out =
     (case nf_iptables nf of
        emptyIPTables _ \<Rightarrow> False
      | defaultIPTables ts \<Rightarrow>
          (case map_of ts t of
             None \<Rightarrow> out = (VerdictAccept, None)
           | Some xt \<Rightarrow>
               plain_chains xt \<and> one_level xt (NFHook_String hook) \<and> chain_at xt (NFHook_String hook) \<noteq> None \<and>
               (\<exists>d res. let iv = invoke (nf_ctx nf) xt (NFHook_String hook) pk iif oif in
                  eval_rules iv d (ch_rules (iv_chain iv)) = Ret res \<and> out = chain_outcome iv res)))"

lemma reference_outcome_doIpt:
  assumes "reference_outcome nf hook pk iif oif t out"
  shows "\<exists>tr. doIpt nf t hook pk iif oif = Ret (fst out, tr, snd out)"
proof -
  obtain ts where ts: "nf_iptables nf = defaultIPTables ts"
    using assms by (cases "nf_iptables nf") (auto simp: reference_outcome_def)
  show ?thesis
  proof (cases "map_of ts t")
    case None
    then show ?thesis using assms ts by (simp add: reference_outcome_def doIpt_def)
  next
    case (Some xt)
    let ?hook = "NFHook_String hook"
    let ?iv = "invoke (nf_ctx nf) xt ?hook pk iif oif"
    obtain chain where chain: "chain_at xt ?hook = Some chain"
      using assms ts Some by (auto simp: reference_outcome_def)
    obtain d res where ref: "plain_chains xt" "one_level xt ?hook"
      "eval_rules ?iv d (ch_rules chain) = Ret res" "out = chain_outcome ?iv res"
      using assms ts Some chain by (auto simp: reference_outcome_def Let_def invoke_def)
    have "\<exists>tr. tracePacket (nf_ctx nf) xt ?hook pk iif oif = Ret (fst out, tr, snd out)"
      unfolding ref(4) by (rule trace_packet_returns [OF chain ref(1,2) _ ref(3)]) (simp add: invoke_def chain)
    then show ?thesis using ts Some by (simp add: doIpt_def)
  qed
qed

fun first_refusal :: "(Verdict \<times> trace_error option) list \<Rightarrow> Verdict \<times> trace_error option" where
  "first_refusal [] = (VerdictAccept, None)"
| "first_refusal (out # outs) = (if out = (VerdictAccept, None) then first_refusal outs else out)"

lemma hook_loop_reference:
  assumes "list_all2 (reference_outcome nf hook pk iif oif) ts outs"
  shows "\<exists>err. hook_loop nf hook pk iif oif ts = Ret (fst (first_refusal outs), pk, err) \<and>
    (err = None \<longleftrightarrow> first_refusal outs = (VerdictAccept, None))"
  using assms
proof (induction ts outs rule: list_all2_induct)
  case (Cons t ts out outs)
  obtain tr where tr: "doIpt nf t hook pk iif oif = Ret (fst out, tr, snd out)"
    using reference_outcome_doIpt [OF Cons.hyps(1)] by blast
  obtain v e where out: "out = (v, e)" by (cases out)
  show ?case
    using tr Cons.IH by (cases e; cases v) (auto simp: out)
qed simp

text \<open>
  C9: at every hook the packet passes the tables of the hook in their order. If each of
  these tables has the chain of the hook, calls chains from that chain only, has none of the targets
  REJECT, MASQUERADE, MARK and NOTRACK, and returns by the reference semantics, then the hook
  returns, leaves the packet unchanged, and its verdict is that of the first table that does not
  accept by the reference semantics, with an error exactly when there is one.
\<close>

theorem hook_follows_tables:
  assumes "nf = NewSimulateNetfilter (defaultIPTables ts) ipset router"
    and "list_all2 (reference_outcome nf hook pk iif oif) (initHandles hook) outs"
  shows "\<exists>err. Hook nf hook pk iif oif = Ret (fst (first_refusal outs), pk, err) \<and>
    (err = None \<longleftrightarrow> first_refusal outs = (VerdictAccept, None))"
  using hook_loop_reference [OF assms(2)] by (simp add: assms(1) Hook_def NewSimulateNetfilter_def)

theorem hook_follows_tables_witness:
  "\<exists>err. Hook (NewSimulateNetfilter (defaultIPTables [(''filter'', flat_table)]) None None)
     NFHookInput sample_packet '''' '''' = Ret (VerdictAccept, sample_packet, err) \<and> err = None"
proof -
  let ?nf = "NewSimulateNetfilter (defaultIPTables [(''filter'', flat_table)]) None None"
  let ?iv = "invoke no_context flat_table ''INPUT'' sample_packet '''' ''''"
  have ev: "eval_rules ?iv 1 (ch_rules (iv_chain ?iv)) = Ret (Decided VerdictAccept)"
    "plain_chains flat_table" "one_level flat_table ''INPUT''" "chain_at flat_table ''INPUT'' \<noteq> None"
    by code_simp+
  have "reference_outcome ?nf NFHookInput sample_packet '''' '''' ''filter'' (VerdictAccept, None)"
    unfolding reference_outcome_def
    using ev by (auto simp: NewSimulateNetfilter_def no_context_def Let_def chain_outcome_def
        intro!: exI [of _ 1] exI [of _ "Decided VerdictAccept"])
  then have "list_all2 (reference_outcome ?nf NFHookInput sample_packet '''' '''') (initHandles NFHookInput)
      [(VerdictAccept, None), (VerdictAccept, None), (VerdictAccept, None)]"
    by (simp add: reference_outcome_def NewSimulateNetfilter_def)
  from hook_follows_tables [OF refl this] show ?thesis by simp
qed

end
