(* ===== verification/IptablesRead.thy ===== *)
theory IptablesRead
  imports Netfilter
begin

unbundle bit_operations_syntax

text \<open>
  What the rules of a dump mean to the simulation: the arguments that the packet filter prints for
  addresses, marks and sets, and the tables that reading a dump gives.
\<close>

section \<open>Printed arguments\<close>

text \<open>
  C28: a condition on the source or destination address with a printed IPv4 network holds
  exactly for the packets whose address agrees with the network in the bits of the prefix.
\<close>

theorem address_match:
  assumes "length a = 4" and "n \<le> 32" and "To4 (p_Src pk) = Some s" and "To4 (p_Dst pk) = Some t"
  shows "Match cx (IP ''s'' (dotted a @ ''/'' @ decimal n)) pk iif oif =
      Ret (Inr (take n (addr_bits a) = take n (addr_bits s))) \<and>
    Match cx (IP ''d'' (dotted a @ ''/'' @ decimal n)) pk iif oif =
      Ret (Inr (take n (addr_bits a) = take n (addr_bits t)))"
  using IPMatchPrefix_v4 [OF assms(1,2,3)] IPMatchPrefix_v4 [OF assms(1,2,4)]
  by (simp add: IP_Match_def prefix_result_def)

theorem address_match_witness:
  "Match no_context (IP ''d'' (dotted [10, 1, 0, 0] @ ''/'' @ decimal 16)) sample_packet '''' '''' =
   Ret (Inr (take 16 (addr_bits [10, 1, 0, 0]) = take 16 (addr_bits [10, 1, 2, 3])))"
proof -
  have "To4 (p_Src sample_packet) = Some [10, 9, 9, 9]" "To4 (p_Dst sample_packet) = Some [10, 1, 2, 3]"
    by (simp_all add: sample_packet_def To4_def)
  then show ?thesis using address_match [of "[10, 1, 0, 0]" 16 sample_packet] by simp
qed

text \<open>The printed form of a mark, \<^verbatim>\<open>0x4000/0x4000\<close>.\<close>

definition show_mark :: "u32 \<Rightarrow> u32 \<Rightarrow> string" where
  "show_mark v m = ''0x'' @ radix 16 (unat v) @ ''/0x'' @ radix 16 (unat m)"

lemma hex_no_slash: "CHR ''/'' \<notin> set (radix 16 n)"
  using radix_plain [of 16 "CHR ''/''"] by simp

lemma Split_show_mark:
  "Split (CHR ''/'') (show_mark v m) = [''0x'' @ radix 16 (unat v), ''0x'' @ radix 16 (unat m)]"
  using Split_Cons_append [of "CHR ''/''" "''0x'' @ radix 16 (unat v)" "''0x'' @ radix 16 (unat m)"]
    Split_single [of "CHR ''/''" "''0x'' @ radix 16 (unat m)"] hex_no_slash
  by (simp add: show_mark_def)

lemma clamp_word: "word_of_int (fst (clamp 32 (unat (v :: u32)))) = min v 0x7fffffff"
proof -
  have "unat v < 2 ^ 31 \<longleftrightarrow> v \<le> 0x7fffffff" by (simp add: word_le_nat_alt) linarith
  then show ?thesis by (auto simp: clamp_def min_def)
qed

text \<open>
  C29: a condition on the mark compares the masked mark, but both numbers are read as signed:
  a value or a mask with the highest bit set is replaced by \<^verbatim>\<open>0x7fffffff\<close>.
\<close>

theorem mark_clamped:
  "Match cx (Mark opt (show_mark v m)) pk iif oif =
   Ret (Inr (min v 0x7fffffff = p_Mark pk AND min m 0x7fffffff))"
proof -
  have "CHR ''/'' \<in> set (show_mark v m)" by (simp add: show_mark_def)
  then have "parseMarkValue (show_mark v m) = (min v 0x7fffffff, min m 0x7fffffff)"
    by (simp add: parseMarkValue_def Split_show_mark ParseInt_hex [simplified] clamp_word [simplified])
  then show ?thesis by (simp add: Mark_Match_def)
qed

text \<open>
  The members of sets as the kernel lists them: \<^verbatim>\<open>10.1.2.3,tcp:80\<close> in a set of addresses and ports, with
  a second address behind another comma in a set of triples.
\<close>

definition show_member :: "u8 list \<times> string \<times> u16 \<Rightarrow> string" where
  "show_member m = (case m of (a, proto, port) \<Rightarrow> dotted a @ '','' @ proto @ '':'' @ decimal (unat port))"

definition is_member :: "u8 list \<times> string \<times> u16 \<Rightarrow> bool" where
  "is_member m = (case m of (a, proto, port) \<Rightarrow> length a = 4 \<and> proto \<in> {TCP_proto, UDP_proto})"

lemma append_sep_inj:
  assumes "c \<notin> set xs" and "c \<notin> set xs'"
  shows "xs @ c # ys = xs' @ c # ys' \<longleftrightarrow> xs = xs' \<and> ys = ys'"
  using assms
proof (induction xs arbitrary: xs')
  case Nil
  then show ?case by (cases xs') auto
next
  case (Cons x xs)
  then show ?case by (cases xs') auto
qed

lemma dotted_no_comma: "CHR '','' \<notin> set (dotted a)"
  using dotted_chars [of "CHR '',''" a] by (auto simp: is_digit_def)

lemma decimal_no_comma: "CHR '','' \<notin> set (decimal n)"
  using radix_plain [of 10 "CHR '',''"] by simp

lemma proto_plain: "proto \<in> {TCP_proto, UDP_proto} \<Longrightarrow> CHR '','' \<notin> set proto \<and> CHR '':'' \<notin> set proto"
  by (auto simp: TCP_proto_def UDP_proto_def)

lemma show_member_inj:
  assumes "is_member m" and "is_member m'"
  shows "show_member m = show_member m' \<longleftrightarrow> m = m'"
proof -
  obtain a p q where m: "m = (a, p, q)" by (cases m)
  obtain a' p' q' where m': "m' = (a', p', q')" by (cases m')
  have "length a = 4" "length a' = 4" "CHR '':'' \<notin> set p" "CHR '':'' \<notin> set p'"
    using assms proto_plain by (auto simp: is_member_def m m')
  then show ?thesis
    using append_sep_inj [OF dotted_no_comma dotted_no_comma, of a _ a'] append_sep_inj [of "CHR '':''" p p']
    by (simp add: show_member_def m m' dotted_inj decimal_inj word_unat_eq_iff)
qed

text \<open>The part of a packet that a set condition looks at, by its direction flags.\<close>

definition packet_member :: "string \<Rightarrow> string \<Rightarrow> u8 list \<Rightarrow> u8 list \<Rightarrow> packet \<Rightarrow> u8 list \<times> string \<times> u16" where
  "packet_member f g src dst pk =
     (if f = ''src'' then src else dst, p_Protocol pk, if g = ''src'' then p_Sport pk else p_Dport pk)"

lemma Fields_two:
  assumes "w \<noteq> []" and "v \<noteq> []" and "\<forall>c \<in> set (w @ v). \<not> is_space c"
  shows "Fields (w @ '' '' @ v) = [w, v]"
proof -
  have "takeWhile (\<lambda>x. \<not> is_space x) xs = xs \<and> dropWhile (\<lambda>x. \<not> is_space x) xs = []"
    if "\<forall>c \<in> set xs. \<not> is_space c" for xs
    using that by (simp add: takeWhile_eq_all_conv dropWhile_eq_Nil_conv)
  with assms have one: "Fields v = [v]"
    by (cases v) (simp_all del: dropWhile_eq_Nil_conv takeWhile_eq_all_conv)
  have "takeWhile (\<lambda>x. \<not> is_space x) (xs @ CHR '' '' # v) = xs \<and>
      dropWhile (\<lambda>x. \<not> is_space x) (xs @ CHR '' '' # v) = CHR '' '' # v" if "\<forall>c \<in> set xs. \<not> is_space c" for xs
    using that by (induction xs) (simp_all add: is_space_def)
  with assms one show ?thesis by (cases w) (simp_all add: is_space_def)
qed

lemma key_is_member:
  assumes "To4 (p_Src pk) = Some src" and "To4 (p_Dst pk) = Some dst" and "{f, g} \<subseteq> {''src'', ''dst''}"
  shows "key_ip_port pk (f # g # fs) = show_member (packet_member f g src dst pk)"
  using assms IP_String_v4 [OF assms(1)] IP_String_v4 [OF assms(2)]
  by (auto simp: key_ip_port_def set_ip_def set_port_def show_member_def packet_member_def)

lemma packet_is_member:
  assumes "To4 (p_Src pk) = Some src" and "To4 (p_Dst pk) = Some dst" and "p_Protocol pk \<in> {TCP_proto, UDP_proto}"
  shows "is_member (packet_member f g src dst pk)"
  using assms by (auto simp: is_member_def packet_member_def To4_def split: if_splits)

lemma flag_plain:
  assumes "f \<in> {''src'', ''dst''}"
  shows "list_all (\<lambda>c. \<not> is_space c) f" and "CHR '','' \<notin> set f"
proof -
  from assms consider "f = ''src''" | "f = ''dst''" by blast
  then show "list_all (\<lambda>c. \<not> is_space c) f" by cases (simp_all add: is_space_def)
  from assms consider "f = ''src''" | "f = ''dst''" by blast
  then show "CHR '','' \<notin> set f" by cases simp_all
qed

text \<open>
  C31: a condition on a set of addresses and ports, with any two of the direction flags
  \<^verbatim>\<open>src\<close> and \<^verbatim>\<open>dst\<close>, holds for an IPv4 packet of TCP or UDP exactly when the address, the protocol and the
  port that the flags select are a member of the set, for sets whose members are listed
  in the form the kernel prints.
\<close>

theorem set_match_members:
  assumes "cx_ipset cx = Some manager" and "GetIPSet manager name = Some ips"
    and "is_Type ips = ''hash:ip,port''" and "fst ` set (is_Members ips) = show_member ` set ms"
    and "list_all is_member ms" and "name \<noteq> []" and "list_all (\<lambda>c. \<not> is_space c) name"
    and "f \<in> {''src'', ''dst''}" and "g \<in> {''src'', ''dst''}"
    and "To4 (p_Src pk) = Some src" and "To4 (p_Dst pk) = Some dst" and "p_Protocol pk \<in> {TCP_proto, UDP_proto}"
  shows "Match cx (Set opt (name @ '' '' @ f @ '','' @ g)) pk iif oif =
    Ret (Inr (packet_member f g src dst pk \<in> set ms))"
proof -
  let ?m = "packet_member f g src dst pk"
  have "list_all (\<lambda>c. \<not> is_space c) (name @ f @ '','' @ g)"
    using assms(7) flag_plain(1) [OF assms(8)] flag_plain(1) [OF assms(9)]
    unfolding list_all_append by (simp add: is_space_def)
  then have "\<forall>c \<in> set (name @ f @ '','' @ g). \<not> is_space c" unfolding list_all_iff .
  then have args: "parseSetArgument (name @ '' '' @ f @ '','' @ g) = Some (name, f @ '','' @ g)"
    using Fields_two [of name "f @ '','' @ g"] assms(6) by (simp add: parseSetArgument_def)
  have pieces: "Split (CHR '','') (f @ '','' @ g) = [f, g]"
    using flag_plain(2) [OF assms(8)] flag_plain(2) [OF assms(9)] by simp
  have key: "key_ip_port pk [f, g] = show_member ?m"
    using key_is_member [OF assms(10,11), of f g] assms(8,9) by simp
  have "map_of (is_Members ips) (show_member ?m) \<noteq> None \<longleftrightarrow> show_member ?m \<in> show_member ` set ms"
    using assms(4) by (simp add: map_of_eq_None_iff)
  also have "\<dots> \<longleftrightarrow> ?m \<in> set ms"
    using show_member_inj [OF packet_is_member [OF assms(10,11,12)]] assms(5) by (auto simp: list_all_iff)
  finally have "Set_Match cx (name @ '' '' @ f @ '','' @ g) pk = Ret (Inr (?m \<in> set ms))"
    unfolding Set_Match_def args option.case prod.case assms(1,2) Let_def pieces
    by (simp add: assms(3) key)
  then show ?thesis by simp
qed

text \<open>A set with one service, and a packet to it.\<close>

definition service_context :: nf_context where
  "service_context = \<lparr>cx_ipset = Some (NewIPSetManager
     [\<lparr>is_Name = ''KUBE-CLUSTER-IP'', is_Type = ''hash:ip,port'', is_Members = [(''10.1.2.3,tcp:80'', ''10.1.2.3,tcp:80'')]\<rparr>]),
     cx_router = None\<rparr>"

theorem set_match_members_witness:
  "Match service_context (Set '''' (''KUBE-CLUSTER-IP'' @ '' '' @ ''dst'' @ '','' @ ''dst'')) sample_packet '''' '''' =
     Ret (Inr True)"
proof -
  have "show_member ([10, 1, 2, 3], TCP_proto, 80) = ''10.1.2.3,tcp:80''"
    by code_simp
  then show ?thesis
    using set_match_members [of service_context _ "''KUBE-CLUSTER-IP''" _ "[([10, 1, 2, 3], TCP_proto, 80)]" "''dst''" "''dst''"
        sample_packet "[10, 9, 9, 9]" "[10, 1, 2, 3]"]
    by (simp add: service_context_def NewIPSetManager_def GetIPSet_def is_member_def is_space_def sample_packet_def
        To4_def packet_member_def)
qed

text \<open>The key in a set of triples has the second address behind the first three parts.\<close>

lemma triple_key_inj:
  assumes "is_member m" and "is_member m'" and "length b = 4" and "length b' = 4"
  shows "show_member m @ '','' @ dotted b = show_member m' @ '','' @ dotted b' \<longleftrightarrow> m = m' \<and> b = b'"
proof -
  obtain a p q where m: "m = (a, p, q)" by (cases m)
  obtain a' p' q' where m': "m' = (a', p', q')" by (cases m')
  have "CHR '':'' \<notin> set p" "CHR '':'' \<notin> set p'" "length a = 4" "length a' = 4"
    using assms(1,2) proto_plain by (auto simp: is_member_def m m')
  then show ?thesis
    using append_sep_inj [OF dotted_no_comma dotted_no_comma, of a _ a'] append_sep_inj [of "CHR '':''" p p']
      append_sep_inj [OF decimal_no_comma decimal_no_comma] assms(3,4)
    by (simp add: show_member_def m m' dotted_inj decimal_inj word_unat_eq_iff)
qed

section \<open>Reading is all or nothing\<close>

lemma parse_expr_Ret: "parse_expr X key conds ex = Ret conds' \<Longrightarrow> createMatcher key (Tag X ex) (Text X ex) \<noteq> None"
  by (auto simp: parse_expr_def split: option.splits)

lemma parse_expr_not_Diverge: "parse_expr X key conds ex \<noteq> Diverge"
  by (simp add: parse_expr_def split: option.splits)

lemma go_bind_Diverge: "go_bind m f = Diverge \<longleftrightarrow> m = Diverge \<or> (\<exists>x. m = Ret x \<and> f x = Diverge)"
  by (cases m) auto

lemma go_foldl_not_Diverge: "(\<And>s x. f s x \<noteq> Diverge) \<Longrightarrow> go_foldl f s xs \<noteq> Diverge"
  by (induction xs arbitrary: s) (auto simp: go_bind_Diverge)

lemma go_foldl_each: "go_foldl f s xs = Ret s' \<Longrightarrow> x \<in> set xs \<Longrightarrow> \<exists>t t'. f t x = Ret t'"
  by (induction xs arbitrary: s) (auto simp: go_bind_Ret_iff)

lemma parse_modules_each:
  assumes "parse_modules X conds ks = Ret (Some conds')" and "k \<in> set ks" and "ex \<in> set (ChildElements X k)"
  shows "createMatcher (Tag X k) (Tag X ex) (Text X ex) \<noteq> None"
  using assms
proof (induction ks arbitrary: conds)
  case (Cons k' ks)
  obtain c where c: "go_foldl (parse_expr X (Tag X k')) conds (ChildElements X k') = Ret c"
    "parse_modules X c ks = Ret (Some conds')"
    using Cons.prems(1) by (auto simp: go_bind_Ret_iff split: if_splits)
  show ?case
  proof (cases "k = k'")
    case True
    then obtain t t' where "parse_expr X (Tag X k) t ex = Ret t'"
      using go_foldl_each [OF c(1), of ex] Cons.prems(3) by auto
    then show ?thesis by (rule parse_expr_Ret)
  next
    case False
    then show ?thesis using Cons.IH [OF c(2)] Cons.prems by simp
  qed
qed simp

lemma parse_rules_each:
  "parse_rules X rs xs = Ret (Some rs') \<Longrightarrow> x \<in> set xs \<Longrightarrow> \<exists>r. parseOneRule X x = Ret (Some r)"
  by (induction xs arbitrary: rs) (auto simp: go_bind_Ret_iff split: option.splits)

lemma parse_chains_each:
  "parse_chains X m xs = Ret (Some m') \<Longrightarrow> x \<in> set xs \<Longrightarrow> \<exists>rs. parse_rules X [] (ChildElements X x) = Ret (Some rs)"
  by (induction xs arbitrary: m) (auto simp: go_bind_Ret_iff Let_def split: option.splits)

lemma parse_tables_each:
  "parse_tables X ts xs = Ret ts' \<Longrightarrow> x \<in> set xs \<Longrightarrow> \<exists>t. parseOneTable X x = Ret (Some t)"
  by (induction xs arbitrary: ts) (auto simp: go_bind_Ret_iff split: option.splits)

lemma parseOneTable_chains:
  "parseOneTable X x = Ret (Some t) \<Longrightarrow> parse_chains X [] (ChildElements X x) = Ret (Some (xt_chains t))"
  by (auto simp: parseOneTable_def go_bind_Ret_iff split: option.splits)

lemma parse_not_Diverge:
  "parse_modules X conds ks \<noteq> Diverge" "parse_action X act \<noteq> Diverge" "parseOneRule X x \<noteq> Diverge"
  "parse_rules X rs xs \<noteq> Diverge" "parse_chains X m xs \<noteq> Diverge" "parseOneTable X x \<noteq> Diverge"
  "parse_tables X ts xs \<noteq> Diverge"
proof -
  show modules: "parse_modules X conds ks \<noteq> Diverge" for conds ks
    by (induction ks arbitrary: conds) (auto simp: go_bind_Diverge go_foldl_not_Diverge parse_expr_not_Diverge)
  show action: "parse_action X act \<noteq> Diverge" for act
    by (auto simp: parse_action_def split: list.splits)
  show rule: "parseOneRule X x \<noteq> Diverge" for x
    using modules action by (auto simp: parseOneRule_def go_bind_Diverge split: option.splits list.splits)
  show rules: "parse_rules X rs xs \<noteq> Diverge" for rs xs
    using rule by (induction xs arbitrary: rs) (auto simp: go_bind_Diverge split: option.splits)
  show chains: "parse_chains X m xs \<noteq> Diverge" for m xs
    using rules by (induction xs arbitrary: m) (auto simp: go_bind_Diverge Let_def split: option.splits)
  show table: "parseOneTable X x \<noteq> Diverge" for x
    using chains by (auto simp: parseOneTable_def go_bind_Diverge split: option.splits)
  show "parse_tables X ts xs \<noteq> Diverge" for ts xs
    using table by (induction xs arbitrary: ts) (auto simp: go_bind_Diverge split: option.splits)
qed

text \<open>
  C27: if one rule anywhere in a dump has a condition of the TCP or UDP module whose
  value is not a single number, such as a range of ports, no table is read at all: the result is the
  empty tables, by which every hook accepts every packet and reports that it cannot tell.
\<close>

theorem port_list_empties_tables:
  assumes "dump \<noteq> ''''" and "ReadFromString X dump = Some (Some root)"
    and "tab \<in> set (ChildElements X root)" and "chn \<in> set (ChildElements X tab)"
    and "rul \<in> set (ChildElements X chn)" and "FindElement X rul ''conditions'' = Some conds"
    and "k \<in> set (ChildElements X conds)" and "Tag X k = ''tcp'' \<or> Tag X k = ''udp''"
    and "ex \<in> set (ChildElements X k)" and "setUint (Text X ex) = None"
  shows "ParseIPTables X dump = Ret createEmptyIPTables \<and>
    Hook (NewSimulateNetfilter createEmptyIPTables ipset router) hook pk iif oif =
      Ret (VerdictAccept, pk, Some ErrIPTablesUnsupported)"
proof -
  have "parse_tables X [] (ChildElements X root) \<noteq> Ret ts" for ts
  proof
    assume "parse_tables X [] (ChildElements X root) = Ret ts"
    from parse_tables_each [OF this assms(3)] obtain t where "parseOneTable X tab = Ret (Some t)" ..
    from parse_chains_each [OF parseOneTable_chains [OF this] assms(4)] obtain rs where
      "parse_rules X [] (ChildElements X chn) = Ret (Some rs)" ..
    from parse_rules_each [OF this assms(5)] obtain r where "parseOneRule X rul = Ret (Some r)" ..
    then obtain ms where "parse_modules X [] (ChildElements X conds) = Ret (Some ms)"
      using assms(6) by (auto simp: parseOneRule_def go_bind_Ret_iff split: option.splits)
    from parse_modules_each [OF this assms(7,9)] show False
      using assms(8,10) by (auto simp: createMatcher_def)
  qed
  then have "parse_tables X [] (ChildElements X root) = Panic"
    using parse_not_Diverge(7) [of X "[]" "ChildElements X root"]
    by (cases "parse_tables X [] (ChildElements X root)") auto
  then show ?thesis
    using assms(1,2)
    by (simp add: ParseIPTables_def root_children_def Hook_def NewSimulateNetfilter_def createEmptyIPTables_def)
qed



text \<open>A dump with one rule for the ports 8000 to 9000.\<close>

datatype xml = Elem (el_tag: string) (el_attrs: "(string \<times> string) list") (el_text: string) (el_children: "xml list")

definition xml_tree :: "xml \<Rightarrow> xml etree" where
  "xml_tree root =
     \<lparr>Tag = el_tag, Text = el_text, ChildElements = el_children,
      FindElement = (\<lambda>e t. find (\<lambda>c. el_tag c = t) (el_children e)),
      FindElements = (\<lambda>e t. filter (\<lambda>c. el_tag c = t) (el_children e)),
      SelectAttr = (\<lambda>e a. map_of (el_attrs e) a), ReadFromString = (\<lambda>_. Some (Some root)),
      nil_Text = Panic, nil_ChildElements = Panic\<rparr>"

definition port_range_expr :: xml where
  "port_range_expr = Elem ''dport'' [] ''8000:9000'' []"

definition port_range_rule :: xml where
  "port_range_rule = Elem ''rule'' []''''
     [Elem ''conditions'' [] '''' [Elem ''tcp'' [] '''' [port_range_expr]]]"

definition port_range_dump :: xml where
  "port_range_dump = Elem ''iptables-rules'' [] ''''
     [Elem ''table'' [(''name'', ''filter'')] ''''
        [Elem ''chain'' [(''name'', ''INPUT''), (''policy'', ''DROP'')] '''' [port_range_rule]]]"

theorem port_list_empties_tables_witness:
  "ParseIPTables (xml_tree port_range_dump) ''dump'' = Ret createEmptyIPTables \<and>
   Hook (NewSimulateNetfilter createEmptyIPTables None None) NFHookInput sample_packet '''' '''' =
     Ret (VerdictAccept, sample_packet, Some ErrIPTablesUnsupported)"
proof (rule port_list_empties_tables [where ex = port_range_expr and rul = port_range_rule and
      root = port_range_dump and tab = "hd (el_children port_range_dump)" and
      chn = "hd (el_children (hd (el_children port_range_dump)))" and
      conds = "Elem ''conditions'' [] '''' [Elem ''tcp'' [] '''' [port_range_expr]]" and
      k = "Elem ''tcp'' [] '''' [port_range_expr]"])
  show "setUint (Text (xml_tree port_range_dump) port_range_expr) = None"
    by (simp add: xml_tree_def port_range_expr_def setUint_def ParseUint_def digit_value_def lower_def)
qed (simp_all add: xml_tree_def port_range_dump_def port_range_rule_def)

section \<open>The tables that are read\<close>

text \<open>
  Tables are filed under their names and chains under theirs, no rule hands over to another chain for
  good, and every matcher is of a module that the reader knows.
\<close>

fun known_matcher :: "matcher \<Rightarrow> bool" where
  "known_matcher (Physdev opt v) = False"
| "known_matcher _ = True"

fun known_target :: "target \<Rightarrow> bool" where
  "known_target (GotoTarget c) = False"
| "known_target (DNATTarget dst rnd pers) = (\<not> rnd \<and> \<not> pers)"
| "known_target (SNATTarget src rnd fully pers) = (\<not> rnd \<and> \<not> fully \<and> \<not> pers)"
| "known_target _ = True"

definition known_rule :: "rule \<Rightarrow> bool" where
  "known_rule r = (known_target (r_target r) \<and> list_all (\<lambda>m. known_matcher (m_matcher m)) (r_matches r))"

definition known_chains :: "(string \<times> iptChain) list \<Rightarrow> bool" where
  "known_chains cs = (distinct (map fst cs) \<and> list_all (\<lambda>(c, ch). ch_name ch = c \<and> list_all known_rule (ch_rules ch)) cs)"

definition tables_typed :: "xTables \<Rightarrow> bool" where
  "tables_typed ts = (distinct (map fst ts) \<and> list_all (\<lambda>(t, xt). xt_name xt = t \<and> known_chains (xt_chains xt)) ts)"

lemma createMatcher_known: "createMatcher k f v = Some m \<Longrightarrow> known_matcher m"
  by (auto simp: createMatcher_def split: if_splits)

lemma createTarget_known: "createTarget a ps = Some t \<Longrightarrow> known_target t"
  by (auto simp: createTarget_def split: if_splits)

lemma list_all_al_update: "list_all P m \<Longrightarrow> P (k, v) \<Longrightarrow> list_all P (al_update k v m)"
  by (induction m) auto

definition known_matches :: "match_t list \<Rightarrow> bool" where
  "known_matches ms = list_all (\<lambda>m. known_matcher (m_matcher m)) ms"

lemma parse_modules_known:
  "parse_modules X conds ks = Ret (Some ms) \<Longrightarrow> known_matches conds \<Longrightarrow> known_matches ms"
proof (induction ks arbitrary: conds)
  case (Cons k ks)
  obtain c where c: "go_foldl (parse_expr X (Tag X k)) conds (ChildElements X k) = Ret c"
    "parse_modules X c ks = Ret (Some ms)"
    using Cons.prems(1) by (auto simp: go_bind_Ret_iff split: if_splits)
  have "known_matches c"
    by (rule go_foldl_invariant [where P = known_matches, OF c(1) Cons.prems(2)])
      (auto simp: parse_expr_def known_matches_def createMatcher_known split: option.splits)
  then show ?case using Cons.IH [OF c(2)] by simp
qed simp

lemma parse_action_known: "parse_action X act = Ret (Some t) \<Longrightarrow> known_target t"
  by (auto simp: parse_action_def createTarget_known split: if_splits list.splits)

lemma parseOneRule_known:
  assumes "parseOneRule X x = Ret (Some r)"
  shows "known_rule r"
proof -
  let ?C = "case FindElement X x ''conditions'' of
      None \<Rightarrow> Ret (Some []) | Some cs \<Rightarrow> parse_modules X [] (ChildElements X cs)"
  let ?A = "case FindElement X x ''actions'' of None \<Rightarrow> [] | Some a \<Rightarrow> ChildElements X a"
  obtain c where c: "?C = Ret c" "(case c of None \<Rightarrow> Ret None | Some ms \<Rightarrow>
      (case ?A of [] \<Rightarrow> Ret (Some \<lparr>r_matches = ms, r_target = NopTarget\<rparr>)
       | act # _ \<Rightarrow> go_bind (parse_action X act) (\<lambda>t. Ret (map_option (\<lambda>t. \<lparr>r_matches = ms, r_target = t\<rparr>) t)))) =
      Ret (Some r)"
    using assms unfolding parseOneRule_def go_bind_Ret_iff by blast
  then obtain ms where ms: "c = Some ms" by (cases c) auto
  have "known_matches ms"
    using c(1) ms parse_modules_known [of X "[]" _ ms]
    by (auto simp: known_matches_def split: option.splits)
  moreover have "r_matches r = ms \<and> known_target (r_target r)"
    using c(2) ms parse_action_known [of X] by (cases ?A) (auto simp: go_bind_Ret_iff)
  ultimately show ?thesis by (simp add: known_rule_def known_matches_def)
qed

lemma parse_rules_known:
  "parse_rules X rs xs = Ret (Some rs') \<Longrightarrow> list_all known_rule rs \<Longrightarrow> list_all known_rule rs'"
  by (induction xs arbitrary: rs)
    (auto simp: go_bind_Ret_iff parseOneRule_known split: option.splits)

lemma parse_chains_known:
  "parse_chains X m xs = Ret (Some m') \<Longrightarrow> known_chains m \<Longrightarrow> known_chains m'"
proof (induction xs arbitrary: m)
  case (Cons x xs)
  obtain name rules where c: "SelectAttr X x ''name'' = Some name"
    "parse_rules X [] (ChildElements X x) = Ret (Some rules)"
    "\<exists>policy. parse_chains X (al_update name \<lparr>ch_name = name, ch_policy = policy, ch_rules = rules\<rparr> m) xs = Ret (Some m')"
    using Cons.prems(1) by (auto simp: go_bind_Ret_iff Let_def split: option.splits)
  have "known_chains (al_update name \<lparr>ch_name = name, ch_policy = policy, ch_rules = rules\<rparr> m)" for policy
    using Cons.prems(2) parse_rules_known [OF c(2)]
    by (simp add: known_chains_def list_all_al_update)
  then show ?case using c(3) Cons.IH by blast
qed simp

lemma parse_tables_typed:
  "parse_tables X ts xs = Ret ts' \<Longrightarrow> tables_typed ts \<Longrightarrow> tables_typed ts'"
proof (induction xs arbitrary: ts)
  case (Cons x xs)
  obtain t where t: "parseOneTable X x = Ret (Some t)" "parse_tables X (al_update (xt_name t) t ts) xs = Ret ts'"
    using Cons.prems(1) by (auto simp: go_bind_Ret_iff split: option.splits)
  have "known_chains (xt_chains t)"
    using parse_chains_known [OF parseOneTable_chains [OF t(1)]] by (simp add: known_chains_def)
  then have "tables_typed (al_update (xt_name t) t ts)"
    using Cons.prems(2) by (simp add: tables_typed_def list_all_al_update)
  then show ?case using t(2) Cons.IH by blast
qed simp

text \<open>
  C17: whatever the dump, tables that are read are well formed: filed under their names,
  with each chain once and under its name, without any goto even where the dump has one, and with
  matchers and targets of the known kinds only.
\<close>

theorem parsed_tables_typed:
  assumes "ParseIPTables X dump = Ret (defaultIPTables ts)"
  shows "tables_typed ts"
proof -
  obtain root where "go_bind (root_children X root) (parse_tables X []) = Ret ts"
    using assms
    by (auto simp: ParseIPTables_def createEmptyIPTables_def split: if_splits option.splits go.splits)
  then obtain els where "parse_tables X [] els = Ret ts" by (auto simp: go_bind_Ret_iff)
  from parse_tables_typed [OF this] show ?thesis by (simp add: tables_typed_def)
qed

text \<open>A dump whose only rule is a goto: it is read as a call.\<close>

definition goto_dump :: xml where
  "goto_dump = Elem ''iptables-rules'' [] ''''
     [Elem ''table'' [(''name'', ''filter'')] ''''
        [Elem ''chain'' [(''name'', ''INPUT'')] ''''
           [Elem ''rule'' [] '''' [Elem ''actions'' [] '''' [Elem ''goto'' [] '''' [Elem ''A'' [] '''' []]]]],
         Elem ''chain'' [(''name'', ''A'')] '''' []]]"

definition goto_tables :: xTables where
  "goto_tables = [(''filter'', filter_table
     [chain_of ''INPUT'' [always (CallTarget ''A'')], chain_of ''A'' []])]"

theorem parsed_tables_typed_witness:
  "ParseIPTables (xml_tree goto_dump) ''dump'' = Ret (defaultIPTables goto_tables) \<and> tables_typed goto_tables"
proof -
  have "ParseIPTables (xml_tree goto_dump) ''dump'' = Ret (defaultIPTables goto_tables)"
    by (simp add: ParseIPTables_def xml_tree_def goto_dump_def root_children_def parseOneTable_def
        parseOneRule_def parse_action_def goto_tables_def filter_table_def chain_of_def always_def)
  then show ?thesis using parsed_tables_typed by blast
qed


end

