(* ===== verification/Spec2Isabelle.thy ===== *)
theory Spec2Isabelle
  imports FlowExport PacketlossExport Tcpretrans Tcpreset Biolatency Netiftx Kernellatency Softirq Virtcmd
    Kprobe Interleave Helpers TaskAgent IptablesRead "HOL-Library.Multiset"
begin

text \<open>
  The eBPF programs of KubeSkoop, \<^verbatim>\<open>src/bpf\<close>. Each program is a set of handlers the kernel
  calls at a probe point; a handler reads kernel memory and its maps, updates the maps and writes
  events to a ring that the exporter in user space reads. The development models every program and
  the headers they include, and proves what their maps and events say about the run of the kernel. Of the
  Go programs around them, \<^verbatim>\<open>src/pkg\<close>, it models the synchronisation of addresses between controller and
  exporter, the publication of two probes, and the simulated network stack of the diagnosis.

  \<^bold>\<open>Words, bytes, tables.\<close> \<open>Prelude\<close>: the integer types, little- and big-endian encodings of
  words, slices of byte lists, association lists. \<open>Endian\<close>: \<^verbatim>\<open>headers/bpf/bpf_endian.h\<close>, with
  the agreement of the constant and variable branches and the round trips. \<open>Errno\<close>: the tables of
  \<^verbatim>\<open>headers/errno.h\<close> and \<^verbatim>\<open>headers/errno-base.h\<close>.

  \<^bold>\<open>Kernel types.\<close> \<open>CLayout\<close> is the C rule for sizes, alignments and member offsets, with the
  lemmas that members lie inside their record and do not overlap. \<open>VmlinuxAmd64\<close> and \<open>VmlinuxArm64\<close>
  are the records of the two \<^verbatim>\<open>vmlinux.h\<close> files that the programs access, with all the members
  the offsets depend on; members of pointer and function pointer type are eight opaque bytes.

  \<^bold>\<open>The kernel.\<close> \<open>Kernel\<close>: the running kernel is the parameter \<open>kenv\<close> of every handler: its
  memory, the offsets its BTF gives, the clock, the current task and CPU, and the outcomes of its
  operations. One value describes one invocation, so nothing is assumed about how the kernel changes
  between invocations; a theorem that needs more names it (\<open>kernel_ok\<close>, \<open>wire_layout\<close>,
  \<open>full_refused\<close>, \<open>room_accepted\<close>, \<open>clock_monotone\<close> and others). The helpers follow
  \<^verbatim>\<open>headers/bpf_helper_defs.h\<close>. \<open>Maps\<close>: the map types and operations of
  \<^verbatim>\<open>headers/common.h\<close> and the helper descriptions, per-CPU and LRU tables, and the contract
  \<open>counter_table\<close> for tables of counters, interpreted for hash tables and arrays.

  \<^bold>\<open>Macros.\<close> \<open>CoreRead\<close>: \<^verbatim>\<open>headers/bpf_core_read.h\<close> as a preprocessor expansion into
  read statements, executed with the readers of kernel memory, user memory and strings, and the
  bit-field macros. \<open>Tracing\<close>:
  \<^verbatim>\<open>headers/bpf_tracing.h\<close>, the parameter registers of all targets and the argument lists of the
  program wrappers. \<open>Helpers\<close>: the version, member and printing macros of
  \<^verbatim>\<open>headers/bpf_helpers.h\<close> and the records of \<^verbatim>\<open>headers/common.h\<close>, equal to the kernel's.

  \<^bold>\<open>Packets and sockets.\<close> \<open>Inspector\<close>: \<^verbatim>\<open>headers/inspector.h\<close> and
  \<^verbatim>\<open>headers/feature-switch.h\<close>: the tuple of a socket buffer or socket, the flow key of a frame,
  metadata and namespaces. A load outside the packet is the value \<^term>\<open>None\<close>, and the lemmas show
  that it does not happen.

  \<^bold>\<open>Programs.\<close> Every program has a theory with a record of its maps, one definition per handler
  with the name of the C function, a type of calls and a step function: \<open>Flow\<close>, \<open>Packetloss\<close>,
  \<open>Tcpretrans\<close>, \<open>Tcpreset\<close>, \<open>Biolatency\<close>, \<open>Netiftx\<close>, \<open>Kernellatency\<close>, \<open>Softirq\<close>, \<open>Virtcmd\<close>,
  \<open>Socketlatency\<close>, \<open>Kprobe\<close>. \<open>Latency\<close> is the contract of the programs that measure a time between two
  calls: under \<open>latency_probe\<close> every report measures an interval of the run, under \<open>exact_probe\<close> from
  the latest start, under \<open>prompt_probe\<close> no slow interval is missed. The latency programs interpret
  the strongest contract their handlers meet. The counters of \<open>Socketlatency\<close> are
  compared with the waits that follow from the history of calls alone. \<open>Interleave\<close> splits the counting of
  \<^verbatim>\<open>socketlatency.c\<close> into its single steps on several CPUs; the keys of a CPU are those that a handler
  call on it can change.

  \<^bold>\<open>Controller and exporter.\<close> \<open>Golang\<close>: results of Go code that may panic or not end. \<open>Ipcache\<close>:
  the address cache of the controller, \<^verbatim>\<open>src/pkg/controller/ipcache/ipcache.go\<close>, one definition
  per function and an event for each thing its goroutines do; \<open>IpcacheSync\<close> shows that a client is sent
  exactly the log it asked for, when the synchronisation goroutine can panic and when it cannot, and
  that a client catches up. \<open>TaskAgent\<close>: the table of \<^verbatim>\<open>src/pkg/exporter/nettop/ipcache.go\<close>
  and its synchronisation in \<^verbatim>\<open>src/pkg/exporter/task-agent/agent.go\<close>, which mirrors the log,
  and the retry loop, which ends.

  \<^bold>\<open>Publication.\<close> \<open>Export\<close>: the textual forms of \<^verbatim>\<open>src/pkg/exporter/bpfutil/format.go\<close> and the
  labels of \<^verbatim>\<open>src/pkg/exporter/probe/legacy.go\<close>. \<open>Kallsyms\<close>:
  \<^verbatim>\<open>src/pkg/exporter/bpfutil/kallsyms.go\<close>, the kernel symbols; the binary search behind the cache finds
  the symbol that contains an address. \<open>FlowExport\<close>: the collection of the flow table and the choice of
  interfaces, \<^verbatim>\<open>src/pkg/exporter/probe/flow/flow.go\<close>, and when two flows share a series.
  \<open>PacketlossExport\<close>: \<^verbatim>\<open>src/pkg/exporter/probe/tracepacketloss/packetloss.go\<close>, the loop over the
  events and the counters behind an LRU cache; the counters are objects of an explicit heap, and the
  invariant \<open>pl_inv\<close> says that every cached pointer leads to its own counter with the right number.
  The caches are parameters, described by \<open>lru_ok\<close>.

  \<^bold>\<open>Simulated network stack.\<close> The \<^verbatim>\<open>skoop\<close> command collects the network state of a node and
  simulates what happens to a packet. \<open>GoText\<close> and \<open>GoNet\<close> are what the code uses of the packages
  \<^verbatim>\<open>strings\<close>, \<^verbatim>\<open>strconv\<close> and \<^verbatim>\<open>net\<close>; networks are compared by the leading bits of
  addresses, and printed numbers, addresses and networks are read back. \<open>SkoopModel\<close>: packets and
  helpers. \<open>Routing\<close>: \<^verbatim>\<open>src/pkg/skoop/netstack/route.go\<close>, \<^verbatim>\<open>link.go\<close> and
  \<^verbatim>\<open>neigh.go\<close>, longest prefix match and rules by priority. \<open>Iptables\<close>: \<^verbatim>\<open>ipset.go\<close> and
  \<^verbatim>\<open>iptables.go\<close> over the accessors of an XML library; \<open>IptablesTrace\<close> relates the traversal with
  its explicit stack to the structured semantics of the packet filter, where they agree and where not;
  \<open>Netfilter\<close>: \<^verbatim>\<open>netfilter.go\<close>, the tables of a hook; \<open>IptablesRead\<close>: the meaning of printed
  arguments, and what reading a dump gives.

  \<^bold>\<open>This theory\<close> composes the parts: what a dropped packet leaves in the event log, that the flow
  table counts the packets on the wire by their addresses, protocol and ports, and that the samples
  the exporter publishes count the packets on the wire and the packets the kernel drops.

  \<^bold>\<open>Bounds.\<close> The eBPF programs have no loops, and there is no fuel anywhere: loops of the Go code
  that may not end are partial functions whose value says so; the macros recurse on the number of
  accessors, nine or ten by the counts the header defines. Counters wrap at 64 bits and time
  differences are 64-bit words, as in the code; table capacities are those of the map declarations.
  A sample is published as a double: \<open>float64\<close> rounds a count to the nearest one, ties to even, exact up to
  \<^verbatim>\<open>2^53\<close>. The revisions of the address cache, 64-bit words that start at zero and grow by one per change,
  and the number of attempts of the retry loop are natural numbers.

  \<^bold>\<open>Not modelled.\<close> Of the Go programs what loads and attaches the probes, the user-space halves of the
  other probes, and what talks to Kubernetes, serves HTTP or collects data from nodes; the web
  interface and the deployment files. The loop and the collection of the packet loss probe run
  concurrently without a lock; the model takes the handling of one event and one collection as single
  steps. That the reader is taken away from the loop in between is the record \<open>NoReader\<close>, on which the
  loop panics. A sample is the event it decodes to, or none.
  Stack traces and the rings themselves, which the kernel keeps: a stack id is what the kernel
  returns, and a ring is the list of the samples it accepted. \<^verbatim>\<open>nflatancy.c\<close> declares
  structures without a program; \<^verbatim>\<open>flowcount.c\<close>, \<^verbatim>\<open>netns.c\<close>, \<^verbatim>\<open>tasklatency.c\<close>,
  \<^verbatim>\<open>rxkernel.c\<close> and \<^verbatim>\<open>txkernel.c\<close> have no code. Helpers and kernel types that neither
  a program nor a modelled macro uses, the queries for the existence of kernel types, which the
  compiler and the loader answer, and the tail call written in assembly.
\<close>

section \<open>Dropped packets\<close>

text \<open>
  C5: an IPv4 packet with a TCP or UDP header that the kernel drops is reported
  with the addresses and ports it has on the wire, its protocol and the place of the drop, unless the
  sample is lost; no other event is written and the earlier ones stay.
\<close>

theorem dropped_packet_reported:
  assumes "kernel_ok k" and "wire_layout (k_off k)" and "skb_at k (kf_skb args) head nh th" and "nh \<noteq> 0"
    and "holds k (head + ucast nh) (ipv4_header vihl mid proto check s d)"
    and "length mid = 8" and "drop_bit 4 vihl = 4"
    and "proto = IPPROTO_TCP \<or> proto = IPPROTO_UDP"
    and "holds k (head + ucast th) (ports_bytes sp dp)"
  shows "insp_pl_event (packetloss_step k args st) =
    insp_pl_event st @
    (if k_perf k < 0 then []
     else [(k_cpu k,
       \<lparr>pl_tuple = \<lparr>saddr = word_be s @ replicate 12 0, daddr = word_be d @ replicate 12 0, sport = sp,
                    dport = dp, l3_proto = ETH_P_IP, l4_proto = proto, tuple_pad = 0\<rparr>,
        pl_location = kf_location args,
        pl_stack_id = (if is_enable k (insp_packetloss_feature_switch st) 0
                       then k_stackid k KERN_STACKID_FLAGS else 0)\<rparr>)])"
  using kfree_skb_eq [of k args st] by (auto simp: set_tuple_v4 [OF assms])

text \<open>The TCP packet from 10.0.0.1:80 to 10.0.0.2:1000, dropped at the address 1234.\<close>

theorem dropped_packet_reported_witness:
  "insp_pl_event (packetloss_step tcp_kernel
       \<lparr>kf_pad = 0, kf_skb = 4096, kf_location = 1234, kf_protocol = 0\<rparr>
       \<lparr>insp_pl_event = [], insp_packetloss_feature_switch = []\<rparr>) =
   [(0, \<lparr>pl_tuple = \<lparr>saddr = word_be (0x0a000001 :: u32) @ replicate 12 0,
           daddr = word_be (0x0a000002 :: u32) @ replicate 12 0, sport = 80, dport = 1000,
           l3_proto = ETH_P_IP, l4_proto = IPPROTO_TCP, tuple_pad = 0\<rparr>,
         pl_location = 1234, pl_stack_id = 0\<rparr>)]"
proof -
  let ?args = "\<lparr>kf_pad = 0, kf_skb = 4096, kf_location = 1234, kf_protocol = 0\<rparr>"
  have "skb_at tcp_kernel (kf_skb ?args) 8192 32 52" "drop_bit 4 (0x45 :: u8) = 4"
    using tcp_kernel_facts(3) by simp_all
  from dropped_packet_reported [OF tcp_kernel_facts(1,2) this(1) _ tcp_kernel_facts(4) _ this(2) _ tcp_kernel_facts(5),
      of "\<lparr>insp_pl_event = [], insp_packetloss_feature_switch = []\<rparr>"]
  show ?thesis by (simp add: tcp_kernel_def is_enable_def array_lookup_def)
qed

section \<open>Flows on the wire\<close>

text \<open>
  A TCP or UDP packet over IPv4, with the bytes around the fields that identify its flow, and the frame
  it is on the wire.
\<close>

record wire_packet =
  w_macs :: bytes
  w_vihl :: u8
  w_mid :: bytes
  w_proto :: u8
  w_check :: u16
  w_src :: u32
  w_dst :: u32
  w_opts :: bytes
  w_sport :: u16
  w_dport :: u16
  w_rest :: bytes

definition wire_packet_ok :: "wire_packet \<Rightarrow> bool" where
  "wire_packet_ok w \<longleftrightarrow>
     length (w_macs w) = 12 \<and> length (w_mid w) = 8 \<and> length (w_opts w) \<le> 40 \<and>
     unat (w_vihl w AND 15) * 4 = 20 + length (w_opts w) \<and>
     (w_proto w = IPPROTO_TCP \<and> 16 \<le> length (w_rest w) \<or> w_proto w = IPPROTO_UDP \<and> 4 \<le> length (w_rest w))"

definition wire_frame :: "wire_packet \<Rightarrow> bytes" where
  "wire_frame w =
     ipv4_frame (w_macs w)
       (ipv4_header (w_vihl w) (w_mid w) (w_proto w) (w_check w) (w_src w) (w_dst w)) (w_opts w)
       (ports_bytes (w_sport w) (w_dport w) @ w_rest w)"

text \<open>
  What identifies a flow: the protocol, the addresses and, when the feature switch asks for them, the
  ports; and the key of the table it corresponds to.
\<close>

type_synonym flow_id = "u8 \<times> u32 \<times> u32 \<times> u16 \<times> u16"

definition flow_id :: "bool \<Rightarrow> wire_packet \<Rightarrow> flow_id" where
  "flow_id port w =
     (w_proto w, w_src w, w_dst w, if port then w_sport w else 0, if port then w_dport w else 0)"

fun id_key :: "flow_id \<Rightarrow> flow_tuple_4" where
  "id_key (proto, s, d, sp, dp) =
     \<lparr>ft_proto = proto, ft_src = builtin_bswap32 s, ft_dst = builtin_bswap32 d,
      ft_sport = builtin_bswap16 sp, ft_dport = builtin_bswap16 dp\<rparr>"

lemma inj_id_key: "inj id_key"
proof (rule injI)
  fix x y assume "id_key x = id_key y"
  then show "x = y"
    by (cases x; cases y) (auto dest: arg_cong [where f = builtin_bswap32] arg_cong [where f = builtin_bswap16]
        simp: bswap_involution)
qed

lemma bswap16_zero [simp]: "builtin_bswap16 0 = 0"
  by (simp add: builtin_bswap16_def word_le_def upt_rec byte_simps)

lemma flow_key_wire:
  assumes "wire_layout (k_off k)" and "wire_packet_ok w" and "tc_data (flow_skb e) = wire_frame w"
  shows "flow_key k sw e = Some (id_key (flow_id (is_enable k sw 0) w))"
  using assms(2)
  by (auto simp: flow_key_def assms(3) wire_frame_def set_flow_tuple4_v4 [OF assms(1)] wire_packet_ok_def
      flow_id_def)

text \<open>A sighting of a packet: the kernel it happens in, the direction, the length and the packet.\<close>

type_synonym sighting = "kenv \<times> bool \<times> u32 \<times> wire_packet"

fun wire_call :: "sighting \<Rightarrow> kenv \<times> flow_call" where
  "wire_call (k, ingress, n, w) =
     (k, (if ingress then Ingress else Egress) \<lparr>tc_len = n, tc_data = wire_frame w\<rparr>)"

fun seen_len :: "sighting \<Rightarrow> u64" where
  "seen_len (k, ingress, n, w) = ucast n"

fun seen_id :: "bool \<Rightarrow> sighting \<Rightarrow> flow_id" where
  "seen_id port (k, ingress, n, w) = flow_id port w"

fun seen_ok :: "feature_switch \<Rightarrow> bool \<Rightarrow> sighting \<Rightarrow> bool" where
  "seen_ok sw port (k, ingress, n, w) \<longleftrightarrow>
     wire_layout (k_off k) \<and> room_accepted k \<and> is_enable k sw 0 = port \<and> wire_packet_ok w"

lemma counted_wire:
  "\<forall>x \<in> set xs. seen_ok sw port x \<Longrightarrow>
     counted sw (map wire_call xs) = map (\<lambda>x. (id_key (seen_id port x), seen_len x)) xs"
proof (induction xs)
  case (Cons x xs)
  obtain k ingress n w where x: "x = (k, ingress, n, w)" by (cases x)
  have "flow_key k sw (snd (wire_call x)) = Some (id_key (flow_id (is_enable k sw 0) w))"
    using Cons.prems by (intro flow_key_wire) (auto simp: x)
  with Cons show ?case by (auto simp: x counted_def)
qed (simp add: counted_def)

text \<open>The state after a run over the packets, and the totals of a flow in it.\<close>

lemma flow_wire_inv:
  assumes "\<forall>x \<in> set xs. seen_ok sw port x" and "card (seen_id port ` set xs) \<le> 65535"
  shows "\<exists>s. flow_run evict (\<lambda>c. zero_flow_metrics) (map wire_call xs) (flow_init sw) = Some s \<and>
    flow_inv sw (map (\<lambda>x. (id_key (seen_id port x), seen_len x)) xs) s"
proof -
  note counted = counted_wire [OF assms(1)]
  have "\<forall>(k, e) \<in> set (map wire_call xs). wire_layout (k_off k) \<and> room_accepted k"
    using assms(1) by auto
  moreover have "fst ` set (counted sw (map wire_call xs)) = id_key ` seen_id port ` set xs"
    by (simp add: counted image_comp comp_def)
  then have "card (fst ` set ([] @ counted sw (map wire_call xs))) \<le> 65535"
    using assms(2) card_image_le [of "seen_id port ` set xs" id_key] by simp
  ultimately show ?thesis
    using flow_run_inv [OF flow_init_inv, of "map wire_call xs" sw evict] counted by simp
qed

lemma flow_wire_totals:
  assumes "flow_inv sw (map (\<lambda>x. (id_key (seen_id port x), seen_len x)) xs) s"
  shows "total_packets s (id_key f) = of_nat (length (filter (\<lambda>x. seen_id port x = f) xs)) \<and>
    total_bytes s (id_key f) = sum_list (map seen_len (filter (\<lambda>x. seen_id port x = f) xs))"
proof -
  let ?cs = "map (\<lambda>x. (id_key (seen_id port x), seen_len x)) xs"
  have "filter (\<lambda>c. fst c = id_key f) ?cs =
      map (\<lambda>x. (id_key (seen_id port x), seen_len x)) (filter (\<lambda>x. seen_id port x = f) xs)"
    by (simp add: filter_map comp_def inj_eq [OF inj_id_key] del: id_key.simps)
  then show ?thesis
    using assms
    by (simp add: flow_inv_def counted_packets_def counted_bytes_def comp_def inj_eq [OF inj_id_key] del: id_key.simps)
qed

text \<open>
  C12: the flow table implements per-flow accounting of the packets on the wire. For any
  sequence of TCP and UDP packets over IPv4 on any CPUs and in both directions, with at most 65535
  flows, the program runs without an invalid access, and the totals under the key of a flow are the
  number of packets of exactly that flow and the sum of their lengths.
\<close>

theorem flow_counts_wire:
  assumes "\<forall>x \<in> set xs. seen_ok sw port x" and "card (seen_id port ` set xs) \<le> 65535"
  shows "\<exists>s. flow_run evict (\<lambda>c. zero_flow_metrics) (map wire_call xs) (flow_init sw) = Some s \<and>
    (\<forall>f. total_packets s (id_key f) = of_nat (length (filter (\<lambda>x. seen_id port x = f) xs)) \<and>
         total_bytes s (id_key f) = sum_list (map seen_len (filter (\<lambda>x. seen_id port x = f) xs)))"
  using flow_wire_inv [OF assms, of evict] flow_wire_totals by blast

text \<open>Two packets of a DNS query and its answer, each seen once, on two CPUs.\<close>

definition dns_packet :: "u32 \<Rightarrow> u32 \<Rightarrow> u16 \<Rightarrow> u16 \<Rightarrow> wire_packet" where
  "dns_packet s d sp dp = \<lparr>w_macs = replicate 12 0, w_vihl = 0x45, w_mid = replicate 8 0,
     w_proto = IPPROTO_UDP, w_check = 0, w_src = s, w_dst = d, w_opts = [], w_sport = sp, w_dport = dp,
     w_rest = replicate 20 0\<rparr>"

definition dns_run :: "sighting list" where
  "dns_run = [(sample_kernel, False, 62, dns_packet 1 2 4000 53),
              (sample_kernel\<lparr>k_cpu := 1\<rparr>, True, 90, dns_packet 2 1 53 4000)]"

theorem flow_counts_wire_witness:
  "\<exists>s. flow_run (\<lambda>ents key. False) (\<lambda>c. zero_flow_metrics) (map wire_call dns_run)
      (flow_init [\<lambda>c. 1]) = Some s \<and>
    (\<forall>f. total_packets s (id_key f) = of_nat (length (filter (\<lambda>x. seen_id True x = f) dns_run)) \<and>
         total_bytes s (id_key f) = sum_list (map seen_len (filter (\<lambda>x. seen_id True x = f) dns_run)))"
proof (rule flow_counts_wire)
  show "\<forall>x \<in> set dns_run. seen_ok [\<lambda>c. 1] True x"
    by (simp add: dns_run_def dns_packet_def wire_packet_ok_def wire_layout_vmlinux room_accepted_def
        is_enable_def array_lookup_def)
  show "card (seen_id True ` set dns_run) \<le> 65535"
    using card_image_le [of "set dns_run" "seen_id True"] card_length [of dns_run]
    by (simp add: dns_run_def)
qed

section \<open>Exported metrics\<close>

text \<open>
  A flow as the metrics show it: the addresses in dotted notation, and the ports with their bytes swapped,
  since the table keeps them in network order.
\<close>

fun exported_tuple :: "flow_id \<Rightarrow> Tuple_t" where
  "exported_tuple (proto, s, d, sp, dp) =
     \<lparr>t_Protocol = proto, t_Sport = builtin_bswap16 sp, t_Dport = builtin_bswap16 dp,
      t_Src = dotted (word_be s), t_Dst = dotted (word_be d)\<rparr>"

lemma flow_toProbeTuple_id_key: "flow_toProbeTuple (id_key f) = exported_tuple f"
  by (cases f) (simp add: flow_toProbeTuple_def GetV4AddrStr_dotted)

text \<open>
  C1: the flow metrics count the packets on the wire, from the frame to the sample. After any
  sequence of TCP and UDP packets over IPv4, with at most 65535 flows and on the processors that the
  machine has, a complete iteration of the table exists and collecting any such iteration publishes,
  for exactly the flows that were seen, the number of packets and the sum of their lengths, counted with
  64 bits and rounded to the nearest double, labelled with protocol, addresses and owners, and with the
  ports in swapped byte order.
\<close>

theorem exported_flows:
  assumes "\<forall>x \<in> set xs. seen_ok sw port x" and "card (seen_id port ` set xs) \<le> 65535"
    and "\<forall>x \<in> set xs. unat (k_cpu (fst x)) < n" and "n \<le> 2 ^ 32"
  shows "\<exists>s. flow_run evict (\<lambda>c. zero_flow_metrics) (map wire_call xs) (flow_init sw) = Some s \<and>
    (\<exists>entries. iterates n s entries) \<and>
    (\<forall>entries. iterates n s entries \<longrightarrow>
       set (flow_collectOnce cache entries) =
         (\<Union>f \<in> seen_id port ` set xs.
            {(''bytes'', BuildTupleMetricsLabels cache (exported_tuple f),
              float64 (unat (sum_list (map seen_len (filter (\<lambda>x. seen_id port x = f) xs))))),
             (''packets'', BuildTupleMetricsLabels cache (exported_tuple f),
              float64 (unat (of_nat (length (filter (\<lambda>x. seen_id port x = f) xs)) :: u64)))}))"
proof -
  obtain s where run: "flow_run evict (\<lambda>c. zero_flow_metrics) (map wire_call xs) (flow_init sw) = Some s"
    and inv: "flow_inv sw (map (\<lambda>x. (id_key (seen_id port x), seen_len x)) xs) s"
    using flow_wire_inv [OF assms(1,2), of evict] by blast
  have "\<forall>(k, e) \<in> set (map wire_call xs). wire_layout (k_off k) \<and> unat (k_cpu k) < n"
    using assms(1,3) by fastforce
  from cpu_bounded_run [OF run cpu_bounded_init this] have cpus: "cpu_bounded n s" .
  have keys: "fst ` set (map (\<lambda>x. (id_key (seen_id port x), seen_len x)) xs) = id_key ` seen_id port ` set xs"
    by (simp add: image_comp comp_def)
  show ?thesis
    using run iterates_exists collect_run [OF inv cpus assms(4)]
    by (intro exI [of _ s] conjI) (simp_all add: keys flow_wire_totals [OF inv] flow_toProbeTuple_id_key del: id_key.simps)
qed

text \<open>The two packets of the query and its answer, on a machine with two processors.\<close>

theorem exported_flows_witness:
  "\<exists>s entries. flow_run (\<lambda>ents key. False) (\<lambda>c. zero_flow_metrics) (map wire_call dns_run)
      (flow_init [\<lambda>c. 1]) = Some s \<and> iterates 2 s entries \<and>
     (''bytes'', BuildTupleMetricsLabels init_IPCache (exported_tuple (IPPROTO_UDP, 1, 2, 4000, 53)), 62) \<in>
       set (flow_collectOnce init_IPCache entries)"
proof -
  have "card (seen_id True ` set dns_run) \<le> 65535"
    using card_image_le [of "set dns_run" "seen_id True"] card_length [of dns_run]
    by (simp add: dns_run_def)
  moreover have "\<forall>x \<in> set dns_run. seen_ok [\<lambda>c. 1] True x" "\<forall>x \<in> set dns_run. unat (k_cpu (fst x)) < 2"
    by (simp_all add: dns_run_def dns_packet_def wire_packet_ok_def wire_layout_vmlinux room_accepted_def
        is_enable_def array_lookup_def sample_kernel_def)
  ultimately obtain s entries where
    run: "flow_run (\<lambda>ents key. False) (\<lambda>c. zero_flow_metrics) (map wire_call dns_run) (flow_init [\<lambda>c. 1]) = Some s"
      "iterates 2 s entries"
    and out: "set (flow_collectOnce init_IPCache entries) =
         (\<Union>f \<in> seen_id True ` set dns_run.
            {(''bytes'', BuildTupleMetricsLabels init_IPCache (exported_tuple f),
              float64 (unat (sum_list (map seen_len (filter (\<lambda>x. seen_id True x = f) dns_run))))),
             (''packets'', BuildTupleMetricsLabels init_IPCache (exported_tuple f),
              float64 (unat (of_nat (length (filter (\<lambda>x. seen_id True x = f) dns_run)) :: u64)))})"
    using exported_flows [of dns_run "[\<lambda>c. 1]" True 2 "\<lambda>ents key. False" init_IPCache] by auto
  have query: "(IPPROTO_UDP, 1, 2, 4000, 53) \<in> seen_id True ` set dns_run"
    "sum_list (map seen_len (filter (\<lambda>x. seen_id True x = (IPPROTO_UDP, 1, 2, 4000, 53)) dns_run)) = 62"
    by (simp_all add: dns_run_def dns_packet_def flow_id_def)
  have "(''bytes'', BuildTupleMetricsLabels init_IPCache (exported_tuple (IPPROTO_UDP, 1, 2, 4000, 53)), 62) \<in>
       set (flow_collectOnce init_IPCache entries)"
    unfolding out by (rule UN_I [OF query(1)]) (simp add: query(2) float64_exact)
  with run show ?thesis by blast
qed

section \<open>Losses from the kernel to the metrics\<close>

text \<open>
  A freed buffer with the kernel it is freed in: whether it is reported, for which protocol and hosts, and
  whether the place is one where packets are lost.
\<close>

type_synonym freed = "kenv \<times> kfree_skb_args"

definition reported :: "freed \<Rightarrow> bool" where
  "reported x \<longleftrightarrow> fst (set_tuple (fst x) (kf_skb (snd x)) zero_tuple) = 0 \<and> 0 \<le> k_perf (fst x)"

definition freed_key :: "freed \<Rightarrow> cacheKey" where
  "freed_key x = tuple_key (toProbeTuple (snd (set_tuple (fst x) (kf_skb (snd x)) zero_tuple)))"

definition lost :: "KernelSymbol list \<Rightarrow> freed \<Rightarrow> bool" where
  "lost ks x \<longleftrightarrow> reported x \<and> \<not> located ks uselessSymbols (kf_location (snd x))"

definition filtered :: "KernelSymbol list \<Rightarrow> freed \<Rightarrow> bool" where
  "filtered ks x \<longleftrightarrow> lost ks x \<and> located ks [netfilterSymbol] (kf_location (snd x))"

lemma drop_report_cases:
  "if reported x
   then \<exists>e. drop_report sw x = [(k_cpu (fst x), e)] \<and> event_key e = freed_key x \<and>
     pl_location e = kf_location (snd x)
   else drop_report sw x = []"
  by (simp add: drop_report_def reported_def event_key_def freed_key_def Let_def)

lemma filter_reports:
  assumes "\<And>e x. event_key e = freed_key x \<Longrightarrow> pl_location e = kf_location (snd x) \<Longrightarrow> P e \<longleftrightarrow> Q x"
  shows "length (filter P (map snd (concat (map (drop_report sw) xs)))) = length (filter (\<lambda>x. reported x \<and> Q x) xs)"
proof (induction xs)
  case (Cons x xs)
  then show ?case using drop_report_cases [of x sw] assms [of _ x] by (auto split: if_splits)
qed simp

lemma length_filter_mset: "mset xs = mset ys \<Longrightarrow> length (filter P xs) = length (filter P ys)"
  by (metis mset_filter size_mset)

lemma losses_freed:
  assumes "mset evs = mset (map snd (concat (map (drop_report sw) xs)))"
  shows "length (losses ks evs key) = length (filter (\<lambda>x. lost ks x \<and> freed_key x = key) xs)"
    "length (netfilter_losses ks evs key) = length (filter (\<lambda>x. filtered ks x \<and> freed_key x = key) xs)"
  unfolding losses_def netfilter_losses_def filter_filter length_filter_mset [OF assms]
  by (subst filter_reports; auto simp: counted_loss_def lost_def filtered_def conj_ac)+

lemma counted_keys_freed:
  assumes "mset evs = mset (map snd (concat (map (drop_report sw) xs)))"
  shows "counted_keys ks evs = freed_key ` set (filter (lost ks) xs)"
proof -
  have "key \<in> counted_keys ks evs \<longleftrightarrow> losses ks evs key \<noteq> []" for key
    by (auto simp: counted_keys_def losses_def filter_empty_conv)
  moreover have "losses ks evs key \<noteq> [] \<longleftrightarrow> filter (\<lambda>x. lost ks x \<and> freed_key x = key) xs \<noteq> []" for key
    using losses_freed(1) [OF assms, of ks key] by (metis length_0_conv)
  ultimately show ?thesis by (auto simp: filter_empty_conv)
qed

text \<open>
  C2: the packet loss metrics count the packets that the kernel drops, from the freed buffer to
  the sample. Suppose kernel symbols could be read, the counters start empty, the reader is not taken
  away from the loop, and at most 10240 combinations of protocol and hosts lose packets. When the
  samples the kernel accepted reach the loop, in whatever order the rings of the processors are read
  and with whatever read errors between them, the loop does not panic and the next collection publishes,
  for exactly the protocols and pairs of hosts with a lost packet, the number of buffers that were freed
  outside the functions that free packets normally, and the number of those freed by the packet filter,
  modulo \<^verbatim>\<open>2^32\<close>.
\<close>

theorem exported_losses:
  assumes "env_ok E V" and "v_cache V (p_cache p) = Map.empty"
    and "locations_ok (pe_kallsyms E) (v_loc V (p_locationCache p))"
    and "mset (samples rs) = mset (map snd (insp_pl_event (run_probe packetloss_step xs
           \<lparr>insp_pl_event = [], insp_packetloss_feature_switch = sw\<rparr>)))"
    and "card (freed_key ` set (filter (lost (pe_kallsyms E)) xs)) \<le> 10240" and "NoReader \<notin> fst ` set rs"
  shows "\<exists>p' keys. perfLoop E rs p = Ret p' \<and> distinct keys \<and>
    set keys = freed_key ` set (filter (lost (pe_kallsyms E)) xs) \<and>
    fst (pl_collectOnce E now p') =
      concat (map (\<lambda>key. counter_emissions E key
        (length (filter (\<lambda>x. lost (pe_kallsyms E) x \<and> freed_key x = key) xs) mod 2 ^ 32)
        (length (filter (\<lambda>x. filtered (pe_kallsyms E) x \<and> freed_key x = key) xs) mod 2 ^ 32)) keys)"
proof -
  have evs: "mset (samples rs) = mset (map snd (concat (map (drop_report sw) xs)))"
    using assms(4) by (simp add: packetloss_log_gen)
  show ?thesis
    using losses_published [OF assms(1-3), of rs now] assms(5,6)
    unfolding counted_keys_freed [OF evs] losses_freed [OF evs] by blast
qed

text \<open>The packet of the sample kernel, dropped by the packet filter, with a lost sample before its report.\<close>

definition tcp_freed :: freed where
  "tcp_freed = (tcp_kernel, \<lparr>kf_pad = 0, kf_skb = 4096, kf_location = 0xffffffff80000010, kf_protocol = 0\<rparr>)"

definition tcp_lost :: insp_pl_event_t where
  "tcp_lost = \<lparr>pl_tuple = \<lparr>saddr = word_be (0x0a000001 :: u32) @ replicate 12 0,
       daddr = word_be (0x0a000002 :: u32) @ replicate 12 0, sport = 80, dport = 1000, l3_proto = ETH_P_IP,
       l4_proto = IPPROTO_TCP, tuple_pad = 0\<rparr>,
     pl_location = 0xffffffff80000010, pl_stack_id = 0\<rparr>"

lemma tcp_freed_tuple: "set_tuple (fst tcp_freed) (kf_skb (snd tcp_freed)) zero_tuple = (0, pl_tuple tcp_lost)"
proof -
  have "drop_bit 4 (0x45 :: u8) = 4" by simp
  then show ?thesis
    using set_tuple_v4 [OF tcp_kernel_facts(1-3) _ tcp_kernel_facts(4) _ _ _ tcp_kernel_facts(5)]
    by (simp add: tcp_freed_def tcp_lost_def)
qed

lemma tcp_freed_report: "drop_report [] tcp_freed = [(0, tcp_lost)]" "reported tcp_freed"
  using tcp_freed_tuple
  by (simp_all add: drop_report_def reported_def is_enable_def array_lookup_def Let_def)
    (simp_all add: tcp_freed_def tcp_kernel_def tcp_lost_def)

lemma tcp_freed_key:
  "freed_key tcp_freed = \<lparr>ck_protocol = IPPROTO_TCP, ck_src = ''10.0.0.1'', ck_dst = ''10.0.0.2''\<rparr>"
proof -
  have "word_be (0x0a000001 :: u32) = [10, 0, 0, 1]" "word_be (0x0a000002 :: u32) = [10, 0, 0, 2]" by code_simp+
  moreover have "IP_String [10, 0, 0, 1] = ''10.0.0.1''" "IP_String [10, 0, 0, 2] = ''10.0.0.2''" by code_simp+
  ultimately show ?thesis
    by (simp add: freed_key_def tcp_freed_tuple tcp_lost_def tuple_key_def toProbeTuple_def GetAddrStr_def ETH_P_IP_def)
qed

theorem exported_losses_witness:
  "\<exists>p'. perfLoop pl_sample_env [(LostSamples 1, 0, 0), (Sample tcp_lost, 1, 2)]
       \<lparr>p_cache = [], p_heap = [], p_locationCache = [], p_sink = None\<rparr> = Ret p' \<and>
     fst (pl_collectOnce pl_sample_env (\<lambda>_. 3) p') =
       counter_emissions pl_sample_env \<lparr>ck_protocol = IPPROTO_TCP, ck_src = ''10.0.0.1'', ck_dst = ''10.0.0.2''\<rparr> 1 1"
proof -
  let ?p = "\<lparr>p_cache = [], p_heap = [], p_locationCache = [], p_sink = None\<rparr>"
    and ?rs = "[(LostSamples 1, 0, 0), (Sample tcp_lost, 1, 2)]" and ?ks = "pe_kallsyms pl_sample_env"
  have "kf_location (snd tcp_freed) = 0xffffffff80000010" "?ks = two_syms"
    by (simp_all add: tcp_freed_def pl_sample_env_def)
  then have lost: "lost ?ks tcp_freed" "filtered ?ks tcp_freed"
    using pl_sample_located tcp_freed_report(2) by (simp_all add: lost_def filtered_def)
  have "mset (samples ?rs) = mset (map snd (insp_pl_event (run_probe packetloss_step [tcp_freed]
      \<lparr>insp_pl_event = [], insp_packetloss_feature_switch = []\<rparr>)))"
    by (subst packetloss_log_gen [where sw = "[]"]) (simp_all add: tcp_freed_report)
  from exported_losses [OF pl_sample_env_ok, of ?p, OF _ _ this, of "\<lambda>_. 3"] lost obtain p' keys where
    p': "perfLoop pl_sample_env ?rs ?p = Ret p'" "distinct keys" "set keys = {freed_key tcp_freed}"
      "fst (pl_collectOnce pl_sample_env (\<lambda>_. 3) p') =
        concat (map (\<lambda>key. counter_emissions pl_sample_env key
          (length (filter (\<lambda>x. lost ?ks x \<and> freed_key x = key) [tcp_freed]) mod 2 ^ 32)
          (length (filter (\<lambda>x. filtered ?ks x \<and> freed_key x = key) [tcp_freed]) mod 2 ^ 32)) keys)"
    by (auto simp: locations_ok_def)
  have "keys = [freed_key tcp_freed]" using p'(2,3) by (cases keys; cases "tl keys") auto
  with p'(1,4) lost tcp_freed_key show ?thesis by auto
qed


end
